(* ===== verification/Prelude.thy ===== *)
theory Prelude
  imports Main "HOL-Library.Sublist"
begin

text \<open>
  Shared vocabulary of the development: the collections its proof hints live in, Go's
  decimal rendering (\<open>%d\<close>, \<open>%02d\<close>, \<open>%04d\<close>) and \<open>strconv.Atoi\<close>'s digits, and the list
  lemmas that the tables of the database share (filtering, updating in place, smallest
  element under a key).
\<close>

named_theorems dec_simps \<open>rendering and reading decimals\<close>
named_theorems go_wp \<open>weakest preconditions of the Go monad\<close>
named_theorems go_stays \<open>programs whose database steps stay inside a relation\<close>
named_theorems row_simps \<open>unfolding rules for table statements\<close>

section \<open>Decimals\<close>

definition digit :: "nat \<Rightarrow> char" where
  "digit d = ''0123456789'' ! d"

definition is_digit :: "char \<Rightarrow> bool" where
  "is_digit c = (c \<in> set ''0123456789'')"

definition digit_val :: "char \<Rightarrow> nat" where
  "digit_val c = of_char c - 48"

text \<open>\<open>strconv.Itoa\<close> on a natural number.\<close>

fun dec :: "nat \<Rightarrow> string" where
  "dec n = (if n < 10 then [digit n] else dec (n div 10) @ [digit (n mod 10)])"

declare dec.simps [simp del]

definition dec_int :: "int \<Rightarrow> string" where
  "dec_int i = (if i < 0 then CHR ''-'' # dec (nat (- i)) else dec (nat i))"

definition pad0 :: "nat \<Rightarrow> string \<Rightarrow> string" where
  "pad0 w s = replicate (w - length s) CHR ''0'' @ s"

text \<open>\<open>fmt\<close>'s \<open>%0wd\<close>: the sign counts towards the width and precedes the zeros.\<close>

definition fmt_0d :: "nat \<Rightarrow> int \<Rightarrow> string" where
  "fmt_0d w i = (if i < 0 then CHR ''-'' # pad0 (w - 1) (dec (nat (- i))) else pad0 w (dec (nat i)))"

definition read_dec :: "string \<Rightarrow> nat" where
  "read_dec s = foldl (\<lambda>n c. 10 * n + digit_val c) 0 s"

lemma below_ten: "(d :: nat) < 10 \<Longrightarrow> d \<in> {0, 1, 2, 3, 4, 5, 6, 7, 8, 9}"
  by auto

lemma digit_val_digit [simp]: "d < 10 \<Longrightarrow> digit_val (digit d) = d"
  by (drule below_ten) (auto simp: digit_def digit_val_def)

lemma is_digit_digit [simp]: "d < 10 \<Longrightarrow> is_digit (digit d)"
  by (drule below_ten) (auto simp: digit_def is_digit_def)

lemma digit_inj: "d < 10 \<Longrightarrow> e < 10 \<Longrightarrow> digit d = digit e \<Longrightarrow> d = e"
  by (metis digit_val_digit)

lemma dec_nonempty [simp]: "dec n \<noteq> []"
  by (subst dec.simps) simp

lemma dec_all_digits: "c \<in> set (dec n) \<Longrightarrow> is_digit c"
proof (induction n rule: dec.induct)
  case (1 n)
  then show ?case by (cases "n < 10") (auto simp: dec.simps [of n])
qed

lemma read_dec_snoc [simp]: "read_dec (s @ [c]) = 10 * read_dec s + digit_val c"
  by (simp add: read_dec_def)

lemma read_dec_Nil [simp]: "read_dec [] = 0"
  by (simp add: read_dec_def)

lemma read_dec_dec [simp]: "read_dec (dec n) = n"
proof (induction n rule: dec.induct)
  case (1 n)
  show ?case
  proof (cases "n < 10")
    case True
    then show ?thesis using read_dec_snoc [of "[]" "digit n"] by (simp add: dec.simps [of n])
  next
    case False
    with 1 show ?thesis by (simp add: dec.simps [of n])
  qed
qed

lemma dec_inj: "dec m = dec n \<Longrightarrow> m = n"
  by (metis read_dec_dec)

lemma dec_int_inj: "dec_int i = dec_int j \<Longrightarrow> i = j"
proof -
  assume eq: "dec_int i = dec_int j"
  have no_minus: "dec n \<noteq> CHR ''-'' # s" for n s
    using dec_all_digits [of "CHR ''-''" n] by (auto simp: is_digit_def)
  show "i = j"
  proof (cases "i < 0"; cases "j < 0")
    assume "i < 0" and "j < 0"
    with eq have "nat (- i) = nat (- j)" by (auto simp: dec_int_def dest: dec_inj)
    with \<open>i < 0\<close> \<open>j < 0\<close> show ?thesis by simp
  next
    assume "\<not> i < 0" and "\<not> j < 0"
    with eq have "nat i = nat j" by (auto simp: dec_int_def dest: dec_inj)
    with \<open>\<not> i < 0\<close> \<open>\<not> j < 0\<close> show ?thesis by simp
  qed (use eq no_minus in \<open>auto simp: dec_int_def\<close>, metis no_minus)
qed

lemma dec_int_no_colon: "CHR '':'' \<notin> set (dec_int i)"
  using dec_all_digits [of "CHR '':''"] by (auto simp: dec_int_def is_digit_def)

lemma read_dec_zeros [simp]: "read_dec (replicate k CHR ''0'' @ s) = read_dec s"
proof (induction k)
  case (Suc k)
  have "digit_val CHR ''0'' = 0" by (simp add: digit_val_def)
  then have "read_dec (CHR ''0'' # t) = read_dec t" for t by (simp add: read_dec_def)
  with Suc show ?case by simp
qed simp

lemma read_dec_pad0 [simp]: "read_dec (pad0 w (dec n)) = n"
  by (simp add: pad0_def)

lemma pad0_all_digits: "c \<in> set (pad0 w (dec n)) \<Longrightarrow> is_digit c"
  by (auto simp: pad0_def dest: dec_all_digits) (auto simp: is_digit_def)

text \<open>How many digits a number has: rendering to a width gives exactly the width.\<close>

lemma length_dec: "0 < w \<Longrightarrow> n < 10 ^ w \<Longrightarrow> length (dec n) \<le> w"
proof (induction w arbitrary: n)
  case (Suc w)
  show ?case
  proof (cases "n < 10")
    case True
    then show ?thesis by (simp add: dec.simps [of n])
  next
    case False
    have "0 < w" using False Suc.prems by (cases w) auto
    moreover have "n div 10 < 10 ^ w" using Suc.prems by (simp add: less_mult_imp_div_less)
    ultimately have "length (dec (n div 10)) \<le> w" by (rule Suc.IH)
    with False show ?thesis by (simp add: dec.simps [of n])
  qed
qed simp

lemma length_pad0 [simp]: "0 < w \<Longrightarrow> n < 10 ^ w \<Longrightarrow> length (pad0 w (dec n)) = w"
  using length_dec [of w n] by (simp add: pad0_def)

section \<open>Splitting a key at its last separator\<close>

lemma last_separator_unique:
  assumes "s @ c # t = s' @ c # t'" and "c \<notin> set t" and "c \<notin> set t'"
  shows "s = s' \<and> t = t'"
  using assms
proof (induction s arbitrary: s')
  case Nil
  then show ?case by (cases s') auto
next
  case (Cons x s)
  then show ?case by (cases s') auto
qed

section \<open>Tables as lists\<close>

text \<open>The smallest element of a table under a key (\<open>ORDER BY key LIMIT 1\<close>), first row first.\<close>

definition first_by :: "('r \<Rightarrow> 'k :: linorder) \<Rightarrow> 'r list \<Rightarrow> 'r option" where
  "first_by key rs = (case sort_key key rs of [] \<Rightarrow> None | r # _ \<Rightarrow> Some r)"

lemma first_by_None [simp]: "first_by key rs = None \<longleftrightarrow> rs = []"
  by (auto simp: first_by_def split: list.splits) (metis length_0_conv length_sort)

lemma first_by_Some:
  assumes "first_by key rs = Some r"
  shows "r \<in> set rs" and "r' \<in> set rs \<Longrightarrow> key r \<le> key r'"
proof -
  from assms obtain ts where s: "sort_key key rs = r # ts"
    by (auto simp: first_by_def split: list.splits)
  have "set (sort_key key rs) = set rs" by simp
  with s show "r \<in> set rs" by (metis list.set_intros(1))
  assume "r' \<in> set rs"
  with s have "r' = r \<or> r' \<in> set ts" by (metis set_ConsD set_sort)
  moreover have "sorted (map key (r # ts))" using s by (metis sorted_sort_key)
  ultimately show "key r \<le> key r'" by auto
qed

text \<open>\<open>UPDATE ... WHERE\<close>: the rows that match are rewritten in place.\<close>

definition update_where :: "('r \<Rightarrow> bool) \<Rightarrow> ('r \<Rightarrow> 'r) \<Rightarrow> 'r list \<Rightarrow> 'r list" where
  "update_where p f rs = map (\<lambda>r. if p r then f r else r) rs"

lemma length_update_where [simp]: "length (update_where p f rs) = length rs"
  by (simp add: update_where_def)

lemma set_update_where: "set (update_where p f rs) = (\<lambda>r. if p r then f r else r) ` set rs"
  by (simp add: update_where_def)

lemma map_update_where [simp]: "(\<And>r. p r \<Longrightarrow> key (f r) = key r) \<Longrightarrow> map key (update_where p f rs) = map key rs"
  by (simp add: update_where_def)

lemma update_where_none [simp]: "(\<And>r. r \<in> set rs \<Longrightarrow> \<not> p r) \<Longrightarrow> update_where p f rs = rs"
  by (simp add: update_where_def map_idI)

lemma find_unique_key:
  assumes "distinct (map key rs)" and "r \<in> set rs"
  shows "find (\<lambda>x. key x = key r) rs = Some r"
  using assms by (induction rs) auto

lemma find_SomeD: "find p rs = Some r \<Longrightarrow> r \<in> set rs \<and> p r"
  by (metis find_Some_iff nth_mem)

lemma unique_by_key: "distinct (map key rs) \<Longrightarrow> r \<in> set rs \<Longrightarrow> r' \<in> set rs \<Longrightarrow> key r = key r' \<Longrightarrow> r = r'"
  by (auto simp: distinct_map inj_on_def)

end
