(* ===== verification/Calendar.thy ===== *)
theory Calendar
  imports Prelude
begin

text \<open>
  The part of Go's \<open>time\<close> package that \<open>internal/domain\<close> computes with: the proleptic
  Gregorian calendar as day numbers (day 0 is 1970-01-01), \<open>time.Date\<close>'s normalisation in
  UTC, its inverse, the layout \<open>2006-01-02\<close> of \<open>time.Parse\<close>, and locations with zone
  transitions. The lemmas show that day numbers and valid dates are in bijection and that
  the bijection is monotone.
\<close>

section \<open>Day numbers\<close>

datatype date = Date (d_year: int) (d_month: int) (d_day: int)

definition is_leap :: "int \<Rightarrow> bool" where
  "is_leap y = (4 dvd y \<and> (\<not> 100 dvd y \<or> 400 dvd y))"

definition days_before_year :: "int \<Rightarrow> int" where
  "days_before_year y = 365 * (y - 1) + (y - 1) div 4 - (y - 1) div 100 + (y - 1) div 400"

definition cum_days :: "int \<Rightarrow> int" where
  "cum_days m =
    (if m \<le> 1 then 0 else if m = 2 then 31 else if m = 3 then 59 else if m = 4 then 90
     else if m = 5 then 120 else if m = 6 then 151 else if m = 7 then 181 else if m = 8 then 212
     else if m = 9 then 243 else if m = 10 then 273 else if m = 11 then 304
     else if m = 12 then 334 else 365)"

definition days_before_month :: "int \<Rightarrow> int \<Rightarrow> int" where
  "days_before_month y m = cum_days m + (if is_leap y \<and> 3 \<le> m then 1 else 0)"

definition days_in :: "int \<Rightarrow> int \<Rightarrow> int" where
  "days_in y m = days_before_month y (m + 1) - days_before_month y m"

definition valid_date :: "date \<Rightarrow> bool" where
  "valid_date d = (1 \<le> d_month d \<and> d_month d \<le> 12 \<and> 1 \<le> d_day d
     \<and> d_day d \<le> days_in (d_year d) (d_month d))"

text \<open>\<open>time.Date(y, m, d, 0, 0, 0, 0, time.UTC)\<close> as a day number: the month is carried into the
  year, then the day is added as an offset, so that any day value is accepted.\<close>

definition utc_day :: "int \<Rightarrow> int \<Rightarrow> int \<Rightarrow> int" where
  "utc_day y m d =
    (let y' = y + (m - 1) div 12; m' = (m - 1) mod 12 + 1
     in days_before_year y' + days_before_month y' m' + (d - 1) - 719162)"

text \<open>\<open>t.Year()\<close>, \<open>t.Month()\<close>, \<open>t.Day()\<close> of the instant that starts a day: cut off 400-, 100-,
  4- and 1-year cycles, then find the month.\<close>

definition year_yday :: "int \<Rightarrow> int \<times> int" where
  "year_yday n =
    (let z = n + 719162;
         n400 = z div 146097; r = z mod 146097;
         n100 = min 3 (r div 36524); r1 = r - 36524 * n100;
         n4 = r1 div 1461; r2 = r1 mod 1461;
         n1 = min 3 (r2 div 365)
     in (400 * n400 + 100 * n100 + 4 * n4 + n1 + 1, r2 - 365 * n1))"

definition month_of_yday :: "int \<Rightarrow> int \<Rightarrow> int" where
  "month_of_yday y k =
    (let f = days_before_month y in
     if k < f 2 then 1 else if k < f 3 then 2 else if k < f 4 then 3 else if k < f 5 then 4
     else if k < f 6 then 5 else if k < f 7 then 6 else if k < f 8 then 7 else if k < f 9 then 8
     else if k < f 10 then 9 else if k < f 11 then 10 else if k < f 12 then 11 else 12)"

definition date_of_day :: "int \<Rightarrow> date" where
  "date_of_day n =
    (let (y, k) = year_yday n; m = month_of_yday y k
     in Date y m (k - days_before_month y m + 1))"

definition day_of :: "date \<Rightarrow> int" where
  "day_of d = utc_day (d_year d) (d_month d) (d_day d)"

section \<open>Years\<close>

lemma div_add_rem: "0 \<le> r \<Longrightarrow> r < k \<Longrightarrow> (k * q + r) div k = q" for k q r :: int
  by simp

lemma div_step: "0 < k \<Longrightarrow> x div k - (x - 1) div k = (if k dvd x then 1 else 0)" for k x :: int
proof -
  assume k: "0 < k"
  define q r where "q = (x - 1) div k" and "r = (x - 1) mod k"
  have x: "x = k * q + r + 1" by (simp add: q_def r_def)
  have r: "0 \<le> r" "r < k" using k by (simp_all add: r_def)
  have q: "(x - 1) div k = q" by (simp add: q_def)
  show ?thesis
  proof (cases "r = k - 1")
    case True
    then have "x = k * (q + 1)" using x by (simp add: algebra_simps)
    then have "x div k = q + 1" and "k dvd x" using k by simp_all
    with q show ?thesis by simp
  next
    case False
    then have "x div k = q" using x r div_add_rem [of "r + 1" k q] by (simp add: algebra_simps)
    moreover have "\<not> k dvd x"
    proof
      assume "k dvd x"
      then have "k dvd r + 1" using x by (metis add.assoc dvd_add_right_iff dvd_triv_left)
      then show False using r False zdvd_imp_le [of k "r + 1"] by simp
    qed
    ultimately show ?thesis using q by simp
  qed
qed

lemma year_length: "days_before_year (y + 1) - days_before_year y = 365 + (if is_leap y then 1 else 0)"
proof -
  have "days_before_year (y + 1) - days_before_year y
      = 365 + (y div 4 - (y - 1) div 4) - (y div 100 - (y - 1) div 100) + (y div 400 - (y - 1) div 400)"
    by (simp add: days_before_year_def)
  also have "\<dots> = 365 + (if 4 dvd y then 1 else 0) - (if 100 dvd y then 1 else 0) + (if 400 dvd y then 1 else 0)"
    by (simp only: div_step [OF zero_less_numeral])
  finally have step: "days_before_year (y + 1) - days_before_year y = \<dots>" .
  have "400 dvd y \<Longrightarrow> 100 dvd y" using dvd_trans [of 100 400 y] by simp
  moreover have "100 dvd y \<Longrightarrow> 4 dvd y" using dvd_trans [of 4 100 y] by simp
  ultimately show ?thesis unfolding step is_leap_def
    by (cases "4 dvd y"; cases "100 dvd y"; cases "400 dvd y"; simp only: if_True if_False simp_thms)
qed

lemma days_before_year_step: "days_before_year y + 365 \<le> days_before_year (y + 1)"
  using year_length [of y] by (simp split: if_splits)

lemma days_before_year_mono: "y \<le> y' \<Longrightarrow> days_before_year y \<le> days_before_year y'"
proof (induction y' rule: int_ge_induct)
  case (step i)
  then show ?case using days_before_year_step [of i] by linarith
qed simp

lemma year_yday_cycle:
  assumes b: "0 \<le> b" "b \<le> 3" and c: "0 \<le> c" "c \<le> 24" and e: "0 \<le> e" "e \<le> 3"
  shows "days_before_year (400 * a + 100 * b + 4 * c + e + 1)
       = 146097 * a + 36524 * b + 1461 * c + 365 * e"
proof -
  let ?y = "400 * a + 100 * b + 4 * c + e"
  have "?y div 4 = 100 * a + 25 * b + c"
    using e div_add_rem [of e 4 "100 * a + 25 * b + c"] by (simp add: algebra_simps)
  moreover have "?y div 100 = 4 * a + b"
    using c e div_add_rem [of "4 * c + e" 100 "4 * a + b"] by (simp add: algebra_simps)
  moreover have "?y div 400 = a"
    using b c e div_add_rem [of "100 * b + 4 * c + e" 400 a] by (simp add: algebra_simps)
  ultimately show ?thesis by (simp add: days_before_year_def)
qed

lemma leap_cycle:
  assumes b: "0 \<le> b" "b \<le> 3" and c: "0 \<le> c" "c \<le> 24" and e: "0 \<le> e" "e \<le> 3"
  shows "is_leap (400 * a + 100 * b + 4 * c + e + 1) = (e = 3 \<and> (c \<noteq> 24 \<or> b = 3))"
proof -
  have cut: "k dvd k * q + x \<longleftrightarrow> x = k" if "1 \<le> x" "x \<le> k" for k q x :: int
    using that by (metis dvd_add_right_iff dvd_refl dvd_triv_left order_antisym zdvd_imp_le
        zle_diff1_eq diff_0_eq_0 zero_less_one order_less_le_trans)
  let ?y = "400 * a + 100 * b + 4 * c + e + 1"
  have "4 dvd ?y \<longleftrightarrow> e = 3"
    using cut [of "e + 1" 4 "100 * a + 25 * b + c"] e by (auto simp: algebra_simps)
  moreover have "4 * c + e + 1 = 100 \<longleftrightarrow> e = 3 \<and> c = 24"
    and "100 * b + 4 * c + e + 1 = 400 \<longleftrightarrow> e = 3 \<and> c = 24 \<and> b = 3"
    using b c e by presburger+
  moreover have "100 dvd ?y \<longleftrightarrow> 4 * c + e + 1 = 100"
    using cut [of "4 * c + e + 1" 100 "4 * a + b"] c e by (simp add: algebra_simps)
  moreover have "400 dvd ?y \<longleftrightarrow> 100 * b + 4 * c + e + 1 = 400"
    using cut [of "100 * b + 4 * c + e + 1" 400 a] b c e by (simp add: algebra_simps)
  ultimately show ?thesis unfolding is_leap_def by blast
qed

lemma cap_div:
  fixes r k :: int
  assumes k: "0 < k" and r: "0 \<le> r" "r \<le> 4 * k" and b: "b = min 3 (r div k)"
  shows "0 \<le> b \<and> b \<le> 3 \<and> 0 \<le> r - k * b \<and> r - k * b \<le> k \<and> (b < 3 \<longrightarrow> r - k * b < k)"
proof -
  define d m where "d = r div k" and "m = r mod k"
  have rd: "r = k * d + m" and m: "0 \<le> m" "m < k" using k by (simp_all add: d_def m_def)
  have d0: "0 \<le> d" using k r by (simp add: d_def pos_imp_zdiv_nonneg_iff)
  show ?thesis
  proof (cases "d \<le> 3")
    case True
    then show ?thesis using b rd m d0 by (simp add: d_def [symmetric])
  next
    case False
    then have "k * 4 \<le> k * d" using k by (intro mult_left_mono) simp_all
    then have "r = 4 * k" using rd m r by linarith
    then show ?thesis using b False k by (simp add: d_def [symmetric])
  qed
qed

lemma year_yday_correct:
  assumes "year_yday n = (y, k)"
  shows "days_before_year y + k = n + 719162" and "0 \<le> k" and "k < 365 + (if is_leap y then 1 else 0)"
proof -
  define z where "z = n + 719162"
  define a r where "a = z div 146097" and "r = z mod 146097"
  define b where "b = min 3 (r div 36524)"
  define r1 where "r1 = r - 36524 * b"
  define c r2 where "c = r1 div 1461" and "r2 = r1 mod 1461"
  define e where "e = min 3 (r2 div 365)"
  have y: "y = 400 * a + 100 * b + 4 * c + e + 1" and k: "k = r2 - 365 * e"
    using assms unfolding year_yday_def Let_def a_def r_def b_def r1_def c_def r2_def e_def z_def
    by (auto simp only: prod.inject)
  have r: "0 \<le> r" "r < 146097" by (simp_all add: r_def)
  have bs: "0 \<le> b \<and> b \<le> 3 \<and> 0 \<le> r1 \<and> r1 \<le> 36524 \<and> (b < 3 \<longrightarrow> r1 < 36524)"
    using cap_div [of 36524 r b] r by (simp add: b_def r1_def)
  then have b: "0 \<le> b" "b \<le> 3" by simp_all
  have r2: "0 \<le> r2" "r2 < 1461" unfolding r2_def by simp_all
  have "1461 * c + r2 = r1" by (simp add: c_def r2_def)
  then have c: "0 \<le> c" "c \<le> 24" using bs r2 by linarith+
  have es: "0 \<le> e \<and> e \<le> 3 \<and> 0 \<le> k \<and> k \<le> 365 \<and> (e < 3 \<longrightarrow> k < 365)"
    using cap_div [of 365 r2 e] r2 by (simp add: e_def k)
  then have e: "0 \<le> e" "e \<le> 3" by simp_all
  have z: "z = 146097 * a + r" and "r1 = 1461 * c + r2"
    by (simp_all add: a_def r_def c_def r2_def)
  then have "z = 146097 * a + 36524 * b + 1461 * c + 365 * e + k"
    by (simp add: r1_def k)
  with y show "days_before_year y + k = n + 719162"
    using year_yday_cycle [OF b c e, of a] by (simp add: z_def)
  show "0 \<le> k" using es by simp
  have "k < 365 \<or> k = 365 \<and> e = 3" using es by auto
  moreover have "\<not> (k = 365 \<and> e = 3 \<and> c = 24 \<and> b < 3)"
    using bs \<open>1461 * c + r2 = r1\<close> k by auto
  ultimately show "k < 365 + (if is_leap y then 1 else 0)"
    unfolding y using leap_cycle [OF b c e, of a] b by auto
qed

lemma year_unique:
  assumes "days_before_year y + k = days_before_year y' + k'"
    and "0 \<le> k" "k < 365 + (if is_leap y then 1 else 0)"
    and "0 \<le> k'" "k' < 365 + (if is_leap y' then 1 else 0)"
  shows "y = y' \<and> k = k'"
proof -
  have "\<not> y < y'"
    using assms days_before_year_mono [of "y + 1" y'] year_length [of y] by (auto split: if_splits)
  moreover have "\<not> y' < y"
    using assms days_before_year_mono [of "y' + 1" y] year_length [of y'] by (auto split: if_splits)
  ultimately show ?thesis using assms(1) by simp
qed

section \<open>Months\<close>

lemma month_range: "1 \<le> (m :: int) \<Longrightarrow> m \<le> 12 \<Longrightarrow> m \<in> {1, 2, 3, 4, 5, 6, 7, 8, 9, 10, 11, 12}"
  unfolding insert_iff empty_iff by presburger

lemma month_of_yday_in_month:
  assumes "1 \<le> m" "m \<le> 12" "days_before_month y m \<le> k" "k < days_before_month y (m + 1)"
  shows "month_of_yday y k = m"
  using month_range [OF assms(1,2)] assms(3,4)
  by (elim insertE emptyE) (simp_all add: month_of_yday_def days_before_month_def cum_days_def split: if_splits)

lemma month_of_yday_correct:
  assumes "0 \<le> k" "k < 365 + (if is_leap y then 1 else 0)"
  shows "1 \<le> month_of_yday y k \<and> month_of_yday y k \<le> 12
    \<and> days_before_month y (month_of_yday y k) \<le> k \<and> k < days_before_month y (month_of_yday y k + 1)"
proof -
  consider "is_leap y" | "\<not> is_leap y" by blast
  then show ?thesis
    using assms by cases (simp_all add: month_of_yday_def days_before_month_def cum_days_def Let_def)
qed

lemma days_before_month_bounds:
  assumes "1 \<le> m" "m \<le> 12"
  shows "0 \<le> days_before_month y m" and "days_before_month y (m + 1) \<le> 365 + (if is_leap y then 1 else 0)"
  using month_range [OF assms] by (elim insertE emptyE, simp_all add: days_before_month_def cum_days_def)+

lemma days_before_month_mono:
  assumes "1 \<le> m" "m < m'" "m' \<le> 12"
  shows "days_before_month y (m + 1) \<le> days_before_month y m'"
proof -
  have "cum_days (m + 1) \<le> cum_days m'"
    using month_range [of m] month_range [of m'] assms(2,1,3)
    by (auto simp: cum_days_def)
  with assms show ?thesis by (simp add: days_before_month_def)
qed

lemma day_of_valid:
  assumes "valid_date d"
  shows "day_of d = days_before_year (d_year d) + days_before_month (d_year d) (d_month d) + d_day d - 719163"
proof -
  have "(d_month d - 1) div 12 = 0" "(d_month d - 1) mod 12 = d_month d - 1"
    using assms by (auto simp: valid_date_def)
  then show ?thesis by (simp add: day_of_def utc_day_def Let_def)
qed

lemma yday_valid:
  assumes "valid_date d"
  defines "k \<equiv> days_before_month (d_year d) (d_month d) + d_day d - 1"
  shows "0 \<le> k" and "k < 365 + (if is_leap (d_year d) then 1 else 0)"
    and "month_of_yday (d_year d) k = d_month d"
  using assms days_before_month_bounds [of "d_month d" "d_year d"]
  by (auto simp: valid_date_def days_in_def intro!: month_of_yday_in_month)

section \<open>Dates and day numbers are the same thing\<close>

lemma valid_date_of_day [simp, intro]: "valid_date (date_of_day n)"
proof -
  obtain y k where yk: "year_yday n = (y, k)" by fastforce
  note year_yday_correct [OF yk]
  with month_of_yday_correct [of k y] show ?thesis
    by (simp add: date_of_day_def yk Let_def valid_date_def days_in_def)
qed

lemma day_of_date_of_day [simp]: "day_of (date_of_day n) = n"
proof -
  obtain y k where yk: "year_yday n = (y, k)" by fastforce
  have "d_year (date_of_day n) = y" "d_month (date_of_day n) = month_of_yday y k"
    "d_day (date_of_day n) = k - days_before_month y (month_of_yday y k) + 1"
    by (simp_all add: date_of_day_def yk Let_def)
  with year_yday_correct(1) [OF yk] show ?thesis
    by (subst day_of_valid) simp_all
qed

lemma date_of_day_day_of [simp]:
  assumes "valid_date d"
  shows "date_of_day (day_of d) = d"
proof -
  define k where "k = days_before_month (d_year d) (d_month d) + d_day d - 1"
  obtain y' k' where yk: "year_yday (day_of d) = (y', k')" by fastforce
  have "days_before_year y' + k' = days_before_year (d_year d) + k"
    using year_yday_correct(1) [OF yk] day_of_valid [OF assms] by (simp add: k_def)
  then have "y' = d_year d \<and> k' = k"
    using year_yday_correct(2,3) [OF yk] yday_valid(1,2) [OF assms]
    by (intro year_unique) (simp_all add: k_def)
  then show ?thesis
    using yday_valid(3) [OF assms] yk by (cases d) (simp add: date_of_day_def Let_def k_def)
qed

lemma day_of_inj: "valid_date d \<Longrightarrow> valid_date e \<Longrightarrow> day_of d = day_of e \<Longrightarrow> d = e"
  by (metis date_of_day_day_of)

lemma date_of_day_inj: "date_of_day m = date_of_day n \<Longrightarrow> m = n"
  by (metis day_of_date_of_day)

lemma date_of_day_eq_iff [simp]: "date_of_day m = date_of_day n \<longleftrightarrow> m = n"
  by (metis day_of_date_of_day)

section \<open>Reading the layout 2006-01-02\<close>

text \<open>\<open>time.Parse("2006-01-02", s)\<close>: a four-digit year, a two-digit month and a two-digit day,
  separated by dashes, nothing after them, and in the calendar.\<close>

definition all_digits :: "string \<Rightarrow> bool" where
  "all_digits s = list_all is_digit s"

definition time_parse :: "string \<Rightarrow> date option" where
  "time_parse s =
    (if length s = 10 \<and> s ! 4 = CHR ''-'' \<and> s ! 7 = CHR ''-''
        \<and> all_digits (take 4 s) \<and> all_digits (take 2 (drop 5 s)) \<and> all_digits (drop 8 s)
     then (let d = Date (int (read_dec (take 4 s))) (int (read_dec (take 2 (drop 5 s))))
                     (int (read_dec (drop 8 s)))
           in if valid_date d then Some d else None)
     else None)"

lemma time_parse_valid: "time_parse s = Some d \<Longrightarrow> valid_date d"
  by (auto simp: time_parse_def Let_def split: if_splits)

lemma all_digits_pad0 [simp]: "all_digits (pad0 w (dec n))"
  by (simp add: all_digits_def list_all_iff pad0_all_digits)

section \<open>Locations\<close>

text \<open>
  A location answers, for an instant in Unix seconds, the zone in force: its offset east of
  UTC and the instants at which it begins and ends. The contents of the zone database are
  data outside the repository, so a location is an argument of the model.
\<close>

record zone =
  z_offset :: int
  z_start :: int
  z_end :: int

type_synonym location = "int \<Rightarrow> zone"

definition utc :: location where
  "utc t = \<lparr>z_offset = 0, z_start = t, z_end = t + 1\<rparr>"

text \<open>The calendar day of \<open>t.In(loc)\<close>.\<close>

definition local_day :: "location \<Rightarrow> int \<Rightarrow> int" where
  "local_day loc t = (t + z_offset (loc t)) div 86400"

text \<open>\<open>time.Date(y, m, d, 0, 0, 0, 0, loc)\<close>: guess the offset at the instant read as if it were
  UTC; if the shifted instant is outside that zone, take the offset in force there instead.\<close>

definition midnight_in :: "location \<Rightarrow> int \<Rightarrow> int" where
  "midnight_in loc n =
    (let unix = 86400 * n; z = loc unix
     in if z_offset z = 0 then unix
        else (let u = unix - z_offset z
              in if u < z_start z \<or> z_end z \<le> u then unix - z_offset (loc u) else u))"

end
