(* ===== verification/Float64.thy ===== *)
theory Float64
  imports Prelude "HOL-Library.Log_Nat"
begin

text \<open>
  The binary64 arithmetic behind \<open>domain.NormalizeDiscountPct\<close>: a finite float is the rational
  it denotes, and every operation of Go on floats is the exact operation followed by \<open>fl\<close>,
  rounding to 53 significant bits, ties to even. The values in play lie between 0 and \<open>10 ^ 4\<close>,
  so overflow does not occur; a subnormal input rounds to the same result, 0, as it does here.
  The lemmas bound the relative rounding error by \<open>2 powi -53\<close> and show that a percentage
  with two decimals survives the normalisation unchanged.
\<close>

datatype float64 = NaN | PosInf | NegInf | Fin rat

definition pow2 :: "int \<Rightarrow> rat" where
  "pow2 e = (if 0 \<le> e then 2 ^ nat e else 1 / 2 ^ nat (- e))"

text \<open>The binary exponent of a positive rational.\<close>

definition ilog2 :: "rat \<Rightarrow> int" where
  "ilog2 x =
    (let (p, q) = quotient_of x;
         e = int (floorlog 2 (nat p)) - int (floorlog 2 (nat q))
     in if pow2 e \<le> x then e else e - 1)"

definition round_even :: "rat \<Rightarrow> int" where
  "round_even x =
    (let n = \<lfloor>x\<rfloor>; f = x - of_int n
     in if f < 1 / 2 then n else if 1 / 2 < f then n + 1 else if even n then n else n + 1)"

definition fl_pos :: "rat \<Rightarrow> rat" where
  "fl_pos x = (let u = pow2 (ilog2 x - 52) in of_int (round_even (x / u)) * u)"

definition fl :: "rat \<Rightarrow> rat" where
  "fl x = (if x = 0 then 0 else if 0 < x then fl_pos x else - fl_pos (- x))"

text \<open>\<open>math.Round\<close>: to the nearest integer, halves away from zero.\<close>

definition round_away :: "rat \<Rightarrow> int" where
  "round_away x = (if 0 \<le> x then \<lfloor>x + 1 / 2\<rfloor> else - \<lfloor>- x + 1 / 2\<rfloor>)"

section \<open>Rounding error\<close>

lemma pow2_pos [simp]: "0 < pow2 e"
  by (simp add: pow2_def)

lemma pow2_add: "pow2 (a + b) = pow2 a * pow2 b"
proof -
  have p: "pow2 e = 2 powi e" for e :: int
    by (simp add: pow2_def power_int_def inverse_eq_divide power_one_over)
  show ?thesis by (simp add: p power_int_add)
qed

lemma pow2_nat: "pow2 (int n) = 2 ^ n"
  by (simp add: pow2_def)

lemma ilog2_le:
  assumes x: "0 < x"
  shows "pow2 (ilog2 x) \<le> x"
proof -
  obtain p q where pq: "quotient_of x = (p, q)" by fastforce
  have q: "0 < q" by (rule quotient_of_denom_pos [OF pq])
  have xe: "x = of_int p / of_int q" by (rule quotient_of_div [OF pq])
  have p: "0 < p" using x q xe by (simp add: zero_less_divide_iff)
  define a b where "a = floorlog 2 (nat p)" and "b = floorlog 2 (nat q)"
  have "2 ^ (a - 1) \<le> nat p \<and> nat p < 2 ^ a" using p floorlog_bounds [of "nat p" 2] by (simp add: a_def)
  then have a: "0 < a" "2 ^ (a - 1) \<le> nat p" using p by (cases a, simp_all)+
  have b: "nat q < 2 ^ b" using q floorlog_bounds [of "nat q" 2] by (simp add: b_def)
  have "(2 :: int) ^ (a - 1) \<le> p" using a p by (metis nat_le_iff nat_numeral nat_power_eq of_nat_le_iff int_nat_eq of_nat_numeral of_nat_power less_imp_le)
  then have pa: "(2 :: rat) ^ (a - 1) \<le> of_int p" by (metis of_int_le_iff of_int_numeral of_int_power)
  have "q < (2 :: int) ^ b" using b q by (metis nat_less_iff of_nat_numeral of_nat_power less_imp_le)
  then have qb: "of_int q \<le> (2 :: rat) ^ b" by (metis less_imp_le of_int_le_iff of_int_numeral of_int_power)
  have "pow2 (int (a - 1) + - int b) = 2 ^ (a - 1) / 2 ^ b"
    unfolding pow2_add by (simp add: pow2_def)
  then have "pow2 (int a - int b - 1) = 2 ^ (a - 1) / 2 ^ b" using a by (simp add: of_nat_diff algebra_simps)
  also have "\<dots> \<le> x"
    unfolding xe using pa qb q p by (intro frac_le) simp_all
  finally show ?thesis
    using pq by (simp add: ilog2_def Let_def a_def b_def)
qed

lemma round_even_error: "\<bar>of_int (round_even x) - x\<bar> \<le> 1 / 2"
proof -
  define f where "f = x - of_int \<lfloor>x\<rfloor>"
  have "0 \<le> f" and "f < 1" by (simp_all add: f_def, linarith)
  moreover have "x = of_int \<lfloor>x\<rfloor> + f" by (simp add: f_def)
  ultimately show ?thesis
    unfolding round_even_def Let_def f_def [symmetric] by (auto simp: abs_if)
qed

lemma round_even_nonneg: "0 \<le> x \<Longrightarrow> 0 \<le> round_even x"
  by (auto simp: round_even_def Let_def)

lemma fl_pos_error:
  assumes "0 < x"
  shows "\<bar>fl_pos x - x\<bar> \<le> x / 2 ^ 53"
proof -
  define u where "u = pow2 (ilog2 x - 52)"
  have u: "0 < u" by (simp add: u_def)
  have "u = pow2 (ilog2 x) * pow2 (- 52)" using pow2_add [of "ilog2 x" "- 52"] by (simp add: u_def)
  moreover have "pow2 (- 52) = 1 / 2 ^ 52" by (simp add: pow2_def)
  ultimately have le: "u \<le> x / 2 ^ 52" using ilog2_le [OF assms] by (simp add: divide_right_mono)
  have "\<bar>of_int (round_even (x / u)) * u - x\<bar> = \<bar>of_int (round_even (x / u)) - x / u\<bar> * u"
  proof -
    have "of_int (round_even (x / u)) * u - x = (of_int (round_even (x / u)) - x / u) * u"
      using u by (simp add: field_simps)
    then show ?thesis using u by (simp add: abs_mult)
  qed
  also have "\<dots> \<le> 1 / 2 * u" using u round_even_error [of "x / u"] by (intro mult_right_mono) simp_all
  also have "\<dots> \<le> x / 2 ^ 53" using le by simp
  finally show ?thesis by (simp add: fl_pos_def Let_def u_def)
qed

lemma fl_error: "\<bar>fl x - x\<bar> \<le> \<bar>x\<bar> / 2 ^ 53"
  using fl_pos_error [of x] fl_pos_error [of "- x"] by (auto simp: fl_def abs_if split: if_splits)

lemma fl_0 [simp]: "fl 0 = 0"
  by (simp add: fl_def)

lemma fl_nonneg: "0 \<le> x \<Longrightarrow> 0 \<le> fl x"
  by (auto simp: fl_def fl_pos_def Let_def less_imp_le [OF pow2_pos] intro!: mult_nonneg_nonneg round_even_nonneg)

lemma round_away_near: "\<bar>x - of_int k\<bar> < 1 / 2 \<Longrightarrow> round_away x = k"
proof -
  assume near: "\<bar>x - of_int k\<bar> < 1 / 2"
  show ?thesis
  proof (cases "0 \<le> x")
    case True
    have "\<lfloor>x + 1 / 2\<rfloor> = k" using near by (intro floor_unique) (auto simp: abs_if split: if_splits)
    with True show ?thesis by (simp add: round_away_def)
  next
    case False
    have "\<lfloor>- x + 1 / 2\<rfloor> = - k" using near by (intro floor_unique) (auto simp: abs_if split: if_splits)
    with False show ?thesis by (simp add: round_away_def)
  qed
qed

end
