(* ===== verification/Types.thy ===== *)
theory Types
  imports Calendar Float64
begin

text \<open>
  The entities of \<open>internal/domain\<close> (\<open>schedule.go\<close>, \<open>notification.go\<close>), the action names of
  \<open>transitions.go\<close>, JSON values for event payloads, and the errors of the service as values:
  the sentinels of \<open>internal/store\<close>, \<open>domain.TransitionError\<close>, driver errors with their SQLSTATE,
  and \<open>fmt.Errorf\<close> wrapping, over which \<open>errors.Is\<close> and \<open>errors.As\<close> search.
\<close>

section \<open>Enumerations\<close>

datatype schedule_status = ScheduleActive | SchedulePaused | ScheduleCanceled | ScheduleFailed

datatype occurrence_status =
  OccurrencePlanned | OccurrencePending | OccurrencePlaced
| OccurrenceSkipped | OccurrenceFailed | OccurrenceCanceled

datatype event_actor = ActorCustomer | ActorAdmin | ActorSystem

datatype action =
  ActionPause | ActionResume | ActionSkipNext | ActionDefer | ActionChangeCadence
| ActionCancel | ActionArm | ActionOther string

datatype event_type =
  EventScheduleCreated | EventOccurrencePlanned | EventOccurrenceMaterialed
| EventSchedulePaused | EventScheduleResumed | EventScheduleCadenceChanged
| EventScheduleCanceled | EventOccurrenceSkipped | EventOccurrenceDeferred
| EventOccurrenceArmed

fun schedule_status_text :: "schedule_status \<Rightarrow> string" where
  "schedule_status_text ScheduleActive = ''active''"
| "schedule_status_text SchedulePaused = ''paused''"
| "schedule_status_text ScheduleCanceled = ''canceled''"
| "schedule_status_text ScheduleFailed = ''failed''"

fun occurrence_status_text :: "occurrence_status \<Rightarrow> string" where
  "occurrence_status_text OccurrencePlanned = ''planned''"
| "occurrence_status_text OccurrencePending = ''pending''"
| "occurrence_status_text OccurrencePlaced = ''placed''"
| "occurrence_status_text OccurrenceSkipped = ''skipped''"
| "occurrence_status_text OccurrenceFailed = ''failed''"
| "occurrence_status_text OccurrenceCanceled = ''canceled''"

fun actor_text :: "event_actor \<Rightarrow> string" where
  "actor_text ActorCustomer = ''customer''"
| "actor_text ActorAdmin = ''admin''"
| "actor_text ActorSystem = ''system''"

fun action_text :: "action \<Rightarrow> string" where
  "action_text ActionPause = ''pause''"
| "action_text ActionResume = ''resume''"
| "action_text ActionSkipNext = ''skip_next''"
| "action_text ActionDefer = ''defer''"
| "action_text ActionChangeCadence = ''change_cadence''"
| "action_text ActionCancel = ''cancel''"
| "action_text ActionArm = ''arm''"
| "action_text (ActionOther a) = a"

fun event_type_text :: "event_type \<Rightarrow> string" where
  "event_type_text EventScheduleCreated = ''schedule.created''"
| "event_type_text EventOccurrencePlanned = ''occurrence.planned''"
| "event_type_text EventOccurrenceMaterialed = ''occurrence.materialized''"
| "event_type_text EventSchedulePaused = ''schedule.paused''"
| "event_type_text EventScheduleResumed = ''schedule.resumed''"
| "event_type_text EventScheduleCadenceChanged = ''schedule.cadence_changed''"
| "event_type_text EventScheduleCanceled = ''schedule.canceled''"
| "event_type_text EventOccurrenceSkipped = ''occurrence.skipped''"
| "event_type_text EventOccurrenceDeferred = ''occurrence.deferred''"
| "event_type_text EventOccurrenceArmed = ''occurrence.armed''"

section \<open>Payloads\<close>

text \<open>A JSON value; an object keeps its members as pairs. A number written without fraction and
  exponent is \<open>JNum\<close>, any other is \<open>JFloat\<close> of the float it denotes.\<close>

datatype json = JNull | JBool bool | JNum int | JFloat float64 | JStr string | JArr "json list" | JObj "(string \<times> json) list"

section \<open>Entities\<close>

record schedule =
  s_id :: string
  s_customer_id :: string
  s_status :: schedule_status
  s_customer_email :: string
  s_origin_order_id :: string
  s_interval_days :: int
  s_anchor_date :: date
  s_next_run_date :: "date option"
  s_timezone :: string
  s_payment_token_ref :: string
  s_shipping_address_id :: string
  s_discount_pct :: float64
  s_paused_until :: "date option"
  s_created_at :: int
  s_updated_at :: int

definition IsActive :: "schedule \<Rightarrow> bool" where
  "IsActive s = (s_status s = ScheduleActive)"

record schedule_item =
  i_id :: string
  i_schedule_id :: string
  i_sku :: string
  i_quantity :: int
  i_created_at :: int

record occurrence =
  o_id :: string
  o_schedule_id :: string
  o_sequence_no :: int
  o_scheduled_for :: date
  o_status :: occurrence_status
  o_order_id :: "string option"
  o_idempotency_key :: string
  o_created_at :: int
  o_updated_at :: int

definition IsExecuted :: "occurrence \<Rightarrow> bool" where
  "IsExecuted oc = (case o_status oc of
      OccurrencePlaced \<Rightarrow> True | OccurrenceSkipped \<Rightarrow> True
    | OccurrenceFailed \<Rightarrow> True | OccurrenceCanceled \<Rightarrow> True | _ \<Rightarrow> False)"

text \<open>An event as the service writes and reads it; \<open>e_payload = None\<close> is the empty byte slice.\<close>

record schedule_event =
  e_id :: int
  e_schedule_id :: string
  e_event_type :: event_type
  e_actor :: event_actor
  e_reason_code :: "string option"
  e_payload :: "json option"
  e_idempotency_key :: "string option"
  e_created_at :: int

record notifiable_event =
  n_schedule_event_id :: int
  n_schedule_id :: string
  n_event_type :: event_type
  n_reason_code :: "string option"
  n_payload :: json
  n_created_at :: int

section \<open>Errors\<close>

datatype go_error =
  ErrNotFound
| ErrDuplicateOccurrence
| ErrDuplicateSchedule
| ErrNoTransaction
| ErrUnauthenticated
| ErrNoTemplate
| TransitionError action schedule_status string
| ErrText string
| ErrFloat string float64
| PgError string string
| DriverError
| Wrapped string go_error string

text \<open>\<open>err.Error()\<close>; the rendering of a float by \<open>%v\<close> is left out of the text.\<close>

fun err_text :: "go_error \<Rightarrow> string" where
  "err_text ErrNotFound = ''not found''"
| "err_text ErrDuplicateOccurrence = ''occurrence already exists for this idempotency key''"
| "err_text ErrDuplicateSchedule = ''schedule already exists for this origin order''"
| "err_text ErrNoTransaction = ''this call requires a transaction''"
| "err_text ErrUnauthenticated = ''unauthenticated''"
| "err_text ErrNoTemplate = ''no template registered for event type''"
| "err_text (TransitionError a st m) =
    ''cannot '' @ action_text a @ '' a '' @ schedule_status_text st @ '' schedule: '' @ m"
| "err_text (ErrText m) = m"
| "err_text (ErrFloat m x) = m"
| "err_text (PgError code m) = ''ERROR: '' @ m @ '' (SQLSTATE '' @ code @ '')''"
| "err_text DriverError = ''driver: bad connection''"
| "err_text (Wrapped pre e post) = pre @ err_text e @ post"

text \<open>\<open>errors.Is\<close> against a sentinel, and \<open>errors.As\<close> for \<open>*TransitionError\<close>.\<close>

fun err_is :: "go_error \<Rightarrow> go_error \<Rightarrow> bool" where
  "err_is (Wrapped pre e post) t = (Wrapped pre e post = t \<or> err_is e t)"
| "err_is e t = (e = t)"

fun as_transition_error :: "go_error \<Rightarrow> (action \<times> schedule_status \<times> string) option" where
  "as_transition_error (TransitionError a st m) = Some (a, st, m)"
| "as_transition_error (Wrapped pre e post) = as_transition_error e"
| "as_transition_error e = None"

definition IsTransitionError :: "go_error \<Rightarrow> bool" where
  "IsTransitionError e = (as_transition_error e \<noteq> None)"

lemma IsTransitionError_simps [simp]:
  "IsTransitionError (TransitionError a st m)"
  "IsTransitionError (Wrapped pre e post) = IsTransitionError e"
  "\<not> IsTransitionError ErrNotFound" "\<not> IsTransitionError ErrDuplicateOccurrence"
  "\<not> IsTransitionError ErrDuplicateSchedule" "\<not> IsTransitionError ErrNoTransaction"
  "\<not> IsTransitionError (ErrText t)" "\<not> IsTransitionError (ErrFloat t x)"
  "\<not> IsTransitionError (PgError c t)" "\<not> IsTransitionError DriverError"
  "\<not> IsTransitionError ErrUnauthenticated" "\<not> IsTransitionError ErrNoTemplate"
  by (simp_all add: IsTransitionError_def)

lemma IsExecuted_iff: "\<not> IsExecuted oc \<longleftrightarrow> o_status oc \<in> {OccurrencePlanned, OccurrencePending}"
  by (auto simp: IsExecuted_def split: occurrence_status.splits)

end
