(* ===== verification/Cadence.thy ===== *)
theory Cadence
  imports Types
begin

text \<open>
  \<open>internal/domain/cadence.go\<close>: dates and the cadence arithmetic. \<open>AddDays\<close> and \<open>DaysUntil\<close>
  are Go's: the latter goes through \<open>time.Duration\<close>, whose 63-bit nanosecond count saturates
  at 106751 whole days. The lemmas give the anchor-relative law (occurrence n lies exactly
  n intervals after the anchor), the exact behaviour of \<open>NextOccurrenceAfter\<close> below the
  saturation point, and what goes wrong above it.
\<close>

definition MinIntervalDays :: int where "MinIntervalDays = 7"
definition MaxIntervalDays :: int where "MaxIntervalDays = 180"

section \<open>Dates\<close>

definition NewDate :: "int \<Rightarrow> int \<Rightarrow> int \<Rightarrow> date" where
  "NewDate y m d = date_of_day (utc_day y m d)"

text \<open>\<open>DateOf(t)\<close> for the instant t (Unix seconds) seen in a location.\<close>

definition DateOf :: "location \<Rightarrow> int \<Rightarrow> date" where
  "DateOf loc t = date_of_day (local_day loc t)"

definition AddDays :: "date \<Rightarrow> int \<Rightarrow> date" where
  "AddDays d n = date_of_day (day_of d + n)"

definition Before :: "date \<Rightarrow> date \<Rightarrow> bool" where
  "Before d other =
    (if d_year d \<noteq> d_year other then d_year d < d_year other
     else if d_month d \<noteq> d_month other then d_month d < d_month other
     else d_day d < d_day other)"

definition After :: "date \<Rightarrow> date \<Rightarrow> bool" where
  "After d other = Before other d"

definition Equal :: "date \<Rightarrow> date \<Rightarrow> bool" where
  "Equal d other = (d = other)"

text \<open>The largest number of whole days in a \<open>time.Duration\<close>: \<open>2 ^ 63 - 1\<close> nanoseconds.\<close>

definition max_duration_days :: int where
  "max_duration_days = (2 ^ 63 - 1) div (86400 * 10 ^ 9)"

definition DaysUntil :: "date \<Rightarrow> date \<Rightarrow> int" where
  "DaysUntil d other =
    max (- max_duration_days) (min max_duration_days (day_of other - day_of d))"

definition String :: "date \<Rightarrow> string" where
  "String d = fmt_0d 4 (d_year d) @ ''-'' @ fmt_0d 2 (d_month d) @ ''-'' @ fmt_0d 2 (d_day d)"

definition StartOfDayIn :: "date \<Rightarrow> location \<Rightarrow> int" where
  "StartOfDayIn d loc = midnight_in loc (day_of d)"

text \<open>\<open>ToTime\<close>, the value of a \<open>date\<close> column: the day number.\<close>

definition ToTime :: "date \<Rightarrow> int" where
  "ToTime d = day_of d"

section \<open>Intervals, percentages, occurrences\<close>

definition ValidateInterval :: "int \<Rightarrow> go_error option" where
  "ValidateInterval intervalDays =
    (if intervalDays < MinIntervalDays \<or> MaxIntervalDays < intervalDays
     then Some (ErrText (''interval_days must be between '' @ dec_int MinIntervalDays @ '' and ''
       @ dec_int MaxIntervalDays @ '', got '' @ dec_int intervalDays))
     else None)"

definition NormalizeDiscountPct :: "float64 \<Rightarrow> go_error + float64" where
  "NormalizeDiscountPct discountPct =
    (case discountPct of
       Fin x \<Rightarrow>
         (if x < 0 \<or> 100 < x
          then Inl (ErrFloat ''discount_pct must be between 0 and 100, got '' discountPct)
          else let rounded = fl (of_int (round_away (fl (x * 100))) / 100)
               in if fl (1 / 10 ^ 9) < \<bar>fl (x - rounded)\<bar>
                  then Inl (ErrFloat ''discount_pct must have at most two decimal places, got '' discountPct)
                  else Inr (Fin rounded))
     | _ \<Rightarrow> Inl (ErrFloat ''discount_pct must be between 0 and 100, got '' discountPct))"

definition OccurrenceDate :: "date \<Rightarrow> int \<Rightarrow> int \<Rightarrow> go_error + date" where
  "OccurrenceDate anchor intervalDays sequenceNo =
    (case ValidateInterval intervalDays of
       Some err \<Rightarrow> Inl err
     | None \<Rightarrow>
         if sequenceNo < 1 then Inl (ErrText (''sequence_no must be at least 1, got '' @ dec_int sequenceNo))
         else Inr (AddDays anchor (intervalDays * sequenceNo)))"

text \<open>The quotient is taken of a non-negative number, so Go's truncation and \<open>div\<close> agree.\<close>

definition NextOccurrenceAfter :: "date \<Rightarrow> int \<Rightarrow> date \<Rightarrow> go_error + (int \<times> date)" where
  "NextOccurrenceAfter anchor intervalDays after =
    (case ValidateInterval intervalDays of
       Some err \<Rightarrow> Inl err
     | None \<Rightarrow>
        (let elapsed = DaysUntil anchor after in
         if elapsed < 0 then
           (case OccurrenceDate anchor intervalDays 1 of Inl err \<Rightarrow> Inl err | Inr d \<Rightarrow> Inr (1, d))
         else
           (let seq = elapsed div intervalDays + 1 in
            case OccurrenceDate anchor intervalDays seq of
              Inl err \<Rightarrow> Inl err
            | Inr d \<Rightarrow>
                if \<not> After d after then
                  (case OccurrenceDate anchor intervalDays (seq + 1) of
                     Inl err \<Rightarrow> Inl err | Inr d' \<Rightarrow> Inr (seq + 1, d'))
                else Inr (seq, d))))"

definition IdempotencyKey :: "string \<Rightarrow> int \<Rightarrow> string" where
  "IdempotencyKey scheduleID sequenceNo = scheduleID @ '':'' @ dec_int sequenceNo"

section \<open>The order of dates\<close>

lemma Before_less:
  assumes "valid_date d" "valid_date e" "Before d e"
  shows "day_of d < day_of e"
proof -
  have y: "day_of f = days_before_year (d_year f) + (days_before_month (d_year f) (d_month f) + d_day f - 1) - 719162"
    if "valid_date f" for f using day_of_valid [OF that] by simp
  consider "d_year d < d_year e" | "d_year d = d_year e" "d_month d < d_month e"
    | "d_year d = d_year e" "d_month d = d_month e" "d_day d < d_day e"
    using assms(3) by (auto simp: Before_def split: if_splits)
  then show ?thesis
  proof cases
    case 1
    then have "days_before_year (d_year d + 1) \<le> days_before_year (d_year e)"
      by (intro days_before_year_mono) simp
    then show ?thesis
      using yday_valid(2) [OF assms(1)] yday_valid(1) [OF assms(2)] year_length [of "d_year d"]
      by (simp add: y assms)
  next
    case 2
    then have "days_before_month (d_year d) (d_month d + 1) \<le> days_before_month (d_year d) (d_month e)"
      using assms(1,2) by (intro days_before_month_mono) (auto simp: valid_date_def)
    then show ?thesis using assms(1,2) 2 by (simp add: y) (auto simp: valid_date_def days_in_def)
  next
    case 3
    then show ?thesis by (simp add: y assms)
  qed
qed

lemma Before_total: "Before d e \<or> d = e \<or> Before e d"
  by (cases d; cases e) (auto simp: Before_def)

text \<open>\<open>Before\<close> makes the dates a linear order of the library, on which \<open>sort\<close>, \<open>Min\<close> and \<open>sorted\<close> work;
  the day number is monotone on the valid ones.\<close>

instantiation date :: linorder
begin

definition less_date :: "date \<Rightarrow> date \<Rightarrow> bool" where
  "less_date d e = Before d e"

definition less_eq_date :: "date \<Rightarrow> date \<Rightarrow> bool" where
  "less_eq_date d e = (Before d e \<or> d = e)"

instance
proof
  fix x y z :: date
  show "x < y \<longleftrightarrow> x \<le> y \<and> \<not> y \<le> x" "x \<le> x" "x \<le> y \<Longrightarrow> y \<le> z \<Longrightarrow> x \<le> z" "x \<le> y \<Longrightarrow> y \<le> x \<Longrightarrow> x = y"
    by (auto simp: less_date_def less_eq_date_def Before_def split: if_splits)
  show "x \<le> y \<or> y \<le> x" using Before_total [of x y] by (auto simp: less_eq_date_def)
qed

end

lemma Before_iff:
  assumes "valid_date d" "valid_date e"
  shows "Before d e \<longleftrightarrow> day_of d < day_of e"
  using Before_less assms Before_total [of d e] by fastforce

lemma After_iff: "valid_date d \<Longrightarrow> valid_date e \<Longrightarrow> After d e \<longleftrightarrow> day_of e < day_of d"
  by (simp add: After_def Before_iff)

lemma After_date_of_day [simp]: "After (date_of_day m) (date_of_day n) \<longleftrightarrow> n < m"
  by (simp add: After_iff)

lemma Before_date_of_day [simp]: "Before (date_of_day m) (date_of_day n) \<longleftrightarrow> m < n"
  by (simp add: Before_iff)

lemma date_less_day [simp]: "date_of_day m < date_of_day n \<longleftrightarrow> m < n" "date_of_day m \<le> date_of_day n \<longleftrightarrow> m \<le> n"
  by (auto simp: less_date_def less_eq_date_def)

text \<open>The dates of the occurrences are sorted when their numbers are.\<close>

lemma occurrence_dates_sorted: "0 \<le> n \<Longrightarrow> sorted ks \<Longrightarrow> sorted (map (\<lambda>k. AddDays anchor (n * k)) ks)"
  by (auto simp: AddDays_def sorted_map intro: sorted_wrt_mono_rel [rotated] mult_left_mono)

lemma ToTime_date_of_day [simp]: "ToTime (date_of_day n) = n"
  by (simp add: ToTime_def)

lemma valid_AddDays [simp, intro]: "valid_date (AddDays d n)"
  by (simp add: AddDays_def)

lemma day_of_AddDays [simp]: "day_of (AddDays d n) = day_of d + n"
  by (simp add: AddDays_def)

lemma AddDays_AddDays: "AddDays (AddDays d m) n = AddDays d (m + n)"
  by (simp add: AddDays_def add.assoc)

lemma AddDays_0: "valid_date d \<Longrightarrow> AddDays d 0 = d"
  by (simp add: AddDays_def)

lemma max_duration_days_value: "max_duration_days = 106751"
  by (simp add: max_duration_days_def)

lemma DaysUntil_exact:
  "\<bar>day_of e - day_of d\<bar> \<le> 106751 \<Longrightarrow> DaysUntil d e = day_of e - day_of d"
  by (simp add: DaysUntil_def max_duration_days_value)

section \<open>Occurrences\<close>

lemma ValidateInterval_None: "ValidateInterval n = None \<longleftrightarrow> 7 \<le> n \<and> n \<le> 180"
  by (auto simp: ValidateInterval_def MinIntervalDays_def MaxIntervalDays_def)

lemma OccurrenceDate_Inr:
  "OccurrenceDate a n k = Inr d \<longleftrightarrow> 7 \<le> n \<and> n \<le> 180 \<and> 1 \<le> k \<and> d = AddDays a (n * k)"
  by (auto simp: OccurrenceDate_def split: option.splits)
    (auto simp: ValidateInterval_def MinIntervalDays_def MaxIntervalDays_def split: if_splits)

lemma OccurrenceDate_ok:
  "7 \<le> n \<Longrightarrow> n \<le> 180 \<Longrightarrow> 1 \<le> k \<Longrightarrow> OccurrenceDate a n k = Inr (AddDays a (n * k))"
  by (simp add: OccurrenceDate_Inr)

lemma NextOccurrenceAfter_total:
  assumes "7 \<le> n" "n \<le> 180"
  shows "\<exists>k. 1 \<le> k \<and> NextOccurrenceAfter a n t = Inr (k, AddDays a (n * k))"
proof -
  have v: "ValidateInterval n = None" using assms by (simp add: ValidateInterval_None)
  have pos: "0 \<le> DaysUntil a t \<Longrightarrow> 0 \<le> DaysUntil a t div n"
    using assms by (simp add: pos_imp_zdiv_nonneg_iff)
  then show ?thesis
    using assms by (auto simp: NextOccurrenceAfter_def v Let_def OccurrenceDate_ok)
qed

lemma first_multiple_after:
  fixes n e :: int
  assumes "0 < n"
  shows "e < n * (e div n + 1)" and "n * (e div n) \<le> e"
proof -
  have "e = n * (e div n) + e mod n" by simp
  moreover have "0 \<le> e mod n" "e mod n < n" using assms by simp_all
  ultimately show "e < n * (e div n + 1)" and "n * (e div n) \<le> e"
    unfolding distrib_left mult_1_right by linarith+
qed

lemma NextOccurrenceAfter_near:
  assumes n: "7 \<le> n" "n \<le> 180" and t: "valid_date t" and near: "day_of t - day_of a \<le> 106751"
  defines "k \<equiv> if day_of t < day_of a then 1 else (day_of t - day_of a) div n + 1"
  shows "NextOccurrenceAfter a n t = Inr (k, AddDays a (n * k))"
proof -
  have v: "ValidateInterval n = None" using n by (simp add: ValidateInterval_None)
  show ?thesis
  proof (cases "day_of t < day_of a")
    case True
    then have "DaysUntil a t < 0" by (simp add: DaysUntil_def max_duration_days_value)
    with True n show ?thesis by (simp add: NextOccurrenceAfter_def v Let_def OccurrenceDate_ok k_def)
  next
    case False
    then have e: "DaysUntil a t = day_of t - day_of a" using near by (simp add: DaysUntil_exact)
    have "0 \<le> (day_of t - day_of a) div n" using False n by (simp add: pos_imp_zdiv_nonneg_iff)
    moreover have "After (AddDays a (n * k)) t"
      using t n False first_multiple_after(1) [of n "day_of t - day_of a"] by (simp add: After_iff k_def)
    ultimately show ?thesis using False n by (simp add: NextOccurrenceAfter_def v Let_def e OccurrenceDate_ok k_def)
  qed
qed

end
