(* ===== verification/Transitions.thy ===== *)
theory Transitions
  imports Cadence
begin

text \<open>
  \<open>internal/domain/transitions.go\<close>: the precondition table of the lifecycle actions as data,
  the messages of its rejections, and the validators of the inputs that need no schedule.
  \<open>net/mail.ParseAddress\<close> is an argument of \<open>ValidateEmail\<close>.
\<close>

definition ArmWindowDays :: int where "ArmWindowDays = 3"
definition MaxDeferDays :: int where "MaxDeferDays = MaxIntervalDays"
definition MaxIdempotencyKeyLength :: nat where "MaxIdempotencyKeyLength = 200"
definition MaxEmailLength :: nat where "MaxEmailLength = 254"

section \<open>Schedule transitions\<close>

fun scheduleTransitions :: "action \<Rightarrow> schedule_status list option" where
  "scheduleTransitions ActionPause = Some [ScheduleActive]"
| "scheduleTransitions ActionResume = Some [SchedulePaused]"
| "scheduleTransitions ActionSkipNext = Some [ScheduleActive]"
| "scheduleTransitions ActionDefer = Some [ScheduleActive]"
| "scheduleTransitions ActionChangeCadence = Some [ScheduleActive, SchedulePaused]"
| "scheduleTransitions ActionCancel = Some [ScheduleActive, SchedulePaused, ScheduleFailed]"
| "scheduleTransitions ActionArm = Some [ScheduleActive]"
| "scheduleTransitions (ActionOther a) = None"

fun transitionMessages :: "action \<Rightarrow> schedule_status \<Rightarrow> string option" where
  "transitionMessages ActionPause SchedulePaused = Some ''this schedule is already paused''"
| "transitionMessages ActionPause ScheduleCanceled = Some ''this schedule has been canceled''"
| "transitionMessages ActionPause ScheduleFailed =
     Some ''this schedule needs a payment method update before it can be paused''"
| "transitionMessages ActionResume ScheduleActive = Some ''this schedule is already active''"
| "transitionMessages ActionResume ScheduleCanceled =
     Some ''this schedule has been canceled and cannot be resumed''"
| "transitionMessages ActionResume ScheduleFailed =
     Some ''this schedule needs a payment method update before it can be resumed''"
| "transitionMessages ActionSkipNext SchedulePaused =
     Some ''this schedule is paused, so no order is scheduled to skip''"
| "transitionMessages ActionSkipNext ScheduleCanceled = Some ''this schedule has been canceled''"
| "transitionMessages ActionSkipNext ScheduleFailed =
     Some ''this schedule has no upcoming order to skip''"
| "transitionMessages ActionDefer SchedulePaused =
     Some ''this schedule is paused, so no order is scheduled to move''"
| "transitionMessages ActionDefer ScheduleCanceled = Some ''this schedule has been canceled''"
| "transitionMessages ActionDefer ScheduleFailed =
     Some ''this schedule has no upcoming order to move''"
| "transitionMessages ActionChangeCadence ScheduleCanceled =
     Some ''this schedule has been canceled''"
| "transitionMessages ActionChangeCadence ScheduleFailed =
     Some ''this schedule needs a payment method update before its cadence can change''"
| "transitionMessages ActionCancel ScheduleCanceled =
     Some ''this schedule has already been canceled''"
| "transitionMessages ActionArm SchedulePaused =
     Some ''this schedule is paused, so no order is due to be armed''"
| "transitionMessages ActionArm ScheduleCanceled = Some ''this schedule has been canceled''"
| "transitionMessages ActionArm ScheduleFailed =
     Some ''this schedule needs a payment method update before an order can be armed''"
| "transitionMessages a st = None"

definition ValidateScheduleTransition :: "schedule_status \<Rightarrow> action \<Rightarrow> go_error option" where
  "ValidateScheduleTransition status a =
    (case scheduleTransitions a of
       None \<Rightarrow> Some (ErrText (''unknown action '' @ CHR 0x22 # action_text a @ [CHR 0x22]))
     | Some allowed \<Rightarrow>
         if list_ex (\<lambda>s. s = status) allowed then None
         else (let msg = (case transitionMessages a status of
                   Some m \<Rightarrow> m | None \<Rightarrow> ''this schedule cannot accept that change right now'')
               in Some (TransitionError a status msg)))"

definition ValidateOccurrenceAction :: "occurrence \<Rightarrow> action \<Rightarrow> go_error option" where
  "ValidateOccurrenceAction oc a =
    (if a \<noteq> ActionSkipNext \<and> a \<noteq> ActionDefer
     then Some (ErrText (''action '' @ CHR 0x22 # action_text a @ CHR 0x22 # '' does not target an occurrence''))
     else if \<not> IsExecuted oc then None
     else (let msg = (case o_status oc of
               OccurrenceSkipped \<Rightarrow> ''this order has already been skipped''
             | OccurrenceCanceled \<Rightarrow> ''this order has already been canceled''
             | OccurrenceFailed \<Rightarrow>
                 ''this order could not be placed; update your payment method to restart the schedule''
             | _ \<Rightarrow> ''this order has already been placed and can no longer be changed'')
           in Some (TransitionError a ScheduleActive msg)))"

section \<open>Inputs\<close>

definition ValidateDeferDays :: "int \<Rightarrow> go_error option" where
  "ValidateDeferDays days =
    (if days < 1 \<or> MaxDeferDays < days
     then Some (ErrText (''days must be between 1 and '' @ dec_int MaxDeferDays @ '', got '' @ dec_int days))
     else None)"

definition CancellationReasons :: "string list" where
  "CancellationReasons = [''too_expensive'', ''too_frequent'', ''switched_brand'',
     ''delivery_issue'', ''payment_issue'', ''no_longer_wanted'', ''other'']"

definition ValidateIdempotencyKey :: "string \<Rightarrow> go_error option" where
  "ValidateIdempotencyKey key =
    (if key = [] then Some (ErrText ''idempotency_key is required'')
     else if MaxIdempotencyKeyLength < length key
     then Some (ErrText (''idempotency_key must be at most '' @ dec MaxIdempotencyKeyLength
            @ '' characters, got '' @ dec (length key)))
     else None)"

definition ValidateEmail :: "(string \<Rightarrow> go_error option) \<Rightarrow> string \<Rightarrow> go_error option" where
  "ValidateEmail parse_address email =
    (if email = [] then Some (ErrText ''customer_email is required'')
     else if MaxEmailLength < length email
     then Some (ErrText (''customer_email must be at most '' @ dec MaxEmailLength
            @ '' characters, got '' @ dec (length email)))
     else (case parse_address email of
         Some err \<Rightarrow> Some (Wrapped ''customer_email is not a valid address: '' err '''')
       | None \<Rightarrow> None))"

definition ValidateCancellationReason :: "string \<Rightarrow> go_error option" where
  "ValidateCancellationReason code =
    (if list_ex (\<lambda>r. r = code) CancellationReasons then None
     else Some (ErrText (''reason_code must be one of ['' @ concat (map (\<lambda>r. r @ '' '') (butlast CancellationReasons))
            @ last CancellationReasons @ ''], got '' @ CHR 0x22 # code @ [CHR 0x22])))"

section \<open>Which statuses an action accepts\<close>

text \<open>The abstract reading of the table: the statuses from which an action may start.\<close>

definition accepts :: "action \<Rightarrow> schedule_status \<Rightarrow> bool" where
  "accepts a st = (ValidateScheduleTransition st a = None)"

lemma accepts_iff: "accepts a st \<longleftrightarrow> (\<exists>allowed. scheduleTransitions a = Some allowed \<and> st \<in> set allowed)"
  by (auto simp: accepts_def ValidateScheduleTransition_def Let_def list_ex_iff split: option.splits)

lemma ValidateScheduleTransition_TransitionError:
  "ValidateScheduleTransition st a = Some e \<Longrightarrow> (\<forall>n. a \<noteq> ActionOther n) \<Longrightarrow> IsTransitionError e"
  by (cases a) (auto simp: ValidateScheduleTransition_def Let_def split: if_splits)

lemma accepts_simps [simp]:
  "accepts ActionPause st \<longleftrightarrow> st = ScheduleActive"
  "accepts ActionResume st \<longleftrightarrow> st = SchedulePaused"
  "accepts ActionSkipNext st \<longleftrightarrow> st = ScheduleActive"
  "accepts ActionDefer st \<longleftrightarrow> st = ScheduleActive"
  "accepts ActionChangeCadence st \<longleftrightarrow> st = ScheduleActive \<or> st = SchedulePaused"
  "accepts ActionCancel st \<longleftrightarrow> st \<noteq> ScheduleCanceled"
  "accepts ActionArm st \<longleftrightarrow> st = ScheduleActive"
  "\<not> accepts (ActionOther n) st"
  by (auto simp: accepts_iff intro: schedule_status.exhaust)

lemma ValidateScheduleTransition_None [simp]: "ValidateScheduleTransition st a = None \<longleftrightarrow> accepts a st"
  by (simp add: accepts_def)

lemma ValidateOccurrenceAction_None:
  "ValidateOccurrenceAction oc a = None \<longleftrightarrow>
     (a = ActionSkipNext \<or> a = ActionDefer) \<and> o_status oc \<in> {OccurrencePlanned, OccurrencePending}"
  by (auto simp: ValidateOccurrenceAction_def Let_def IsExecuted_def split: occurrence_status.splits)

lemma ValidateDeferDays_None: "ValidateDeferDays n = None \<longleftrightarrow> 1 \<le> n \<and> n \<le> 180"
  by (auto simp: ValidateDeferDays_def MaxDeferDays_def MaxIntervalDays_def)

lemma ValidateIdempotencyKey_None: "ValidateIdempotencyKey k = None \<longleftrightarrow> k \<noteq> [] \<and> length k \<le> 200"
  by (auto simp: ValidateIdempotencyKey_def MaxIdempotencyKeyLength_def)

lemma ValidateCancellationReason_None: "ValidateCancellationReason c = None \<longleftrightarrow> c \<in> set CancellationReasons"
  by (auto simp: ValidateCancellationReason_def list_ex_iff)

end
