(* ===== verification/Schema.thy ===== *)
theory Schema
  imports Transitions "HOL-Library.Product_Lexorder" "HOL-Library.Option_ord"
    "HOL-Library.List_Lexorder" "HOL-Library.Char_ord"
begin

text \<open>
  The tables of \<open>internal/store/migrations\<close> and what Postgres checks when a row is written:
  CHECK constraints by name in alphabetical order, then the primary key and the unique indexes
  in the order of their creation, then the foreign key. A \<open>date\<close> column is a day number, a
  \<open>numeric(5,2)\<close> column its value in hundredths, a \<open>uuid\<close> column its canonical text, a \<open>jsonb\<close>
  column a JSON value. \<open>db_wf\<close> is what the constraints together guarantee of the contents.
\<close>

section \<open>Rows\<close>

record schedule_row =
  sr_id :: string
  sr_customer_id :: string
  sr_customer_email :: string
  sr_status :: schedule_status
  sr_interval_days :: int
  sr_anchor_date :: int
  sr_next_run_date :: "int option"
  sr_timezone :: string
  sr_payment_token_ref :: "string option"
  sr_shipping_address_id :: "string option"
  sr_discount_pct :: int
  sr_paused_until :: "int option"
  sr_origin_order_id :: string
  sr_created_at :: int
  sr_updated_at :: int

record item_row =
  ir_id :: string
  ir_schedule_id :: string
  ir_sku :: string
  ir_quantity :: int
  ir_created_at :: int

record occurrence_row =
  or_id :: string
  or_schedule_id :: string
  or_sequence_no :: int
  or_scheduled_for :: int
  or_status :: occurrence_status
  or_order_id :: "string option"
  or_idempotency_key :: string
  or_created_at :: int
  or_updated_at :: int

record event_row =
  er_id :: int
  er_schedule_id :: string
  er_event_type :: event_type
  er_actor :: event_actor
  er_reason_code :: "string option"
  er_payload :: json
  er_idempotency_key :: "string option"
  er_created_at :: int

datatype notification_status = NotificationPending | NotificationSent | NotificationFailed

record notification_row =
  nr_schedule_event_id :: int
  nr_status :: notification_status
  nr_attempts :: int
  nr_last_attempt_at :: int
  nr_sent_at :: "int option"
  nr_last_error :: "string option"

text \<open>The database; \<open>db_event_seq\<close> is the last value the \<open>bigserial\<close> of the event log gave out.\<close>

record db =
  db_schedules :: "schedule_row list"
  db_items :: "item_row list"
  db_occurrences :: "occurrence_row list"
  db_events :: "event_row list"
  db_notifications :: "notification_row list"
  db_event_seq :: int

definition empty_db :: db where
  "empty_db = \<lparr>db_schedules = [], db_items = [], db_occurrences = [], db_events = [],
     db_notifications = [], db_event_seq = 0\<rparr>"

section \<open>Errors of the server\<close>

definition pg_unique :: "string \<Rightarrow> go_error" where
  "pg_unique c = PgError ''23505'' (''duplicate key value violates unique constraint '' @ c)"

definition pg_check :: "string \<Rightarrow> go_error" where
  "pg_check c = PgError ''23514'' (''new row violates check constraint '' @ c)"

definition pg_foreign_key :: "string \<Rightarrow> go_error" where
  "pg_foreign_key c = PgError ''23503'' (''insert or update violates foreign key constraint '' @ c)"

definition pg_bad_uuid :: go_error where
  "pg_bad_uuid = PgError ''22P02'' ''invalid input syntax for type uuid''"

definition pg_failed_tx :: go_error where
  "pg_failed_tx = PgError ''25P02''
     ''current transaction is aborted, commands ignored until end of transaction block''"

definition pg_int_range :: go_error where
  "pg_int_range = PgError ''22003'' ''integer out of range''"

definition int4 :: "int \<Rightarrow> bool" where
  "int4 n = (- (2 ^ 31) \<le> n \<and> n < 2 ^ 31)"

section \<open>Constraints\<close>

text \<open>The first broken constraint of a list of named conditions.\<close>

fun broken :: "(bool \<times> go_error) list \<Rightarrow> go_error option" where
  "broken [] = None"
| "broken ((ok, e) # cs) = (if ok then broken cs else Some e)"

definition schedule_checks :: "schedule_row \<Rightarrow> (bool \<times> go_error) list" where
  "schedule_checks r =
    [(0 \<le> sr_discount_pct r \<and> sr_discount_pct r \<le> 10000, pg_check ''schedules_discount_pct_range''),
     (7 \<le> sr_interval_days r \<and> sr_interval_days r \<le> 180, pg_check ''schedules_interval_days_range''),
     (sr_paused_until r = None \<or> sr_status r = SchedulePaused,
        pg_check ''schedules_paused_until_requires_paused'')]"

definition occurrence_checks :: "occurrence_row \<Rightarrow> (bool \<times> go_error) list" where
  "occurrence_checks r =
    [(or_order_id r = None \<or> or_status r = OccurrencePlaced, pg_check ''occurrences_order_requires_placed''),
     (0 < or_sequence_no r, pg_check ''occurrences_sequence_no_positive'')]"

definition schedule_exists :: "db \<Rightarrow> string \<Rightarrow> bool" where
  "schedule_exists d i = (i \<in> set (map sr_id (db_schedules d)))"

definition insert_schedule :: "schedule_row \<Rightarrow> db \<Rightarrow> go_error + db" where
  "insert_schedule r d =
    (case broken (schedule_checks r @
        [(sr_id r \<notin> set (map sr_id (db_schedules d)), pg_unique ''schedules_pkey''),
         (sr_origin_order_id r \<notin> set (map sr_origin_order_id (db_schedules d)),
            pg_unique ''schedules_origin_order_id_unique'')]) of
       Some e \<Rightarrow> Inl e
     | None \<Rightarrow> Inr (d\<lparr>db_schedules := db_schedules d @ [r]\<rparr>))"

definition insert_item :: "item_row \<Rightarrow> db \<Rightarrow> go_error + db" where
  "insert_item r d =
    (case broken
        [(int4 (ir_quantity r), pg_int_range),
         (0 < ir_quantity r, pg_check ''schedule_items_quantity_positive''),
         (ir_id r \<notin> set (map ir_id (db_items d)), pg_unique ''schedule_items_pkey''),
         ((ir_schedule_id r, ir_sku r) \<notin> set (map (\<lambda>i. (ir_schedule_id i, ir_sku i)) (db_items d)),
            pg_unique ''schedule_items_unique_sku''),
         (schedule_exists d (ir_schedule_id r), pg_foreign_key ''schedule_items_schedule_id_fkey'')] of
       Some e \<Rightarrow> Inl e
     | None \<Rightarrow> Inr (d\<lparr>db_items := db_items d @ [r]\<rparr>))"

definition insert_occurrence :: "occurrence_row \<Rightarrow> db \<Rightarrow> go_error + db" where
  "insert_occurrence r d =
    (case broken ((int4 (or_sequence_no r), pg_int_range) # occurrence_checks r @
        [(or_id r \<notin> set (map or_id (db_occurrences d)), pg_unique ''occurrences_pkey''),
         (or_idempotency_key r \<notin> set (map or_idempotency_key (db_occurrences d)),
            pg_unique ''occurrences_idempotency_key_unique''),
         ((or_schedule_id r, or_sequence_no r)
              \<notin> set (map (\<lambda>oc. (or_schedule_id oc, or_sequence_no oc)) (db_occurrences d)),
            pg_unique ''occurrences_sequence_unique''),
         (schedule_exists d (or_schedule_id r), pg_foreign_key ''occurrences_schedule_id_fkey'')]) of
       Some e \<Rightarrow> Inl e
     | None \<Rightarrow> Inr (d\<lparr>db_occurrences := db_occurrences d @ [r]\<rparr>))"

text \<open>The key under which the partial unique index of migration 00004 sees an event.\<close>

definition event_key :: "event_row \<Rightarrow> string \<times> event_type \<times> string option" where
  "event_key e = (er_schedule_id e, er_event_type e, er_idempotency_key e)"

definition insert_event :: "event_row \<Rightarrow> db \<Rightarrow> go_error + db" where
  "insert_event r d =
    (case broken
        [(er_idempotency_key r = None \<or> event_key r \<notin> set (map event_key (db_events d)),
            pg_unique ''schedule_events_idempotency_key_unique''),
         (schedule_exists d (er_schedule_id r), pg_foreign_key ''schedule_events_schedule_id_fkey'')] of
       Some e \<Rightarrow> Inl e
     | None \<Rightarrow> Inr (d\<lparr>db_events := db_events d @ [r\<lparr>er_id := db_event_seq d + 1\<rparr>],
                       db_event_seq := db_event_seq d + 1\<rparr>))"

text \<open>\<open>UPDATE schedules SET ... WHERE ...\<close>: every rewritten row is checked, and the command
  reports how many rows it touched.\<close>

definition update_schedules ::
    "(schedule_row \<Rightarrow> bool) \<Rightarrow> (schedule_row \<Rightarrow> schedule_row) \<Rightarrow> db \<Rightarrow> go_error + nat \<times> db" where
  "update_schedules p f d =
    (case broken (concat (map (\<lambda>r. schedule_checks (f r)) (filter p (db_schedules d)))) of
       Some e \<Rightarrow> Inl e
     | None \<Rightarrow> Inr (length (filter p (db_schedules d)),
                    d\<lparr>db_schedules := update_where p f (db_schedules d)\<rparr>))"

definition update_occurrences ::
    "(occurrence_row \<Rightarrow> bool) \<Rightarrow> (occurrence_row \<Rightarrow> occurrence_row) \<Rightarrow> db \<Rightarrow> go_error + nat \<times> db" where
  "update_occurrences p f d =
    (case broken (concat (map (\<lambda>r. occurrence_checks (f r)) (filter p (db_occurrences d)))) of
       Some e \<Rightarrow> Inl e
     | None \<Rightarrow> Inr (length (filter p (db_occurrences d)),
                    d\<lparr>db_occurrences := update_where p f (db_occurrences d)\<rparr>))"

section \<open>What the constraints guarantee\<close>

definition keyed :: "event_row list \<Rightarrow> event_row list" where
  "keyed es = filter (\<lambda>e. er_idempotency_key e \<noteq> None) es"

definition checks_hold :: "(bool \<times> go_error) list \<Rightarrow> bool" where
  "checks_hold cs = (\<forall>c \<in> set cs. fst c)"

definition db_wf :: "db \<Rightarrow> bool" where
  "db_wf d =
    (distinct (map sr_id (db_schedules d))
     \<and> distinct (map sr_origin_order_id (db_schedules d))
     \<and> (\<forall>r \<in> set (db_schedules d). checks_hold (schedule_checks r))
     \<and> distinct (map ir_id (db_items d))
     \<and> distinct (map (\<lambda>i. (ir_schedule_id i, ir_sku i)) (db_items d))
     \<and> (\<forall>i \<in> set (db_items d). 0 < ir_quantity i \<and> int4 (ir_quantity i) \<and> schedule_exists d (ir_schedule_id i))
     \<and> distinct (map or_id (db_occurrences d))
     \<and> distinct (map or_idempotency_key (db_occurrences d))
     \<and> distinct (map (\<lambda>oc. (or_schedule_id oc, or_sequence_no oc)) (db_occurrences d))
     \<and> (\<forall>r \<in> set (db_occurrences d). checks_hold (occurrence_checks r) \<and> schedule_exists d (or_schedule_id r))
     \<and> distinct (map event_key (keyed (db_events d)))
     \<and> sorted_wrt (<) (map er_id (db_events d))
     \<and> (\<forall>e \<in> set (db_events d). er_id e \<le> db_event_seq d \<and> schedule_exists d (er_schedule_id e))
     \<and> distinct (map nr_schedule_event_id (db_notifications d))
     \<and> (\<forall>n \<in> set (db_notifications d). nr_schedule_event_id n \<in> er_id ` set (db_events d)))"

lemma broken_None: "broken cs = None \<longleftrightarrow> checks_hold cs"
  by (induction cs rule: broken.induct) (auto simp: checks_hold_def)

lemma broken_SomeD: "broken cs = Some e \<Longrightarrow> (False, e) \<in> set cs"
  by (induction cs rule: broken.induct) (auto split: if_splits)

declare broken.simps [simp del]

lemma checks_hold_simps [simp]:
  "checks_hold []" "checks_hold ((b, e) # cs) \<longleftrightarrow> b \<and> checks_hold cs"
  "checks_hold (cs @ ds) \<longleftrightarrow> checks_hold cs \<and> checks_hold ds"
  by (auto simp: checks_hold_def)

lemma checks_hold_concat [simp]: "checks_hold (concat css) \<longleftrightarrow> (\<forall>cs \<in> set css. checks_hold cs)"
  by (auto simp: checks_hold_def)

text \<open>Each write, seen from its success.\<close>

lemma insert_schedule_Inr:
  "insert_schedule r d = Inr d' \<longleftrightarrow>
     checks_hold (schedule_checks r) \<and> sr_id r \<notin> sr_id ` set (db_schedules d)
     \<and> sr_origin_order_id r \<notin> sr_origin_order_id ` set (db_schedules d)
     \<and> d' = d\<lparr>db_schedules := db_schedules d @ [r]\<rparr>"
  by (auto simp: insert_schedule_def broken_None split: option.splits)
    (fastforce dest!: broken_SomeD simp: checks_hold_def)

lemma insert_item_Inr:
  "insert_item r d = Inr d' \<Longrightarrow>
     0 < ir_quantity r \<and> int4 (ir_quantity r) \<and> ir_id r \<notin> ir_id ` set (db_items d)
     \<and> (ir_schedule_id r, ir_sku r) \<notin> (\<lambda>i. (ir_schedule_id i, ir_sku i)) ` set (db_items d)
     \<and> schedule_exists d (ir_schedule_id r)
     \<and> d' = d\<lparr>db_items := db_items d @ [r]\<rparr>"
  by (auto simp: insert_item_def broken_None split: option.splits)

lemma insert_occurrence_Inr:
  "insert_occurrence r d = Inr d' \<Longrightarrow>
     checks_hold (occurrence_checks r) \<and> or_id r \<notin> or_id ` set (db_occurrences d)
     \<and> or_idempotency_key r \<notin> or_idempotency_key ` set (db_occurrences d)
     \<and> (or_schedule_id r, or_sequence_no r)
         \<notin> (\<lambda>oc. (or_schedule_id oc, or_sequence_no oc)) ` set (db_occurrences d)
     \<and> schedule_exists d (or_schedule_id r)
     \<and> d' = d\<lparr>db_occurrences := db_occurrences d @ [r]\<rparr>"
  by (auto simp: insert_occurrence_def broken_None split: option.splits)

lemma insert_event_Inr:
  "insert_event r d = Inr d' \<Longrightarrow>
     (er_idempotency_key r = None \<or> event_key r \<notin> event_key ` set (db_events d))
     \<and> schedule_exists d (er_schedule_id r)
     \<and> d' = d\<lparr>db_events := db_events d @ [r\<lparr>er_id := db_event_seq d + 1\<rparr>],
             db_event_seq := db_event_seq d + 1\<rparr>"
  by (auto simp: insert_event_def broken_None split: option.splits)

lemma update_schedules_Inr:
  "update_schedules p f d = Inr (n, d') \<Longrightarrow>
     (\<forall>r \<in> set (db_schedules d). p r \<longrightarrow> checks_hold (schedule_checks (f r)))
     \<and> n = length (filter p (db_schedules d))
     \<and> d' = d\<lparr>db_schedules := update_where p f (db_schedules d)\<rparr>"
  by (auto simp: update_schedules_def broken_None split: option.splits)

lemma update_occurrences_Inr:
  "update_occurrences p f d = Inr (n, d') \<Longrightarrow>
     (\<forall>r \<in> set (db_occurrences d). p r \<longrightarrow> checks_hold (occurrence_checks (f r)))
     \<and> n = length (filter p (db_occurrences d))
     \<and> d' = d\<lparr>db_occurrences := update_where p f (db_occurrences d)\<rparr>"
  by (auto simp: update_occurrences_def broken_None split: option.splits)

lemmas write_Inr = insert_item_Inr insert_occurrence_Inr insert_event_Inr
  update_schedules_Inr update_occurrences_Inr insert_schedule_Inr [THEN iffD1]

section \<open>The writes keep the constraints\<close>

lemma db_wf_empty: "db_wf empty_db"
  by (simp add: db_wf_def empty_db_def keyed_def)

lemma insert_schedule_wf: "db_wf d \<Longrightarrow> insert_schedule r d = Inr d' \<Longrightarrow> db_wf d'"
  by (auto simp: insert_schedule_Inr db_wf_def schedule_exists_def)

lemma insert_item_wf: "db_wf d \<Longrightarrow> insert_item r d = Inr d' \<Longrightarrow> db_wf d'"
  by (auto simp: db_wf_def schedule_exists_def dest!: insert_item_Inr)

lemma insert_occurrence_wf: "db_wf d \<Longrightarrow> insert_occurrence r d = Inr d' \<Longrightarrow> db_wf d'"
  by (auto simp: db_wf_def schedule_exists_def dest!: insert_occurrence_Inr)

lemma insert_event_wf:
  assumes wf: "db_wf d" and ins: "insert_event r d = Inr d'"
  shows "db_wf d'"
proof -
  have "er_id e < db_event_seq d + 1" and "er_id e \<le> db_event_seq d + 1" if "e \<in> set (db_events d)" for e
    using wf that by (auto simp: db_wf_def intro: add_increasing2)
  moreover have "event_key (r\<lparr>er_id := i\<rparr>) = event_key r" for i by (simp add: event_key_def)
  moreover have "distinct (map event_key (keyed (db_events d)))" using wf by (simp add: db_wf_def)
  ultimately show ?thesis
    using wf insert_event_Inr [OF ins]
    by (auto simp: db_wf_def schedule_exists_def keyed_def sorted_wrt_append)
qed

lemma update_schedules_wf:
  assumes wf: "db_wf d" and upd: "update_schedules p f d = Inr (n, d')"
    and keys: "\<And>r. sr_id (f r) = sr_id r" "\<And>r. sr_origin_order_id (f r) = sr_origin_order_id r"
  shows "db_wf d'"
proof -
  note u = update_schedules_Inr [OF upd]
  have "map sr_id (update_where p f (db_schedules d)) = map sr_id (db_schedules d)"
    and "map sr_origin_order_id (update_where p f (db_schedules d)) = map sr_origin_order_id (db_schedules d)"
    by (simp_all add: keys)
  then show ?thesis
    using wf u by (auto simp: db_wf_def schedule_exists_def set_update_where simp flip: set_map)
qed

lemma update_occurrences_wf:
  assumes wf: "db_wf d" and upd: "update_occurrences p f d = Inr (n, d')"
    and keys: "\<And>r. or_id (f r) = or_id r" "\<And>r. or_idempotency_key (f r) = or_idempotency_key r"
      "\<And>r. or_schedule_id (f r) = or_schedule_id r" "\<And>r. or_sequence_no (f r) = or_sequence_no r"
  shows "db_wf d'"
proof -
  note u = update_occurrences_Inr [OF upd]
  have "map or_id (update_where p f (db_occurrences d)) = map or_id (db_occurrences d)"
    and "map or_idempotency_key (update_where p f (db_occurrences d)) = map or_idempotency_key (db_occurrences d)"
    and "map (\<lambda>oc. (or_schedule_id oc, or_sequence_no oc)) (update_where p f (db_occurrences d))
       = map (\<lambda>oc. (or_schedule_id oc, or_sequence_no oc)) (db_occurrences d)"
    by (simp_all add: keys)
  then show ?thesis
    using wf u by (auto simp: db_wf_def schedule_exists_def set_update_where keys)
qed

end
