(* ===== verification/Session.thy ===== *)
theory Session
  imports Schema
begin

text \<open>
  Go code that talks to the database, as state passing. A program of type \<open>'a go\<close> takes a
  session and returns an error or a value, and the session afterwards. The session holds the
  database, whether the connection is scoped to a transaction (the \<open>db == nil\<close> test of
  \<open>PostgresRepository\<close>) and since when, whether an error has aborted that transaction, and how
  many statements and identifiers have been drawn. The world supplies what is not in the
  repository: zone database, uuid syntax, address syntax, clocks, random identifiers, the mail
  provider, which statements fail in the driver, and what other sessions commit between two
  statements. \<open>st_mail\<close> is the mail handed to the provider so far, which no rollback takes back.
\<close>

record world =
  w_load_location :: "string \<Rightarrow> location option"
  w_uuid_in :: "string \<Rightarrow> string option"
  w_parse_address :: "string \<Rightarrow> go_error option"
  w_fault :: "nat \<Rightarrow> bool"
  w_dbnow :: "nat \<Rightarrow> int"
  w_now :: "nat \<Rightarrow> int"
  w_newid :: "nat \<Rightarrow> string"
  w_send :: "nat \<Rightarrow> string \<times> string \<times> string \<Rightarrow> go_error option"
  w_others :: "nat \<Rightarrow> db \<Rightarrow> db"

record session =
  st_db :: db
  st_tx :: "int option"
  st_aborted :: bool
  st_ticks :: nat
  st_ids :: nat
  st_mail :: "(string \<times> string \<times> string) list"

type_synonym 'a go = "session \<Rightarrow> (go_error + 'a) \<times> session"

type_synonym 'a query = "int \<Rightarrow> db \<Rightarrow> go_error + ('a \<times> db)"

definition open_session :: "db \<Rightarrow> session" where
  "open_session d = \<lparr>st_db = d, st_tx = None, st_aborted = False, st_ticks = 0, st_ids = 0,
     st_mail = []\<rparr>"

section \<open>Control flow\<close>

definition ret :: "'a \<Rightarrow> 'a go" where
  "ret a s = (Inr a, s)"

definition throw :: "go_error \<Rightarrow> 'a go" where
  "throw e s = (Inl e, s)"

definition bind :: "'a go \<Rightarrow> ('a \<Rightarrow> 'b go) \<Rightarrow> 'b go" where
  "bind m f s = (case m s of (Inl e, s') \<Rightarrow> (Inl e, s') | (Inr a, s') \<Rightarrow> f a s')"

text \<open>\<open>if err := v; err != nil { return err }\<close> for a validation without state.\<close>

definition check :: "go_error option \<Rightarrow> unit go" where
  "check v = (case v of Some e \<Rightarrow> throw e | None \<Rightarrow> ret ())"

text \<open>A call whose error the caller inspects: \<open>x, err := m; switch ...\<close>.\<close>

definition attempt :: "'a go \<Rightarrow> (go_error + 'a) go" where
  "attempt m s = (case m s of (r, s') \<Rightarrow> (Inr r, s'))"

text \<open>\<open>fmt.Errorf(prefix + "%w", err)\<close> on the error path.\<close>

definition wrapping :: "string \<Rightarrow> 'a go \<Rightarrow> 'a go" where
  "wrapping pre m s = (case m s of (Inl e, s') \<Rightarrow> (Inl (Wrapped pre e ''''), s') | r \<Rightarrow> r)"

definition gets :: "(session \<Rightarrow> 'a) \<Rightarrow> 'a go" where
  "gets f s = (Inr (f s), s)"

fun for_each :: "'x list \<Rightarrow> ('x \<Rightarrow> unit go) \<Rightarrow> unit go" where
  "for_each [] body = ret ()"
| "for_each (x # xs) body = bind (body x) (\<lambda>_. for_each xs body)"

text \<open>\<open>m.newID()\<close>, \<open>uuid.NewString()\<close> and the application clock \<open>now()\<close>.\<close>

definition new_id :: "world \<Rightarrow> string go" where
  "new_id W s = (Inr (w_newid W (st_ids s)), s\<lparr>st_ids := Suc (st_ids s)\<rparr>)"

definition clock :: "world \<Rightarrow> int go" where
  "clock W = gets (\<lambda>s. w_now W (st_ticks s))"

text \<open>\<open>Sender.Send(to, subject, body)\<close>.\<close>

definition send_mail :: "world \<Rightarrow> string \<times> string \<times> string \<Rightarrow> unit go" where
  "send_mail W m s =
    ((case w_send W (st_ticks s) m of Some e \<Rightarrow> Inl e | None \<Rightarrow> Inr ()),
     s\<lparr>st_ticks := Suc (st_ticks s), st_mail := st_mail s @ [m]\<rparr>)"

section \<open>Statements and transactions\<close>

text \<open>Outside a transaction the committed work of other sessions becomes visible; inside one the
  schedule row is locked and nothing the code reads moves.\<close>

definition settle :: "world \<Rightarrow> session \<Rightarrow> session" where
  "settle W s = (if st_tx s = None then s\<lparr>st_db := w_others W (st_ticks s) (st_db s)\<rparr> else s)"

text \<open>One statement: refused in an aborted transaction, lost to the driver, rejected by the
  server (which aborts the transaction), or executed. \<open>now()\<close> is the start of the transaction.\<close>

definition stmt :: "world \<Rightarrow> 'a query \<Rightarrow> 'a go" where
  "stmt W q s =
    (let s0 = settle W s; k = st_ticks s0; s1 = s0\<lparr>st_ticks := Suc k\<rparr>;
         dead = s1\<lparr>st_aborted := (st_tx s0 \<noteq> None)\<rparr> in
     if st_aborted s0 then (Inl pg_failed_tx, s1)
     else if w_fault W k then (Inl DriverError, dead)
     else (case q (case st_tx s0 of Some t \<Rightarrow> t | None \<Rightarrow> w_dbnow W k) (st_db s0) of
         Inl e \<Rightarrow> (Inl e, dead)
       | Inr (a, d) \<Rightarrow> (Inr a, s1\<lparr>st_db := d\<rparr>)))"

text \<open>\<open>inTx\<close> around a closure that also assigns variables of its caller (\<open>'o\<close>): the outputs
  survive a rollback, the database does not.\<close>

definition in_tx_out ::
    "world \<Rightarrow> 'o \<Rightarrow> (session \<Rightarrow> ('o \<times> go_error option) \<times> session) \<Rightarrow> session
      \<Rightarrow> ('o \<times> go_error option) \<times> session" where
  "in_tx_out W zero fn s =
    (case st_tx s of
       Some _ \<Rightarrow> fn s
     | None \<Rightarrow>
        (let s0 = settle W s; k = st_ticks s0; s1 = s0\<lparr>st_ticks := Suc k\<rparr> in
         if w_fault W k then ((zero, Some (Wrapped ''begin: '' DriverError '''')), s1)
         else
           (case fn (s1\<lparr>st_tx := Some (w_dbnow W k), st_aborted := False\<rparr>) of
              ((out, Some e), s2) \<Rightarrow>
                ((out, Some e), s2\<lparr>st_db := st_db s1, st_tx := None, st_aborted := False\<rparr>)
            | ((out, None), s2) \<Rightarrow>
                (let done = s2\<lparr>st_ticks := Suc (st_ticks s2), st_tx := None, st_aborted := False\<rparr> in
                 if st_aborted s2 then
                   ((out, Some (Wrapped ''commit: '' (ErrText ''commit unexpectedly resulted in rollback'') '''')),
                    done\<lparr>st_db := st_db s1\<rparr>)
                 else if w_fault W (st_ticks s2) then
                   ((out, Some (Wrapped ''commit: '' DriverError '''')), done\<lparr>st_db := st_db s1\<rparr>)
                 else ((out, None), done)))))"

text \<open>\<open>InTx\<close> for a closure whose result is only used when it succeeds.\<close>

definition in_tx :: "world \<Rightarrow> 'a go \<Rightarrow> 'a go" where
  "in_tx W m s =
    (case in_tx_out W None
        (\<lambda>s. case m s of (Inl e, s') \<Rightarrow> ((None, Some e), s') | (Inr a, s') \<Rightarrow> ((Some a, None), s')) s of
       ((_, Some e), s') \<Rightarrow> (Inl e, s')
     | ((Some a, None), s') \<Rightarrow> (Inr a, s')
     | ((None, None), s') \<Rightarrow> (Inl DriverError, s'))"

section \<open>Reasoning about outcomes\<close>

definition wp :: "'a go \<Rightarrow> ('a \<Rightarrow> session \<Rightarrow> bool) \<Rightarrow> (go_error \<Rightarrow> session \<Rightarrow> bool) \<Rightarrow> session \<Rightarrow> bool" where
  "wp m Q E s = (case m s of (Inl e, s') \<Rightarrow> E e s' | (Inr a, s') \<Rightarrow> Q a s')"

lemma wp_ret [go_wp, simp]: "wp (ret a) Q E s = Q a s"
  by (simp add: wp_def ret_def)

lemma wp_throw [go_wp, simp]: "wp (throw e) Q E s = E e s"
  by (simp add: wp_def throw_def)

lemma wp_bind [go_wp, simp]: "wp (bind m f) Q E s = wp m (\<lambda>a. wp (f a) Q E) E s"
  by (auto simp: wp_def bind_def split: prod.splits sum.splits)

lemma wp_check [go_wp, simp]: "wp (check v) Q E s = (case v of None \<Rightarrow> Q () s | Some e \<Rightarrow> E e s)"
  by (auto simp: check_def split: option.splits)

lemma wp_attempt [go_wp, simp]: "wp (attempt m) Q E s = wp m (\<lambda>a. Q (Inr a)) (\<lambda>e. Q (Inl e)) s"
  by (auto simp: wp_def attempt_def split: prod.splits sum.splits)

lemma wp_wrapping [go_wp, simp]: "wp (wrapping pre m) Q E s = wp m Q (\<lambda>e. E (Wrapped pre e '''')) s"
  by (auto simp: wp_def wrapping_def split: prod.splits sum.splits)

lemma wp_gets [go_wp, simp]: "wp (gets f) Q E s = Q (f s) s"
  by (simp add: wp_def gets_def)

lemma wp_clock [go_wp, simp]: "wp (clock W) Q E s = Q (w_now W (st_ticks s)) s"
  by (simp add: clock_def)

lemma wp_new_id [go_wp, simp]:
  "wp (new_id W) Q E s = Q (w_newid W (st_ids s)) (s\<lparr>st_ids := Suc (st_ids s)\<rparr>)"
  by (simp add: wp_def new_id_def)

lemma wp_send_mail [go_wp, simp]:
  "wp (send_mail W m) Q E s =
    (let s' = s\<lparr>st_ticks := Suc (st_ticks s), st_mail := st_mail s @ [m]\<rparr> in
     case w_send W (st_ticks s) m of None \<Rightarrow> Q () s' | Some e \<Rightarrow> E e s')"
  by (simp add: wp_def send_mail_def Let_def split: option.splits)

lemma wp_mono:
  assumes "wp m Q E s" and "\<And>a t. Q a t \<Longrightarrow> Q' a t" and "\<And>e t. E e t \<Longrightarrow> E' e t"
  shows "wp m Q' E' s"
  using assms by (auto simp: wp_def split: prod.splits sum.splits)

lemma wp_trivial [simp]: "wp m (\<lambda>_ _. True) (\<lambda>_ _. True) s"
  by (auto simp: wp_def split: prod.splits sum.splits)

lemma wp_conj: "wp m Q E s \<Longrightarrow> wp m Q' E' s \<Longrightarrow> wp m (\<lambda>a t. Q a t \<and> Q' a t) (\<lambda>e t. E e t \<and> E' e t) s"
  by (auto simp: wp_def split: prod.splits sum.splits)

text \<open>From a weakest precondition to a run.\<close>

lemma wp_Inr: "wp m Q E s \<Longrightarrow> m s = (Inr a, t) \<Longrightarrow> Q a t"
  by (simp add: wp_def)

lemma wp_Inl: "wp m Q E s \<Longrightarrow> m s = (Inl e, t) \<Longrightarrow> E e t"
  by (simp add: wp_def)

lemma wp_result: "wp m (\<lambda>a t. m s = (Inr a, t)) (\<lambda>e t. m s = (Inl e, t)) s"
  by (auto simp: wp_def split: prod.splits sum.splits)

text \<open>A statement inside a transaction, on the database alone.\<close>

lemma wp_stmt:
  "wp (stmt W q) Q E s =
    (let s0 = settle W s; s1 = s0\<lparr>st_ticks := Suc (st_ticks s0)\<rparr>;
         dead = s1\<lparr>st_aborted := (st_tx s0 \<noteq> None)\<rparr> in
     if st_aborted s0 then E pg_failed_tx s1
     else if w_fault W (st_ticks s0) then E DriverError dead
     else (case q (case st_tx s0 of Some t \<Rightarrow> t | None \<Rightarrow> w_dbnow W (st_ticks s0)) (st_db s0) of
         Inl e \<Rightarrow> E e dead
       | Inr (a, d) \<Rightarrow> Q a (s1\<lparr>st_db := d\<rparr>)))"
  by (auto simp: wp_def stmt_def Let_def split: sum.splits)

section \<open>Staying inside a relation on databases\<close>

text \<open>\<open>stays R m\<close>: however \<open>m\<close> ends, what it did to the database is a step of R. The rules lift
  the property from statements to whole programs; a rolled back transaction did nothing.\<close>

definition stays :: "(db \<Rightarrow> db \<Rightarrow> bool) \<Rightarrow> 'a go \<Rightarrow> bool" where
  "stays R m = (\<forall>s. R (st_db s) (st_db (snd (m s))))"

definition query_stays :: "(db \<Rightarrow> db \<Rightarrow> bool) \<Rightarrow> 'a query \<Rightarrow> bool" where
  "query_stays R q = (\<forall>now d a d'. q now d = Inr (a, d') \<longrightarrow> R d d')"

text \<open>A rely: a preorder that the committed work of other sessions respects.\<close>

locale rely =
  fixes W :: world and R :: "db \<Rightarrow> db \<Rightarrow> bool"
  assumes R_refl: "R d d"
    and R_trans: "R d1 d2 \<Longrightarrow> R d2 d3 \<Longrightarrow> R d1 d3"
    and R_others: "R d (w_others W k d)"
begin

lemma R_settle: "R (st_db s) (st_db (settle W s))"
  by (simp add: settle_def R_refl R_others)

lemma ret_stays [go_stays]: "stays R (ret a)"
  by (simp add: stays_def ret_def R_refl)

lemma throw_stays [go_stays]: "stays R (throw e)"
  by (simp add: stays_def throw_def R_refl)

lemma gets_stays [go_stays]: "stays R (gets f)"
  by (simp add: stays_def gets_def R_refl)

lemma clock_stays [go_stays]: "stays R (clock W)"
  by (simp add: clock_def gets_stays)

lemma new_id_stays [go_stays]: "stays R (new_id W)"
  by (simp add: stays_def new_id_def R_refl)

lemma send_mail_stays [go_stays]: "stays R (send_mail W m)"
  by (simp add: stays_def send_mail_def R_refl)

lemma check_stays [go_stays]: "stays R (check v)"
  by (simp add: check_def ret_stays throw_stays split: option.splits)

lemma bind_stays [go_stays]:
  assumes "stays R m" and "\<And>a. stays R (f a)"
  shows "stays R (bind m f)"
  unfolding stays_def
proof
  fix s
  obtain r s' where ms: "m s = (r, s')" by fastforce
  have "R (st_db s) (st_db s')" using assms(1) ms by (metis snd_conv stays_def)
  moreover have "R (st_db s') (st_db (snd (f a s')))" for a using assms(2) by (simp add: stays_def)
  ultimately show "R (st_db s) (st_db (snd (bind m f s)))"
    by (cases r) (auto simp: bind_def ms intro: R_trans)
qed

lemma attempt_stays [go_stays]: "stays R m \<Longrightarrow> stays R (attempt m)"
  by (auto simp: stays_def attempt_def split: prod.splits) (metis snd_conv)

lemma wrapping_stays [go_stays]: "stays R m \<Longrightarrow> stays R (wrapping pre m)"
  unfolding stays_def wrapping_def by (auto split: prod.splits sum.splits) (metis snd_conv)+

lemma for_each_stays [go_stays]: "(\<And>x. stays R (body x)) \<Longrightarrow> stays R (for_each xs body)"
  by (induction xs) (auto intro: ret_stays bind_stays)

lemma stmt_stays [go_stays]:
  assumes "query_stays R q"
  shows "stays R (stmt W q)"
  unfolding stays_def
proof
  fix s
  have "R (st_db (settle W s)) d'" if "q now (st_db (settle W s)) = Inr (a, d')" for now a d'
    using assms that by (auto simp: query_stays_def)
  then show "R (st_db s) (st_db (snd (stmt W q s)))"
    using R_settle [of s] by (auto simp: stmt_def Let_def split: sum.splits intro: R_trans)
qed

lemma in_tx_out_stays:
  assumes "\<And>s. R (st_db s) (st_db (snd (fn s)))"
  shows "R (st_db s) (st_db (snd (in_tx_out W z fn s)))"
proof (cases "st_tx s")
  case None
  define s1 where "s1 = (settle W s)\<lparr>st_ticks := Suc (st_ticks (settle W s)),
      st_tx := Some (w_dbnow W (st_ticks (settle W s))), st_aborted := False\<rparr>"
  have "st_db s1 = st_db (settle W s)" by (simp add: s1_def)
  then have "R (st_db (settle W s)) (st_db (snd (fn s1)))" using assms [of s1] by simp
  then show ?thesis
    using R_settle [of s] None
    by (auto simp: in_tx_out_def Let_def s1_def split: prod.splits option.splits intro: R_trans)
qed (use assms in \<open>auto simp: in_tx_out_def\<close>)

lemma in_tx_stays [go_stays]:
  assumes "stays R m"
  shows "stays R (in_tx W m)"
  unfolding stays_def
proof
  fix s
  let ?fn = "\<lambda>s. case m s of (Inl e, s') \<Rightarrow> ((None, Some e), s') | (Inr a, s') \<Rightarrow> ((Some a, None), s')"
  have "R (st_db s) (st_db (snd (?fn s)))" for s
    using assms by (auto simp: stays_def split: prod.splits sum.splits) (metis snd_conv)+
  from in_tx_out_stays [of ?fn s None, OF this]
  show "R (st_db s) (st_db (snd (in_tx W m s)))"
    by (auto simp: in_tx_def split: prod.splits option.splits)
qed

end

text \<open>Reading a relation off a run.\<close>

lemma staysD: "stays R m \<Longrightarrow> m s = (r, s') \<Longrightarrow> R (st_db s) (st_db s')"
  by (metis snd_conv stays_def)

end
