(* ===== verification/Store.thy ===== *)
theory Store
  imports Session
begin

text \<open>
  \<open>internal/store\<close>: the scopes of \<open>scope.go\<close>, the \<open>Repository\<close> interface as a record of
  operations, and \<open>PostgresRepository\<close> as the value \<open>postgres W\<close> of that record. Every SQL text
  of \<open>store.go\<close> is a query on the tables (\<open>q_...\<close>), every method the statement around it with
  its error mapping (\<open>pg_...\<close>).
\<close>

section \<open>Scopes\<close>

record scope =
  restricted :: bool
  scope_customer :: string

definition SystemScope :: scope where
  "SystemScope = \<lparr>restricted = False, scope_customer = ''''\<rparr>"

definition CustomerScope :: "string \<Rightarrow> scope" where
  "CustomerScope customerID = \<lparr>restricted = True, scope_customer = customerID\<rparr>"

datatype row_filter = NoFilter | DenyAll | OnlyCustomer string

definition filterOwn :: "scope \<Rightarrow> row_filter" where
  "filterOwn sc = (if \<not> restricted sc then NoFilter
     else if scope_customer sc = '''' then DenyAll else OnlyCustomer (scope_customer sc))"

text \<open>The predicate \<open>filterOwn\<close> adds to a query on \<open>schedules\<close>.\<close>

fun admits :: "row_filter \<Rightarrow> schedule_row \<Rightarrow> bool" where
  "admits NoFilter r = True"
| "admits DenyAll r = False"
| "admits (OnlyCustomer c) r = (sr_customer_id r = c)"

text \<open>The predicate \<open>filterVia\<close> adds to a query on a table with a \<open>schedule_id\<close>.\<close>

definition filterVia :: "scope \<Rightarrow> db \<Rightarrow> string \<Rightarrow> bool" where
  "filterVia sc d sid = (if \<not> restricted sc then True
     else if scope_customer sc = '''' then False
     else sid \<in> set (map sr_id (filter (\<lambda>r. sr_customer_id r = scope_customer sc) (db_schedules d))))"

section \<open>The interface\<close>

record repository =
  CreateSchedule :: "schedule \<Rightarrow> schedule_item list \<Rightarrow> unit go"
  GetSchedule :: "string \<Rightarrow> scope \<Rightarrow> schedule go"
  GetScheduleByOriginOrderID :: "string \<Rightarrow> schedule go"
  GetScheduleForUpdate :: "string \<Rightarrow> scope \<Rightarrow> schedule go"
  ListSchedulesByCustomer :: "string \<Rightarrow> schedule list go"
  ListActiveSchedules :: "schedule list go"
  ListSchedulesDueToResume :: "date \<Rightarrow> schedule list go"
  ListSchedulesDueToArm :: "date \<Rightarrow> schedule list go"
  ListScheduleItems :: "string \<Rightarrow> scope \<Rightarrow> schedule_item list go"
  UpdateScheduleNextRun :: "string \<Rightarrow> date option \<Rightarrow> unit go"
  CreateOccurrence :: "occurrence \<Rightarrow> unit go"
  ListOccurrences :: "string \<Rightarrow> scope \<Rightarrow> occurrence list go"
  ListPlannedOccurrences :: "string \<Rightarrow> occurrence list go"
  CountFutureplannedOccurrences :: "string \<Rightarrow> date \<Rightarrow> int go"
  MaxSequenceNo :: "string \<Rightarrow> int go"
  AppendEvent :: "schedule_event \<Rightarrow> unit go"
  ListEvents :: "string \<Rightarrow> schedule_event list go"
  EventExistsWithKey :: "string \<Rightarrow> event_type \<Rightarrow> string \<Rightarrow> bool go"
  ClaimNotifiableEvents :: "event_type list \<Rightarrow> int \<Rightarrow> nat \<Rightarrow> notifiable_event list go"
  MarkNotificationSent :: "int \<Rightarrow> int \<Rightarrow> unit go"
  MarkNotificationFailed :: "int \<Rightarrow> string \<Rightarrow> int \<Rightarrow> unit go"
  UpdateScheduleStatus :: "string \<Rightarrow> schedule_status \<Rightarrow> date option \<Rightarrow> unit go"
  UpdateScheduleCadence :: "string \<Rightarrow> int \<Rightarrow> date \<Rightarrow> unit go"
  UpdateOccurrenceStatus :: "string \<Rightarrow> occurrence_status \<Rightarrow> unit go"
  UpdateOccurrenceDate :: "string \<Rightarrow> date \<Rightarrow> unit go"
  CancelUnexecutedOccurrences :: "string \<Rightarrow> int go"
  CancelPlannedOccurrences :: "string \<Rightarrow> int go"
  NextActionableOccurrence :: "string \<Rightarrow> occurrence go"
  NextPlannedOccurrence :: "string \<Rightarrow> occurrence go"
  GetOccurrenceBySequence :: "string \<Rightarrow> int \<Rightarrow> occurrence go"
  LastPlacedOccurrence :: "string \<Rightarrow> occurrence go"
  LatestScheduledDate :: "string \<Rightarrow> date option go"

section \<open>Between rows and entities\<close>

definition isUniqueViolation :: "go_error \<Rightarrow> string \<Rightarrow> bool" where
  "isUniqueViolation err constraint =
    (sublist ''SQLSTATE 23505'' (err_text err) \<and> sublist constraint (err_text err))"

definition datePtr :: "date option \<Rightarrow> int option" where
  "datePtr d = map_option ToTime d"

definition nullStr :: "string \<Rightarrow> string option" where
  "nullStr s = (if s = '''' then None else Some s)"

definition coalesce :: "string option \<Rightarrow> string" where
  "coalesce v = (case v of None \<Rightarrow> '''' | Some s \<Rightarrow> s)"

text \<open>A \<open>numeric(5,2)\<close> column holds hundredths; reading it back gives the nearest float.\<close>

definition numeric_of :: "rat \<Rightarrow> int" where
  "numeric_of x = round_away (x * 100)"

definition float_of_numeric :: "int \<Rightarrow> float64" where
  "float_of_numeric h = Fin (fl (of_int h / 100))"

definition scanSchedule :: "schedule_row \<Rightarrow> schedule" where
  "scanSchedule r =
    \<lparr>s_id = sr_id r, s_customer_id = sr_customer_id r, s_status = sr_status r,
     s_customer_email = sr_customer_email r, s_origin_order_id = sr_origin_order_id r,
     s_interval_days = sr_interval_days r, s_anchor_date = date_of_day (sr_anchor_date r),
     s_next_run_date = map_option date_of_day (sr_next_run_date r), s_timezone = sr_timezone r,
     s_payment_token_ref = coalesce (sr_payment_token_ref r),
     s_shipping_address_id = coalesce (sr_shipping_address_id r),
     s_discount_pct = float_of_numeric (sr_discount_pct r),
     s_paused_until = map_option date_of_day (sr_paused_until r),
     s_created_at = sr_created_at r, s_updated_at = sr_updated_at r\<rparr>"

definition scanOccurrence :: "occurrence_row \<Rightarrow> occurrence" where
  "scanOccurrence r =
    \<lparr>o_id = or_id r, o_schedule_id = or_schedule_id r, o_sequence_no = or_sequence_no r,
     o_scheduled_for = date_of_day (or_scheduled_for r), o_status = or_status r,
     o_order_id = or_order_id r, o_idempotency_key = or_idempotency_key r,
     o_created_at = or_created_at r, o_updated_at = or_updated_at r\<rparr>"

definition scanItem :: "item_row \<Rightarrow> schedule_item" where
  "scanItem r = \<lparr>i_id = ir_id r, i_schedule_id = ir_schedule_id r, i_sku = ir_sku r,
     i_quantity = ir_quantity r, i_created_at = ir_created_at r\<rparr>"

definition scanEvent :: "event_row \<Rightarrow> schedule_event" where
  "scanEvent r = \<lparr>e_id = er_id r, e_schedule_id = er_schedule_id r, e_event_type = er_event_type r,
     e_actor = er_actor r, e_reason_code = er_reason_code r, e_payload = Some (er_payload r),
     e_idempotency_key = er_idempotency_key r, e_created_at = er_created_at r\<rparr>"

definition scanNotifiable :: "event_row \<Rightarrow> notifiable_event" where
  "scanNotifiable r = \<lparr>n_schedule_event_id = er_id r, n_schedule_id = er_schedule_id r,
     n_event_type = er_event_type r, n_reason_code = er_reason_code r,
     n_payload = er_payload r, n_created_at = er_created_at r\<rparr>"

section \<open>Reading statements\<close>

text \<open>A statement with a uuid parameter is rejected unless the text is a uuid.\<close>

definition with_uuid :: "world \<Rightarrow> string \<Rightarrow> (string \<Rightarrow> 'a query) \<Rightarrow> 'a query" where
  "with_uuid W i q now d = (case w_uuid_in W i of None \<Rightarrow> Inl pg_bad_uuid | Some u \<Rightarrow> q u now d)"

definition query :: "(db \<Rightarrow> 'a) \<Rightarrow> 'a query" where
  "query f now d = Inr (f d, d)"

definition one_row :: "string \<Rightarrow> 'a option query \<Rightarrow> world \<Rightarrow> 'a go" where
  "one_row what q W = bind (wrapping what (stmt W q))
     (\<lambda>r. case r of None \<Rightarrow> throw ErrNotFound | Some a \<Rightarrow> ret a)"

definition schedules_where :: "(schedule_row \<Rightarrow> bool) \<Rightarrow> db \<Rightarrow> schedule_row list" where
  "schedules_where p d = filter p (db_schedules d)"

definition occurrences_where :: "string \<Rightarrow> (occurrence_row \<Rightarrow> bool) \<Rightarrow> db \<Rightarrow> occurrence_row list" where
  "occurrences_where sid p d = filter (\<lambda>r. or_schedule_id r = sid \<and> p r) (db_occurrences d)"

definition unexecuted :: "occurrence_row \<Rightarrow> bool" where
  "unexecuted r = (or_status r = OccurrencePlanned \<or> or_status r = OccurrencePending)"

definition planned :: "occurrence_row \<Rightarrow> bool" where
  "planned r = (or_status r = OccurrencePlanned)"

definition by_date :: "occurrence_row \<Rightarrow> int \<times> int" where
  "by_date r = (or_scheduled_for r, or_sequence_no r)"

definition pg_GetSchedule :: "world \<Rightarrow> string \<Rightarrow> scope \<Rightarrow> schedule go" where
  "pg_GetSchedule W i sc = one_row ''get schedule: ''
     (with_uuid W i (\<lambda>u. query (\<lambda>d. map_option scanSchedule
        (find (\<lambda>r. sr_id r = u \<and> admits (filterOwn sc) r) (db_schedules d))))) W"

definition pg_GetScheduleByOriginOrderID :: "world \<Rightarrow> string \<Rightarrow> schedule go" where
  "pg_GetScheduleByOriginOrderID W order = one_row ''get schedule by origin order id: ''
     (query (\<lambda>d. map_option scanSchedule (find (\<lambda>r. sr_origin_order_id r = order) (db_schedules d)))) W"

definition pg_GetScheduleForUpdate :: "world \<Rightarrow> string \<Rightarrow> scope \<Rightarrow> schedule go" where
  "pg_GetScheduleForUpdate W i sc = bind (gets (\<lambda>s. st_tx s = None)) (\<lambda>no_tx.
     if no_tx then throw ErrNoTransaction
     else one_row ''get schedule for update: ''
       (with_uuid W i (\<lambda>u. query (\<lambda>d. map_option scanSchedule
          (find (\<lambda>r. sr_id r = u \<and> admits (filterOwn sc) r) (db_schedules d))))) W)"

definition querySchedules :: "world \<Rightarrow> (db \<Rightarrow> schedule_row list) \<Rightarrow> schedule list go" where
  "querySchedules W f = wrapping ''query schedules: '' (stmt W (query (\<lambda>d. map scanSchedule (f d))))"

definition pg_ListSchedulesByCustomer :: "world \<Rightarrow> string \<Rightarrow> schedule list go" where
  "pg_ListSchedulesByCustomer W c = querySchedules W
     (\<lambda>d. sort_key sr_created_at (schedules_where (\<lambda>r. sr_customer_id r = c) d))"

definition pg_ListActiveSchedules :: "world \<Rightarrow> schedule list go" where
  "pg_ListActiveSchedules W = querySchedules W
     (\<lambda>d. sort_key (\<lambda>r. (sr_next_run_date r, sr_created_at r))
        (schedules_where (\<lambda>r. sr_status r = ScheduleActive) d))"

definition pg_ListSchedulesDueToResume :: "world \<Rightarrow> date \<Rightarrow> schedule list go" where
  "pg_ListSchedulesDueToResume W on = querySchedules W
     (\<lambda>d. sort_key (\<lambda>r. (sr_paused_until r, sr_created_at r))
        (schedules_where (\<lambda>r. sr_status r = SchedulePaused
           \<and> (case sr_paused_until r of None \<Rightarrow> False | Some p \<Rightarrow> p \<le> ToTime (AddDays on 1))) d))"

definition pg_ListSchedulesDueToArm :: "world \<Rightarrow> date \<Rightarrow> schedule list go" where
  "pg_ListSchedulesDueToArm W on = querySchedules W
     (\<lambda>d. sort_key sr_id (schedules_where (\<lambda>r. sr_status r = ScheduleActive
        \<and> sr_id r \<in> set (map or_schedule_id (filter
            (\<lambda>oc. planned oc \<and> or_scheduled_for oc \<le> ToTime (AddDays on (ArmWindowDays + 1)))
            (db_occurrences d)))) d))"

definition pg_ListScheduleItems :: "world \<Rightarrow> string \<Rightarrow> scope \<Rightarrow> schedule_item list go" where
  "pg_ListScheduleItems W i sc = wrapping ''query schedule items: '' (stmt W
     (with_uuid W i (\<lambda>u. query (\<lambda>d. map scanItem (sort_key ir_sku
        (filter (\<lambda>r. ir_schedule_id r = u \<and> filterVia sc d (ir_schedule_id r)) (db_items d)))))))"

definition queryOccurrences ::
    "world \<Rightarrow> string \<Rightarrow> (string \<Rightarrow> db \<Rightarrow> occurrence_row list) \<Rightarrow> occurrence list go" where
  "queryOccurrences W i f = wrapping ''query occurrences: ''
     (stmt W (with_uuid W i (\<lambda>u. query (\<lambda>d. map scanOccurrence (f u d)))))"

definition pg_ListOccurrences :: "world \<Rightarrow> string \<Rightarrow> scope \<Rightarrow> occurrence list go" where
  "pg_ListOccurrences W i sc = queryOccurrences W i
     (\<lambda>u d. sort_key or_sequence_no (occurrences_where u (\<lambda>r. filterVia sc d (or_schedule_id r)) d))"

definition pg_ListPlannedOccurrences :: "world \<Rightarrow> string \<Rightarrow> occurrence list go" where
  "pg_ListPlannedOccurrences W i = queryOccurrences W i
     (\<lambda>u d. sort_key or_sequence_no (occurrences_where u planned d))"

definition pg_CountFutureplannedOccurrences :: "world \<Rightarrow> string \<Rightarrow> date \<Rightarrow> int go" where
  "pg_CountFutureplannedOccurrences W i after = wrapping ''count planned occurrences: ''
     (stmt W (with_uuid W i (\<lambda>u. query (\<lambda>d.
        int (length (occurrences_where u (\<lambda>r. planned r \<and> ToTime after < or_scheduled_for r) d))))))"

text \<open>\<open>max(...)\<close> of a possibly empty set of rows.\<close>

definition sql_max :: "int list \<Rightarrow> int option" where
  "sql_max ns = (if ns = [] then None else Some (Max (set ns)))"

definition pg_MaxSequenceNo :: "world \<Rightarrow> string \<Rightarrow> int go" where
  "pg_MaxSequenceNo W i = bind (wrapping ''max sequence_no: ''
     (stmt W (with_uuid W i (\<lambda>u. query (\<lambda>d.
        sql_max (map or_sequence_no (occurrences_where u (\<lambda>_. True) d)))))))
     (\<lambda>n. ret (case n of None \<Rightarrow> 0 | Some k \<Rightarrow> k))"

definition pg_ListEvents :: "world \<Rightarrow> string \<Rightarrow> schedule_event list go" where
  "pg_ListEvents W i = wrapping ''query events: '' (stmt W (with_uuid W i (\<lambda>u. query (\<lambda>d.
     map scanEvent (sort_key er_id (filter (\<lambda>e. er_schedule_id e = u) (db_events d)))))))"

definition pg_EventExistsWithKey :: "world \<Rightarrow> string \<Rightarrow> event_type \<Rightarrow> string \<Rightarrow> bool go" where
  "pg_EventExistsWithKey W i t k = wrapping ''check idempotency key: ''
     (stmt W (with_uuid W i (\<lambda>u. query (\<lambda>d.
        list_ex (\<lambda>e. event_key e = (u, t, Some k)) (db_events d)))))"

definition queryOneOccurrence ::
    "world \<Rightarrow> string \<Rightarrow> (string \<Rightarrow> db \<Rightarrow> occurrence_row list) \<Rightarrow> occurrence go" where
  "queryOneOccurrence W i f = bind (queryOccurrences W i f)
     (\<lambda>out. case out of [] \<Rightarrow> throw ErrNotFound | oc # _ \<Rightarrow> ret oc)"

text \<open>\<open>ORDER BY ... LIMIT 1\<close>.\<close>

definition limit_one :: "('r \<Rightarrow> 'k :: linorder) \<Rightarrow> 'r list \<Rightarrow> 'r list" where
  "limit_one key rs = (case first_by key rs of None \<Rightarrow> [] | Some r \<Rightarrow> [r])"

definition pg_NextActionableOccurrence :: "world \<Rightarrow> string \<Rightarrow> occurrence go" where
  "pg_NextActionableOccurrence W i =
     queryOneOccurrence W i (\<lambda>u d. limit_one by_date (occurrences_where u unexecuted d))"

definition pg_NextPlannedOccurrence :: "world \<Rightarrow> string \<Rightarrow> occurrence go" where
  "pg_NextPlannedOccurrence W i =
     queryOneOccurrence W i (\<lambda>u d. limit_one by_date (occurrences_where u planned d))"

definition pg_GetOccurrenceBySequence :: "world \<Rightarrow> string \<Rightarrow> int \<Rightarrow> occurrence go" where
  "pg_GetOccurrenceBySequence W i n =
     queryOneOccurrence W i (\<lambda>u d. occurrences_where u (\<lambda>r. or_sequence_no r = n) d)"

definition pg_LastPlacedOccurrence :: "world \<Rightarrow> string \<Rightarrow> occurrence go" where
  "pg_LastPlacedOccurrence W i = queryOneOccurrence W i
     (\<lambda>u d. limit_one (\<lambda>r. (- or_scheduled_for r, - or_sequence_no r))
        (occurrences_where u (\<lambda>r. or_status r = OccurrencePlaced) d))"

definition pg_LatestScheduledDate :: "world \<Rightarrow> string \<Rightarrow> date option go" where
  "pg_LatestScheduledDate W i = bind (wrapping ''latest scheduled date: ''
     (stmt W (with_uuid W i (\<lambda>u. query (\<lambda>d.
        sql_max (map or_scheduled_for (occurrences_where u unexecuted d)))))))
     (\<lambda>t. ret (map_option date_of_day t))"

section \<open>Writing statements\<close>

definition q_insert_schedule :: "world \<Rightarrow> schedule \<Rightarrow> unit query" where
  "q_insert_schedule W s now d =
    (case w_uuid_in W (s_id s) of
       None \<Rightarrow> Inl pg_bad_uuid
     | Some u \<Rightarrow>
        (case s_discount_pct s of
           Fin x \<Rightarrow>
             (case insert_schedule
                 \<lparr>sr_id = u, sr_customer_id = s_customer_id s, sr_customer_email = s_customer_email s,
                  sr_status = s_status s, sr_interval_days = s_interval_days s,
                  sr_anchor_date = ToTime (s_anchor_date s), sr_next_run_date = datePtr (s_next_run_date s),
                  sr_timezone = s_timezone s, sr_payment_token_ref = nullStr (s_payment_token_ref s),
                  sr_shipping_address_id = nullStr (s_shipping_address_id s),
                  sr_discount_pct = numeric_of x, sr_paused_until = datePtr (s_paused_until s),
                  sr_origin_order_id = s_origin_order_id s, sr_created_at = now, sr_updated_at = now\<rparr> d of
                Inl e \<Rightarrow> Inl e | Inr d' \<Rightarrow> Inr ((), d'))
         | _ \<Rightarrow> Inl pg_int_range))"

definition q_insert_item :: "world \<Rightarrow> string \<Rightarrow> schedule_item \<Rightarrow> unit query" where
  "q_insert_item W sid it now d =
    (case w_uuid_in W (i_id it) of
       None \<Rightarrow> Inl pg_bad_uuid
     | Some u \<Rightarrow>
        (case w_uuid_in W sid of
           None \<Rightarrow> Inl pg_bad_uuid
         | Some v \<Rightarrow>
            (case insert_item \<lparr>ir_id = u, ir_schedule_id = v, ir_sku = i_sku it,
                 ir_quantity = i_quantity it, ir_created_at = now\<rparr> d of
               Inl e \<Rightarrow> Inl e | Inr d' \<Rightarrow> Inr ((), d'))))"

definition q_insert_occurrence :: "world \<Rightarrow> occurrence \<Rightarrow> unit query" where
  "q_insert_occurrence W oc now d =
    (case w_uuid_in W (o_id oc) of
       None \<Rightarrow> Inl pg_bad_uuid
     | Some u \<Rightarrow>
        (case w_uuid_in W (o_schedule_id oc) of
           None \<Rightarrow> Inl pg_bad_uuid
         | Some v \<Rightarrow>
            (case insert_occurrence \<lparr>or_id = u, or_schedule_id = v, or_sequence_no = o_sequence_no oc,
                 or_scheduled_for = ToTime (o_scheduled_for oc), or_status = o_status oc,
                 or_order_id = o_order_id oc, or_idempotency_key = o_idempotency_key oc,
                 or_created_at = now, or_updated_at = now\<rparr> d of
               Inl e \<Rightarrow> Inl e | Inr d' \<Rightarrow> Inr ((), d'))))"

definition q_append_event :: "world \<Rightarrow> schedule_event \<Rightarrow> unit query" where
  "q_append_event W e now d =
    (case w_uuid_in W (e_schedule_id e) of
       None \<Rightarrow> Inl pg_bad_uuid
     | Some u \<Rightarrow>
        (case insert_event \<lparr>er_id = 0, er_schedule_id = u, er_event_type = e_event_type e,
             er_actor = e_actor e, er_reason_code = e_reason_code e,
             er_payload = (case e_payload e of None \<Rightarrow> JObj [] | Some p \<Rightarrow> p),
             er_idempotency_key = e_idempotency_key e, er_created_at = now\<rparr> d of
           Inl err \<Rightarrow> Inl err | Inr d' \<Rightarrow> Inr ((), d')))"

definition q_next_run :: "int option \<Rightarrow> string \<Rightarrow> nat query" where
  "q_next_run next u now = update_schedules (\<lambda>r. sr_id r = u)
     (\<lambda>r. r\<lparr>sr_next_run_date := next, sr_updated_at := now\<rparr>)"

definition q_status :: "schedule_status \<Rightarrow> int option \<Rightarrow> string \<Rightarrow> nat query" where
  "q_status status until u now = update_schedules (\<lambda>r. sr_id r = u)
     (\<lambda>r. r\<lparr>sr_status := status, sr_paused_until := until, sr_updated_at := now\<rparr>)"

definition q_cadence :: "int \<Rightarrow> int \<Rightarrow> string \<Rightarrow> nat query" where
  "q_cadence days anchor u now = update_schedules (\<lambda>r. sr_id r = u)
     (\<lambda>r. r\<lparr>sr_interval_days := days, sr_anchor_date := anchor, sr_updated_at := now\<rparr>)"

definition q_occurrence_status :: "occurrence_status \<Rightarrow> string \<Rightarrow> nat query" where
  "q_occurrence_status status u now = update_occurrences (\<lambda>r. or_id r = u \<and> or_order_id r = None)
     (\<lambda>r. r\<lparr>or_status := status, or_updated_at := now\<rparr>)"

definition q_occurrence_date :: "int \<Rightarrow> string \<Rightarrow> nat query" where
  "q_occurrence_date day u now = update_occurrences (\<lambda>r. or_id r = u \<and> unexecuted r)
     (\<lambda>r. r\<lparr>or_scheduled_for := day, or_updated_at := now\<rparr>)"

definition q_cancel :: "occurrence_status list \<Rightarrow> string \<Rightarrow> nat query" where
  "q_cancel statuses u now = update_occurrences
     (\<lambda>r. or_schedule_id r = u \<and> or_status r \<in> set statuses \<and> or_order_id r = None)
     (\<lambda>r. r\<lparr>or_status := OccurrenceCanceled, or_updated_at := now\<rparr>)"

text \<open>The claim of \<open>ClaimNotifiableEvents\<close>: the events of the wanted types with no log row, or with
  a pending one past the timeout, in id order and up to the limit; each gets its attempt.\<close>

definition claimable :: "event_type list \<Rightarrow> int \<Rightarrow> int \<Rightarrow> db \<Rightarrow> event_row \<Rightarrow> bool" where
  "claimable types timeout now d e =
    (er_event_type e \<in> set types
     \<and> (case find (\<lambda>n. nr_schedule_event_id n = er_id e) (db_notifications d) of
          None \<Rightarrow> True
        | Some n \<Rightarrow> nr_status n = NotificationPending \<and> nr_last_attempt_at n < now - timeout))"

definition claim_one :: "int \<Rightarrow> event_row \<Rightarrow> notification_row list \<Rightarrow> notification_row list" where
  "claim_one now e ns =
    (if er_id e \<in> set (map nr_schedule_event_id ns)
     then update_where (\<lambda>n. nr_schedule_event_id n = er_id e)
            (\<lambda>n. n\<lparr>nr_attempts := nr_attempts n + 1, nr_last_attempt_at := now\<rparr>) ns
     else ns @ [\<lparr>nr_schedule_event_id = er_id e, nr_status = NotificationPending, nr_attempts = 1,
                nr_last_attempt_at = now, nr_sent_at = None, nr_last_error = None\<rparr>])"

definition q_claim :: "event_type list \<Rightarrow> int \<Rightarrow> nat \<Rightarrow> notifiable_event list query" where
  "q_claim types timeout limit now d =
    (let es = take limit (sort_key er_id (filter (claimable types timeout now d) (db_events d)))
     in Inr (map scanNotifiable es, d\<lparr>db_notifications := fold (claim_one now) es (db_notifications d)\<rparr>))"

definition q_mark_sent :: "int \<Rightarrow> int \<Rightarrow> nat query" where
  "q_mark_sent i sentAt now d =
    Inr (length (filter (\<lambda>n. nr_schedule_event_id n = i) (db_notifications d)),
         d\<lparr>db_notifications := update_where (\<lambda>n. nr_schedule_event_id n = i)
             (\<lambda>n. n\<lparr>nr_status := NotificationSent, nr_sent_at := Some sentAt, nr_last_error := None\<rparr>)
             (db_notifications d)\<rparr>)"

definition q_mark_failed :: "int \<Rightarrow> string \<Rightarrow> int \<Rightarrow> nat query" where
  "q_mark_failed i errMsg maxAttempts now d =
    Inr (length (filter (\<lambda>n. nr_schedule_event_id n = i) (db_notifications d)),
         d\<lparr>db_notifications := update_where (\<lambda>n. nr_schedule_event_id n = i)
             (\<lambda>n. n\<lparr>nr_last_error := Some errMsg,
                   nr_status := (if maxAttempts \<le> nr_attempts n then NotificationFailed
                                 else NotificationPending)\<rparr>)
             (db_notifications d)\<rparr>)"

section \<open>The methods that write\<close>

definition checkAffected :: "nat \<Rightarrow> unit go" where
  "checkAffected n = (if n = 0 then throw ErrNotFound else ret ())"

definition pg_CreateSchedule :: "world \<Rightarrow> schedule \<Rightarrow> schedule_item list \<Rightarrow> unit go" where
  "pg_CreateSchedule W s items =
    bind (check (ValidateInterval (s_interval_days s))) (\<lambda>_.
    (case NormalizeDiscountPct (s_discount_pct s) of
       Inl e \<Rightarrow> throw e
     | Inr discountPct \<Rightarrow>
        (case w_load_location W (s_timezone s) of
           None \<Rightarrow> throw (Wrapped (''invalid timezone '' @ s_timezone s @ '': '') (ErrText ''unknown time zone'') '''')
         | Some _ \<Rightarrow>
            in_tx W (bind (attempt (stmt W (q_insert_schedule W (s\<lparr>s_discount_pct := discountPct\<rparr>))))
              (\<lambda>r. case r of
                 Inl e \<Rightarrow> if isUniqueViolation e ''schedules_origin_order_id_unique''
                          then throw ErrDuplicateSchedule
                          else throw (Wrapped ''insert schedule: '' e '''')
               | Inr _ \<Rightarrow> for_each items (\<lambda>it.
                   wrapping (''insert schedule item '' @ i_sku it @ '': '') (stmt W (q_insert_item W (s_id s) it))))))))"

definition pg_UpdateScheduleNextRun :: "world \<Rightarrow> string \<Rightarrow> date option \<Rightarrow> unit go" where
  "pg_UpdateScheduleNextRun W i next =
     bind (wrapping ''update next_run_date: '' (stmt W (with_uuid W i (q_next_run (datePtr next)))))
       checkAffected"

definition pg_CreateOccurrence :: "world \<Rightarrow> occurrence \<Rightarrow> unit go" where
  "pg_CreateOccurrence W oc = bind (attempt (stmt W (q_insert_occurrence W oc)))
     (\<lambda>r. case r of
        Inr _ \<Rightarrow> ret ()
      | Inl e \<Rightarrow> if isUniqueViolation e ''occurrences_idempotency_key_unique''
                    \<or> isUniqueViolation e ''occurrences_sequence_unique''
                 then throw ErrDuplicateOccurrence
                 else throw (Wrapped ''insert occurrence: '' e ''''))"

definition pg_AppendEvent :: "world \<Rightarrow> schedule_event \<Rightarrow> unit go" where
  "pg_AppendEvent W e = wrapping ''append event: '' (stmt W (q_append_event W e))"

definition pg_ClaimNotifiableEvents :: "world \<Rightarrow> event_type list \<Rightarrow> int \<Rightarrow> nat \<Rightarrow> notifiable_event list go" where
  "pg_ClaimNotifiableEvents W types timeout limit =
     wrapping ''claim notifiable events: '' (stmt W (q_claim types timeout limit))"

definition pg_MarkNotificationSent :: "world \<Rightarrow> int \<Rightarrow> int \<Rightarrow> unit go" where
  "pg_MarkNotificationSent W i sentAt =
     bind (wrapping ''mark notification sent: '' (stmt W (q_mark_sent i sentAt))) checkAffected"

definition pg_MarkNotificationFailed :: "world \<Rightarrow> int \<Rightarrow> string \<Rightarrow> int \<Rightarrow> unit go" where
  "pg_MarkNotificationFailed W i errMsg maxAttempts =
     bind (wrapping ''mark notification failed: '' (stmt W (q_mark_failed i errMsg maxAttempts))) checkAffected"

definition pg_UpdateScheduleStatus :: "world \<Rightarrow> string \<Rightarrow> schedule_status \<Rightarrow> date option \<Rightarrow> unit go" where
  "pg_UpdateScheduleStatus W i status pausedUntil =
     (if status \<noteq> SchedulePaused \<and> pausedUntil \<noteq> None
      then throw (ErrText (''paused_until is only valid on a paused schedule, got status '' @ schedule_status_text status))
      else bind (wrapping ''update schedule status: ''
             (stmt W (with_uuid W i (q_status status (datePtr pausedUntil))))) checkAffected)"

definition pg_UpdateScheduleCadence :: "world \<Rightarrow> string \<Rightarrow> int \<Rightarrow> date \<Rightarrow> unit go" where
  "pg_UpdateScheduleCadence W i intervalDays anchor =
     bind (check (ValidateInterval intervalDays)) (\<lambda>_.
     bind (wrapping ''update schedule cadence: ''
             (stmt W (with_uuid W i (q_cadence intervalDays (ToTime anchor))))) checkAffected)"

definition pg_UpdateOccurrenceStatus :: "world \<Rightarrow> string \<Rightarrow> occurrence_status \<Rightarrow> unit go" where
  "pg_UpdateOccurrenceStatus W i status =
     bind (wrapping ''update occurrence status: '' (stmt W (with_uuid W i (q_occurrence_status status))))
       checkAffected"

definition pg_UpdateOccurrenceDate :: "world \<Rightarrow> string \<Rightarrow> date \<Rightarrow> unit go" where
  "pg_UpdateOccurrenceDate W i scheduledFor =
     bind (wrapping ''update occurrence date: ''
             (stmt W (with_uuid W i (q_occurrence_date (ToTime scheduledFor))))) checkAffected"

definition cancelOccurrences :: "world \<Rightarrow> string \<Rightarrow> occurrence_status list \<Rightarrow> int go" where
  "cancelOccurrences W i statuses =
     bind (wrapping ''cancel occurrences: '' (stmt W (with_uuid W i (q_cancel statuses)))) (\<lambda>n. ret (int n))"

definition pg_CancelUnexecutedOccurrences :: "world \<Rightarrow> string \<Rightarrow> int go" where
  "pg_CancelUnexecutedOccurrences W i = cancelOccurrences W i [OccurrencePlanned, OccurrencePending]"

definition pg_CancelPlannedOccurrences :: "world \<Rightarrow> string \<Rightarrow> int go" where
  "pg_CancelPlannedOccurrences W i = cancelOccurrences W i [OccurrencePlanned]"

section \<open>PostgresRepository\<close>

definition postgres :: "world \<Rightarrow> repository" where
  "postgres W =
    \<lparr>CreateSchedule = pg_CreateSchedule W, GetSchedule = pg_GetSchedule W,
     GetScheduleByOriginOrderID = pg_GetScheduleByOriginOrderID W,
     GetScheduleForUpdate = pg_GetScheduleForUpdate W,
     ListSchedulesByCustomer = pg_ListSchedulesByCustomer W,
     ListActiveSchedules = pg_ListActiveSchedules W,
     ListSchedulesDueToResume = pg_ListSchedulesDueToResume W,
     ListSchedulesDueToArm = pg_ListSchedulesDueToArm W,
     ListScheduleItems = pg_ListScheduleItems W,
     UpdateScheduleNextRun = pg_UpdateScheduleNextRun W,
     CreateOccurrence = pg_CreateOccurrence W, ListOccurrences = pg_ListOccurrences W,
     ListPlannedOccurrences = pg_ListPlannedOccurrences W,
     CountFutureplannedOccurrences = pg_CountFutureplannedOccurrences W,
     MaxSequenceNo = pg_MaxSequenceNo W, AppendEvent = pg_AppendEvent W,
     ListEvents = pg_ListEvents W, EventExistsWithKey = pg_EventExistsWithKey W,
     ClaimNotifiableEvents = pg_ClaimNotifiableEvents W,
     MarkNotificationSent = pg_MarkNotificationSent W,
     MarkNotificationFailed = pg_MarkNotificationFailed W,
     UpdateScheduleStatus = pg_UpdateScheduleStatus W,
     UpdateScheduleCadence = pg_UpdateScheduleCadence W,
     UpdateOccurrenceStatus = pg_UpdateOccurrenceStatus W,
     UpdateOccurrenceDate = pg_UpdateOccurrenceDate W,
     CancelUnexecutedOccurrences = pg_CancelUnexecutedOccurrences W,
     CancelPlannedOccurrences = pg_CancelPlannedOccurrences W,
     NextActionableOccurrence = pg_NextActionableOccurrence W,
     NextPlannedOccurrence = pg_NextPlannedOccurrence W,
     GetOccurrenceBySequence = pg_GetOccurrenceBySequence W,
     LastPlacedOccurrence = pg_LastPlacedOccurrence W,
     LatestScheduledDate = pg_LatestScheduledDate W\<rparr>"

lemma postgres_sel [simp]:
  "CreateSchedule (postgres W) = pg_CreateSchedule W"
  "GetSchedule (postgres W) = pg_GetSchedule W"
  "GetScheduleByOriginOrderID (postgres W) = pg_GetScheduleByOriginOrderID W"
  "GetScheduleForUpdate (postgres W) = pg_GetScheduleForUpdate W"
  "ListSchedulesByCustomer (postgres W) = pg_ListSchedulesByCustomer W"
  "ListActiveSchedules (postgres W) = pg_ListActiveSchedules W"
  "ListSchedulesDueToResume (postgres W) = pg_ListSchedulesDueToResume W"
  "ListSchedulesDueToArm (postgres W) = pg_ListSchedulesDueToArm W"
  "ListScheduleItems (postgres W) = pg_ListScheduleItems W"
  "UpdateScheduleNextRun (postgres W) = pg_UpdateScheduleNextRun W"
  "CreateOccurrence (postgres W) = pg_CreateOccurrence W"
  "ListOccurrences (postgres W) = pg_ListOccurrences W"
  "ListPlannedOccurrences (postgres W) = pg_ListPlannedOccurrences W"
  "CountFutureplannedOccurrences (postgres W) = pg_CountFutureplannedOccurrences W"
  "MaxSequenceNo (postgres W) = pg_MaxSequenceNo W"
  "AppendEvent (postgres W) = pg_AppendEvent W"
  "ListEvents (postgres W) = pg_ListEvents W"
  "EventExistsWithKey (postgres W) = pg_EventExistsWithKey W"
  "ClaimNotifiableEvents (postgres W) = pg_ClaimNotifiableEvents W"
  "MarkNotificationSent (postgres W) = pg_MarkNotificationSent W"
  "MarkNotificationFailed (postgres W) = pg_MarkNotificationFailed W"
  "UpdateScheduleStatus (postgres W) = pg_UpdateScheduleStatus W"
  "UpdateScheduleCadence (postgres W) = pg_UpdateScheduleCadence W"
  "UpdateOccurrenceStatus (postgres W) = pg_UpdateOccurrenceStatus W"
  "UpdateOccurrenceDate (postgres W) = pg_UpdateOccurrenceDate W"
  "CancelUnexecutedOccurrences (postgres W) = pg_CancelUnexecutedOccurrences W"
  "CancelPlannedOccurrences (postgres W) = pg_CancelPlannedOccurrences W"
  "NextActionableOccurrence (postgres W) = pg_NextActionableOccurrence W"
  "NextPlannedOccurrence (postgres W) = pg_NextPlannedOccurrence W"
  "GetOccurrenceBySequence (postgres W) = pg_GetOccurrenceBySequence W"
  "LastPlacedOccurrence (postgres W) = pg_LastPlacedOccurrence W"
  "LatestScheduledDate (postgres W) = pg_LatestScheduledDate W"
  by (simp_all add: postgres_def)

end
