(* ===== verification/Dates.thy ===== *)
theory Dates
  imports Transitions Store
begin

text \<open>
  What the date arithmetic, the inputs and the transition table promise, stated on the functions
  of \<open>internal/domain\<close> alone.
\<close>

section \<open>The rhythm of a schedule\<close>

lemma AddDays_iterated: "((\<lambda>d. AddDays d n) ^^ k) a = (if k = 0 then a else AddDays a (n * int k))"
  by (induction k) (auto simp: AddDays_AddDays algebra_simps)

text \<open>The date of occurrence k is what counting interval by interval from the anchor gives: the
  closed formula does not drift, and consecutive occurrences lie exactly one interval apart.\<close>

theorem occurrence_dates_do_not_drift:
  assumes "ValidateInterval n = None" and "1 \<le> k"
  shows "OccurrenceDate anchor n (int k) = Inr (((\<lambda>d. AddDays d n) ^^ k) anchor)"
  using assms by (auto simp: OccurrenceDate_Inr AddDays_iterated ValidateInterval_None)

lemma occurrence_dates_do_not_drift_witness:
  "OccurrenceDate (Date 2024 2 29) 30 (int 2) = Inr (((\<lambda>d. AddDays d 30) ^^ 2) (Date 2024 2 29))
     \<and> ((\<lambda>d. AddDays d 30) ^^ 2) (Date 2024 2 29) = Date 2024 4 29"
proof -
  have "AddDays (AddDays (Date 2024 2 29) 30) 30 = Date 2024 4 29" "ValidateInterval 30 = None" by code_simp+
  then show ?thesis
    using occurrence_dates_do_not_drift [of 30 2 "Date 2024 2 29"] by (simp add: numeral_2_eq_2)
qed

text \<open>C25. While the date asked about is at most 106751 days after the anchor, the next occurrence
  is strictly after it, has the date of its own number, and no earlier occurrence is after it.\<close>

theorem next_occurrence_is_the_first_after:
  assumes "ValidateInterval n = None" and "valid_date after" and "day_of after - day_of anchor \<le> 106751"
  shows "\<exists>k d. NextOccurrenceAfter anchor n after = Inr (k, d) \<and> 1 \<le> k
     \<and> OccurrenceDate anchor n k = Inr d \<and> After d after
     \<and> (\<forall>j e. 1 \<le> j \<and> j < k \<and> OccurrenceDate anchor n j = Inr e \<longrightarrow> \<not> After e after)"
proof -
  let ?e = "day_of after - day_of anchor"
  define k where "k = (if ?e < 0 then 1 else ?e div n + 1)"
  have n: "7 \<le> n" "n \<le> 180" using assms(1) by (simp_all add: ValidateInterval_None)
  have k: "1 \<le> k" using n by (simp add: k_def pos_imp_zdiv_nonneg_iff)
  have "?e < n * k" using n first_multiple_after(1) [of n ?e] by (auto simp: k_def)
  moreover have "n * j \<le> ?e" if "1 \<le> j" "j < k" for j
  proof -
    have "n * j \<le> n * (?e div n)" using that n by (intro mult_left_mono) (auto simp: k_def split: if_splits)
    with first_multiple_after(2) [of n ?e] n show ?thesis by linarith
  qed
  moreover have "NextOccurrenceAfter anchor n after = Inr (k, AddDays anchor (n * k))"
    using NextOccurrenceAfter_near [OF n assms(2,3)] by (simp add: k_def)
  ultimately show ?thesis
    using n k assms(2) by (auto simp: OccurrenceDate_Inr After_iff not_less algebra_simps)
qed

lemma next_occurrence_is_the_first_after_witness:
  "\<exists>k d. NextOccurrenceAfter (Date 2024 1 31) 30 (Date 2024 3 1) = Inr (k, d) \<and> 1 \<le> k
     \<and> OccurrenceDate (Date 2024 1 31) 30 k = Inr d \<and> After d (Date 2024 3 1)
     \<and> (\<forall>j e. 1 \<le> j \<and> j < k \<and> OccurrenceDate (Date 2024 1 31) 30 j = Inr e \<longrightarrow> \<not> After e (Date 2024 3 1))"
proof (rule next_occurrence_is_the_first_after)
  show "ValidateInterval 30 = None" "valid_date (Date 2024 3 1)"
    "day_of (Date 2024 3 1) - day_of (Date 2024 1 31) \<le> 106751" by code_simp+
qed

text \<open>C26. Beyond that span \<open>time.Duration\<close> saturates, and the function no longer keeps its promise:
  once the date lies more than 106751 days and two intervals after the anchor, the occurrence
  returned is not after it.\<close>

theorem next_occurrence_falls_behind:
  assumes "ValidateInterval n = None" and "valid_date after" and "106751 + 2 * n < day_of after - day_of anchor"
  shows "\<exists>k d. NextOccurrenceAfter anchor n after = Inr (k, d) \<and> \<not> After d after"
proof -
  have n: "7 \<le> n" "n \<le> 180" using assms(1) by (simp_all add: ValidateInterval_None)
  let ?seq = "(106751 :: int) div n + 1"
  have e: "DaysUntil anchor after = 106751" using assms(3) n by (simp add: DaysUntil_def max_duration_days_value)
  have seq: "1 \<le> ?seq" using n by (simp add: pos_imp_zdiv_nonneg_iff)
  have "n * (106751 div n) \<le> 106751" using first_multiple_after(2) [of n 106751] n by simp
  then have far: "day_of anchor + n * (?seq + 1) < day_of after" using assms(3) by (simp add: distrib_left)
  then have near: "day_of anchor + n * ?seq < day_of after" using n unfolding distrib_left by linarith
  show ?thesis
    using assms(1,2) n seq far near less_imp_le [OF far] less_imp_le [OF near]
    by (simp add: NextOccurrenceAfter_def e Let_def OccurrenceDate_ok After_iff not_less)
qed

lemma next_occurrence_falls_behind_witness:
  "\<exists>k d. NextOccurrenceAfter (Date 1 1 1) 30 (Date 2026 1 1) = Inr (k, d) \<and> \<not> After d (Date 2026 1 1)"
proof (rule next_occurrence_falls_behind)
  show "ValidateInterval 30 = None" "valid_date (Date 2026 1 1)"
    "106751 + 2 * 30 < day_of (Date 2026 1 1) - day_of (Date 1 1 1)" by code_simp+
qed

section \<open>Dates\<close>

text \<open>Dates and day numbers: adding days and counting them are inverse, within the span of a
  duration; every calendar date survives \<open>NewDate\<close> and the round trip through the database.\<close>

theorem counting_days_inverts_adding_them:
  assumes "valid_date d" and "valid_date e"
  shows "NewDate (d_year d) (d_month d) (d_day d) = d \<and> date_of_day (ToTime d) = d
    \<and> (\<bar>n\<bar> \<le> 106751 \<longrightarrow> DaysUntil d (AddDays d n) = n)
    \<and> (\<bar>day_of e - day_of d\<bar> \<le> 106751 \<longrightarrow> AddDays d (DaysUntil d e) = e)
    \<and> (Before d e \<longleftrightarrow> day_of d < day_of e) \<and> (After d e \<longleftrightarrow> day_of e < day_of d)
    \<and> (Equal d e \<longleftrightarrow> day_of d = day_of e)"
  using assms day_of_inj
  by (auto simp: NewDate_def DaysUntil_exact AddDays_def ToTime_def Before_iff After_iff Equal_def day_of_def [symmetric])

lemma counting_days_inverts_adding_them_witness:
  "DaysUntil (Date 2024 2 28) (Date 2024 3 1) = 2 \<and> AddDays (Date 2024 2 28) 2 = Date 2024 3 1"
proof -
  have v: "valid_date (Date 2024 2 28)" "valid_date (Date 2024 3 1)"
    and n: "\<bar>day_of (Date 2024 3 1) - day_of (Date 2024 2 28)\<bar> \<le> 106751" by code_simp+
  have two: "DaysUntil (Date 2024 2 28) (Date 2024 3 1) = 2" by code_simp
  then show ?thesis using counting_days_inverts_adding_them [OF v, of 2] n by simp
qed

text \<open>The digits a number is read from are the digits it is written with.\<close>

lemma digit_digit_val: "is_digit c \<Longrightarrow> digit_val c < 10 \<and> digit (digit_val c) = c"
  by (auto simp: is_digit_def digit_val_def digit_def)

lemma pad0_snoc: "pad0 (Suc w) (dec (10 * n + d)) = pad0 w (dec n) @ [digit d]" if "d < 10" "0 < w" for n d :: nat
proof (cases "n = 0")
  case True
  then show ?thesis using that
    by (cases w) (simp_all add: dec.simps [of d] dec.simps [of 0] pad0_def digit_def replicate_append_same)
next
  case False
  then show ?thesis using that by (simp add: dec.simps [of "10 * n + d"] pad0_def)
qed

lemma pad0_read_dec: "0 < length s \<Longrightarrow> all_digits s \<Longrightarrow> pad0 (length s) (dec (read_dec s)) = s"
proof (induction s rule: rev_induct)
  case (snoc c s)
  then have c: "digit_val c < 10" "digit (digit_val c) = c" and s: "all_digits s"
    by (auto simp: all_digits_def dest: digit_digit_val)
  show ?case
  proof (cases "s = []")
    case True
    then show ?thesis using c read_dec_snoc [of "[]" c] by (simp add: pad0_def dec.simps [of "digit_val c"])
  next
    case False
    then show ?thesis using snoc.IH s c pad0_snoc [of "digit_val c" "length s" "read_dec s"] by simp
  qed
qed simp

lemma fmt_0d_nat: "fmt_0d w (int n) = pad0 w (dec n)"
  by (simp add: fmt_0d_def)

lemma split_date_text:
  assumes "length y = 4" "length m = 2" "length d = 2"
  shows "take 4 (y @ ''-'' @ m @ ''-'' @ d) = y" and "take 2 (drop 5 (y @ ''-'' @ m @ ''-'' @ d)) = m"
    and "drop 8 (y @ ''-'' @ m @ ''-'' @ d) = d" and "(y @ ''-'' @ m @ ''-'' @ d) ! 4 = CHR ''-''"
    and "(y @ ''-'' @ m @ ''-'' @ d) ! 7 = CHR ''-''" and "length (y @ ''-'' @ m @ ''-'' @ d) = 10"
  using assms by (simp_all add: nth_append)

lemma join_date_text:
  assumes "length s = 10" "s ! 4 = CHR ''-''" "s ! 7 = CHR ''-''"
  shows "s = take 4 s @ ''-'' @ take 2 (drop 5 s) @ ''-'' @ drop 8 s"
  using assms by (auto intro!: nth_equalityI simp: nth_append nth_Cons' less_Suc_eq numeral_nat)

lemma read_dec_bound: "all_digits s \<Longrightarrow> read_dec s < 10 ^ length s"
proof (induction s rule: rev_induct)
  case (snoc c s)
  then have "digit_val c < 10" "read_dec s < 10 ^ length s"
    by (auto simp: all_digits_def dest: digit_digit_val)
  then show ?case by simp
qed simp

lemma date_fits:
  assumes "valid_date d" "0 \<le> d_year d" "d_year d \<le> 9999"
  shows "\<exists>y m k. d = Date (int y) (int m) (int k) \<and> y < 10 ^ 4 \<and> m < 10 ^ 2 \<and> k < 10 ^ 2"
proof -
  have "days_in (d_year d) (d_month d) \<le> 31"
    using month_range [of "d_month d"] assms(1)
    by (auto simp: valid_date_def days_in_def days_before_month_def cum_days_def)
  then show ?thesis using assms
    by (intro exI [of _ "nat (d_year d)"] exI [of _ "nat (d_month d)"] exI [of _ "nat (d_day d)"])
      (cases d, auto simp: valid_date_def)
qed

text \<open>C27. The text form of a date is a bijection with the calendar dates of the years 0 to 9999: a
  text is accepted by the parser exactly if it is the rendering of such a date, and then gives
  that date back.\<close>

theorem date_text_round_trip:
  "time_parse s = Some d \<longleftrightarrow> valid_date d \<and> 0 \<le> d_year d \<and> d_year d \<le> 9999 \<and> s = String d"
proof
  assume "time_parse s = Some d"
  then have s: "length s = 10" "s ! 4 = CHR ''-''" "s ! 7 = CHR ''-''"
    and digits: "all_digits (take 4 s)" "all_digits (take 2 (drop 5 s))" "all_digits (drop 8 s)"
    and d: "d = Date (int (read_dec (take 4 s))) (int (read_dec (take 2 (drop 5 s)))) (int (read_dec (drop 8 s)))"
    and v: "valid_date d"
    by (auto simp: time_parse_def Let_def split: if_splits)
  have "length (take 4 s) = 4" "length (take 2 (drop 5 s)) = 2" "length (drop 8 s) = 2" using s by simp_all
  with digits pad0_read_dec have "String d = take 4 s @ ''-'' @ take 2 (drop 5 s) @ ''-'' @ drop 8 s"
    by (metis (no_types, lifting) String_def d date.sel fmt_0d_nat zero_less_numeral)
  then have "String d = s" using join_date_text [OF s] by simp
  moreover have "read_dec (take 4 s) \<le> 9999"
    using read_dec_bound [OF digits(1)] s by simp
  ultimately show "valid_date d \<and> 0 \<le> d_year d \<and> d_year d \<le> 9999 \<and> s = String d" using v d by simp
next
  assume a: "valid_date d \<and> 0 \<le> d_year d \<and> d_year d \<le> 9999 \<and> s = String d"
  then obtain y m k where d: "d = Date (int y) (int m) (int k)" and b: "y < 10 ^ 4" "m < 10 ^ 2" "k < 10 ^ 2"
    using date_fits by blast
  have len: "length (pad0 4 (dec y)) = 4" "length (pad0 2 (dec m)) = 2" "length (pad0 2 (dec k)) = 2" using b by simp_all
  then show "time_parse s = Some d"
    using a split_date_text [OF len] by (simp add: time_parse_def String_def d fmt_0d_nat Let_def)
qed

text \<open>The key under which the database recognises a repeated occurrence determines the schedule
  and the sequence number.\<close>

theorem idempotency_keys_are_injective:
  "IdempotencyKey sid n = IdempotencyKey sid' n' \<longleftrightarrow> sid = sid' \<and> n = n'"
proof
  assume "IdempotencyKey sid n = IdempotencyKey sid' n'"
  then have "sid @ CHR '':'' # dec_int n = sid' @ CHR '':'' # dec_int n'" by (simp add: IdempotencyKey_def)
  then have "sid = sid' \<and> dec_int n = dec_int n'"
    using last_separator_unique [OF _ dec_int_no_colon dec_int_no_colon] by blast
  then show "sid = sid' \<and> n = n'" using dec_int_inj by blast
qed simp

section \<open>The start of a day\<close>

text \<open>Where midnight exists the instant a day starts at is on that day, and it is its first: in a
  zone that is in force from a day before the midnight to a day after it, the customer's date at
  the start is the day itself, and one second earlier it is the day before.\<close>

theorem a_day_starts_at_its_midnight:
  assumes "valid_date d" and "\<And>t. \<bar>t - 86400 * day_of d\<bar> \<le> 86400 \<Longrightarrow> loc t = z"
    and "\<bar>z_offset z\<bar> < 86400" and "z_start z \<le> 86400 * (day_of d - 1)" and "86400 * (day_of d + 1) \<le> z_end z"
  shows "DateOf loc (StartOfDayIn d loc) = d \<and> DateOf loc (StartOfDayIn d loc - 1) = AddDays d (- 1)"
proof -
  let ?m = "86400 * day_of d"
  have near: "loc ?m = z" "loc (?m - z_offset z) = z" "loc (?m - z_offset z - 1) = z"
    using assms(2,3) by (auto simp: abs_le_iff abs_less_iff)
  then have "StartOfDayIn d loc = ?m - z_offset z"
    using assms(3-5) by (auto simp: StartOfDayIn_def midnight_in_def Let_def)
  moreover have "(?m - 1) div 86400 = day_of d - 1" by simp
  ultimately show ?thesis
    using assms(1) near by (simp add: DateOf_def local_day_def AddDays_def)
qed

lemma a_day_starts_at_its_midnight_witness:
  "DateOf (\<lambda>_. \<lparr>z_offset = -18000, z_start = - (10 ^ 10), z_end = 10 ^ 10\<rparr>)
     (StartOfDayIn (Date 2026 3 1) (\<lambda>_. \<lparr>z_offset = -18000, z_start = - (10 ^ 10), z_end = 10 ^ 10\<rparr>)) = Date 2026 3 1"
proof -
  have v: "valid_date (Date 2026 3 1)" and n: "day_of (Date 2026 3 1) = 20513" by code_simp+
  show ?thesis
    using a_day_starts_at_its_midnight [OF v, of "\<lambda>_. \<lparr>z_offset = -18000, z_start = - (10 ^ 10), z_end = 10 ^ 10\<rparr>"] n
    by simp
qed

text \<open>Where local midnight is skipped in a zone west of Greenwich, the instant taken is still on
  the day before.\<close>

definition skipping_zone :: location where
  "skipping_zone t = (if t < 10800 then \<lparr>z_offset = -10800, z_start = -100000, z_end = 10800\<rparr>
     else \<lparr>z_offset = -7200, z_start = 10800, z_end = 1000000\<rparr>)"

lemma a_skipped_midnight_starts_the_day_before:
  "DateOf skipping_zone (StartOfDayIn (Date 1970 1 1) skipping_zone) = Date 1969 12 31"
  by code_simp

section \<open>The transition table and the inputs\<close>

text \<open>The abstract table: from which statuses the lifecycle lets an action start.\<close>

definition lifecycle :: "(schedule_status \<times> action) set" where
  "lifecycle = {ScheduleActive} \<times> {ActionPause, ActionSkipNext, ActionDefer, ActionArm, ActionChangeCadence, ActionCancel}
     \<union> {SchedulePaused} \<times> {ActionResume, ActionChangeCadence, ActionCancel}
     \<union> {ScheduleFailed} \<times> {ActionCancel}"

text \<open>C28. The table is the lifecycle, and it fails closed: every pair outside it is refused with an
  error that names the pair and carries a message for the customer, an unknown action with an
  error of another kind; nothing leaves the canceled status.\<close>

theorem the_transition_table_is_the_lifecycle:
  "(ValidateScheduleTransition st a = None \<longleftrightarrow> (st, a) \<in> lifecycle)
   \<and> ((st, a) \<notin> lifecycle \<longrightarrow>
        (case a of ActionOther n \<Rightarrow> \<exists>e. ValidateScheduleTransition st a = Some e \<and> \<not> IsTransitionError e
         | _ \<Rightarrow> \<exists>m. m \<noteq> '''' \<and> ValidateScheduleTransition st a = Some (TransitionError a st m)))
   \<and> ValidateScheduleTransition ScheduleCanceled a \<noteq> None"
  by (cases a; cases st; simp add: lifecycle_def; simp add: ValidateScheduleTransition_def)

lemma the_transition_table_is_the_lifecycle_witness:
  "\<exists>m. m \<noteq> '''' \<and> ValidateScheduleTransition SchedulePaused ActionPause = Some (TransitionError ActionPause SchedulePaused m)"
  using the_transition_table_is_the_lifecycle [of SchedulePaused ActionPause] by (simp add: lifecycle_def)

section \<open>Percentages\<close>

lemma fl_near: "\<bar>x\<bar> \<le> b \<Longrightarrow> \<bar>fl x - x\<bar> \<le> b / 2 ^ 53"
  by (rule order_trans [OF fl_error]) (simp add: divide_right_mono)

text \<open>The float nearest to a number of hundredths is a percentage again, and times 100 it rounds
  back to that number, with the product rounded or exact.\<close>

lemma hundredths_round:
  assumes "0 \<le> c" "c \<le> 10000"
  shows "0 \<le> fl (of_int c / 100)" and "fl (of_int c / 100) \<le> 100"
    and "round_away (fl (fl (of_int c / 100) * 100)) = c" and "round_away (fl (of_int c / 100) * 100) = c"
proof -
  define x :: rat where "x = of_int c / 100"
  have c: "0 \<le> (of_int c :: rat)" "(of_int c :: rat) \<le> 10000" using assms by simp_all
  then have x: "\<bar>x\<bar> \<le> 100" "0 \<le> x" "100 * x = of_int c" by (simp_all add: x_def)
  have e: "\<bar>fl x - x\<bar> \<le> 1 / 1000" using x(1) by (rule order_trans [OF fl_near]) simp
  show nonneg: "0 \<le> fl (of_int c / 100)" using x by (simp add: fl_nonneg x_def [symmetric])
  show "fl (of_int c / 100) \<le> 100"
  proof (cases "c = 10000")
    case True
    have "fl 100 = 100" by code_simp
    with True show ?thesis by simp
  next
    case False
    then have "(of_int c :: rat) \<le> of_int 9999" using assms(2) by (intro of_int_le_iff [THEN iffD2]) simp
    then have "x \<le> 9999 / 100" by (simp add: x_def)
    with e show ?thesis unfolding x_def [symmetric] abs_le_iff by linarith
  qed
  have y: "\<bar>fl x * 100 - of_int c\<bar> \<le> 1 / 10" using e x(3) unfolding abs_le_iff by linarith
  then have "\<bar>fl x * 100\<bar> \<le> 20000" using c unfolding abs_le_iff by linarith
  then have "\<bar>fl (fl x * 100) - fl x * 100\<bar> \<le> 1 / 10" by (rule order_trans [OF fl_near]) simp
  with y have "\<bar>fl (fl x * 100) - of_int c\<bar> < 1 / 2" "\<bar>fl x * 100 - of_int c\<bar> < 1 / 2"
    unfolding abs_le_iff abs_less_iff by linarith+
  then show "round_away (fl (fl (of_int c / 100) * 100)) = c" "round_away (fl (of_int c / 100) * 100) = c"
    unfolding x_def [symmetric] by (simp_all add: round_away_near)
qed

text \<open>The tolerance of \<open>NormalizeDiscountPct\<close>: the float nearest to a number of hundredths is much closer to
  it than the \<open>1e-9\<close> an input may be off, and the subtraction and the constant round by less still.\<close>

lemma hundredth_near:
  assumes "0 \<le> c" "c \<le> 10000"
  shows "\<bar>fl (of_int c / 100) - of_int c / 100\<bar> \<le> 1 / (10 * 10 ^ 9 :: rat)"
proof -
  have "\<bar>of_int c / 100 :: rat\<bar> \<le> 100" using assms by simp
  then show ?thesis by (rule order_trans [OF fl_near]) simp
qed

lemma nanos: "1 / (10 ^ 9 :: rat) - 1 / (10 ^ 18) \<le> fl (1 / 10 ^ 9)" "fl (1 / 10 ^ 9) \<le> 1 / (10 ^ 9 :: rat) + 1 / (10 ^ 18)"
proof -
  have "\<bar>1 / 10 ^ 9 :: rat\<bar> \<le> 1 / 10 ^ 9" by simp
  then have "\<bar>fl (1 / 10 ^ 9) - 1 / 10 ^ 9\<bar> \<le> 1 / (10 ^ 18 :: rat)" by (rule order_trans [OF fl_near]) simp
  then show "1 / (10 ^ 9 :: rat) - 1 / (10 ^ 18) \<le> fl (1 / 10 ^ 9)" "fl (1 / 10 ^ 9) \<le> 1 / (10 ^ 9 :: rat) + 1 / (10 ^ 18)"
    unfolding abs_le_iff by linarith+
qed

lemma accepted_hundredths:
  assumes "0 \<le> c" "c \<le> 10000" and near: "\<bar>x - of_int c / 100\<bar> \<le> 1 / (2 * 10 ^ 9)" and "0 \<le> x" "x \<le> 100"
  shows "NormalizeDiscountPct (Fin x) = Inr (float_of_numeric c)"
proof -
  define h :: rat where "h = of_int c / 100"
  have h: "100 * h = of_int c" by (simp add: h_def)
  have n: "- (x - h) \<le> 1 / (2 * 10 ^ 9)" "x - h \<le> 1 / (2 * 10 ^ 9)" using near unfolding h_def abs_le_iff by linarith+
  have "\<bar>x * 100\<bar> \<le> 10000" using assms(4,5) by simp
  then have "\<bar>fl (x * 100) - x * 100\<bar> \<le> 1 / 100" by (rule order_trans [OF fl_near]) simp
  then have "\<bar>fl (x * 100) - of_int c\<bar> < 1 / 2"
    using n unfolding h [symmetric] abs_le_iff abs_less_iff by (intro conjI; simp; linarith)
  then have r: "round_away (fl (x * 100)) = c" by (rule round_away_near)
  have e: "- (fl h - h) \<le> 1 / (10 * 10 ^ 9)" "fl h - h \<le> 1 / (10 * 10 ^ 9)"
    using hundredth_near [OF assms(1,2)] unfolding h_def abs_le_iff by linarith+
  have d: "- (x - fl h) \<le> 6 / (10 * 10 ^ 9)" "x - fl h \<le> 6 / (10 * 10 ^ 9)" using n e by linarith+
  then have "\<bar>x - fl h\<bar> \<le> 1" unfolding abs_le_iff by (intro conjI; simp; linarith)
  then have "\<bar>fl (x - fl h) - (x - fl h)\<bar> \<le> 1 / 10 ^ 15" by (rule order_trans [OF fl_near]) simp
  then have "\<bar>fl (x - fl h)\<bar> \<le> fl (1 / 10 ^ 9)"
    using d nanos(1) unfolding abs_le_iff by (intro conjI; simp; linarith)
  then show ?thesis
    using assms(4,5) by (simp add: NormalizeDiscountPct_def float_of_numeric_def Let_def r h_def [symmetric] not_less)
qed

lemma normalized_near:
  assumes "NormalizeDiscountPct (Fin x) = Inr (Fin (fl (of_int c / 100)))" "0 \<le> c" "c \<le> 10000" "0 \<le> x" "x \<le> 100"
    and c: "c = round_away (fl (x * 100))"
  shows "\<bar>x - of_int c / 100\<bar> \<le> 2 / 10 ^ 9"
proof -
  define h :: rat where "h = of_int c / 100"
  have e: "- (fl h - h) \<le> 1 / (10 * 10 ^ 9)" "fl h - h \<le> 1 / (10 * 10 ^ 9)"
    using hundredth_near [OF assms(2,3)] unfolding h_def abs_le_iff by linarith+
  have "\<bar>fl (x - fl h)\<bar> \<le> fl (1 / 10 ^ 9)"
    using assms(1,4,5) by (auto simp: NormalizeDiscountPct_def Let_def c [symmetric] h_def split: if_splits)
  then have f: "- fl (x - fl h) \<le> fl (1 / 10 ^ 9)" "fl (x - fl h) \<le> fl (1 / 10 ^ 9)" unfolding abs_le_iff by linarith+
  have "\<bar>fl (x - fl h) - (x - fl h)\<bar> \<le> \<bar>x - fl h\<bar> / 2 ^ 53" by (rule fl_error)
  moreover have "\<bar>x - fl h\<bar> \<le> 200"
    using assms(4,5) hundredths_round(1,2) [OF assms(2,3)] unfolding h_def abs_le_iff by linarith
  ultimately have "\<bar>fl (x - fl h) - (x - fl h)\<bar> \<le> 1 / (10 * 10 ^ 9)" by (simp add: field_simps)
  then have "\<bar>x - h\<bar> \<le> 2 / 10 ^ 9" using e f nanos(2) unfolding abs_le_iff by (intro conjI; simp; linarith)
  then show ?thesis by (simp add: h_def)
qed

text \<open>C29. A percentage is accepted only within two billionths of a number of hundredths between 0 and
  100, and always within half a billionth of one; what comes out is the float nearest to that number,
  and storing it in the \<open>numeric(5,2)\<close> column and reading it back changes nothing.\<close>

theorem discounts_are_hundredths:
  "(NormalizeDiscountPct p = Inr q \<longrightarrow> (\<exists>x c. p = Fin x \<and> 0 \<le> x \<and> x \<le> 100 \<and> 0 \<le> c \<and> c \<le> 10000
      \<and> \<bar>x - of_int c / 100\<bar> \<le> 2 / 10 ^ 9 \<and> q = Fin (fl (of_int c / 100))
      \<and> numeric_of (fl (of_int c / 100)) = c \<and> q = float_of_numeric c))
   \<and> (0 \<le> c \<and> c \<le> 10000 \<and> 0 \<le> y \<and> y \<le> 100 \<and> \<bar>y - of_int c / 100\<bar> \<le> 1 / (2 * 10 ^ 9) \<longrightarrow>
        NormalizeDiscountPct (Fin y) = Inr (float_of_numeric c))"
proof (intro conjI impI)
  show "NormalizeDiscountPct (Fin y) = Inr (float_of_numeric c)"
    if "0 \<le> c \<and> c \<le> 10000 \<and> 0 \<le> y \<and> y \<le> 100 \<and> \<bar>y - of_int c / 100\<bar> \<le> 1 / (2 * 10 ^ 9)"
    using accepted_hundredths that by blast
  assume acc: "NormalizeDiscountPct p = Inr q"
  then obtain x where x: "p = Fin x" "0 \<le> x" "x \<le> 100"
    and q: "q = Fin (fl (of_int (round_away (fl (x * 100))) / 100))"
    by (auto simp: NormalizeDiscountPct_def Let_def split: float64.splits if_splits)
  define k where "k = round_away (fl (x * 100))"
  have "0 \<le> fl (x * 100)" using x by (intro fl_nonneg) simp
  moreover have "fl (x * 100) \<le> 10000 + 1 / 100"
  proof -
    have "\<bar>x * 100\<bar> \<le> 10000" using x by simp
    then have "\<bar>fl (x * 100) - x * 100\<bar> \<le> 1 / 100" by (rule order_trans [OF fl_near]) simp
    then show ?thesis using x unfolding abs_le_iff by linarith
  qed
  ultimately have k: "0 \<le> k" "k \<le> 10000" by (auto simp: k_def round_away_def floor_le_iff)
  have "\<bar>x - of_int k / 100\<bar> \<le> 2 / 10 ^ 9"
    using acc x k by (intro normalized_near) (simp_all add: q k_def)
  with x q hundredths_round(4) [OF k]
  show "\<exists>x c. p = Fin x \<and> 0 \<le> x \<and> x \<le> 100 \<and> 0 \<le> c \<and> c \<le> 10000
      \<and> \<bar>x - of_int c / 100\<bar> \<le> 2 / 10 ^ 9 \<and> q = Fin (fl (of_int c / 100))
      \<and> numeric_of (fl (of_int c / 100)) = c \<and> q = float_of_numeric c"
    using k by (auto simp: k_def [symmetric] numeric_of_def float_of_numeric_def)
qed

lemma discounts_are_hundredths_witness:
  "NormalizeDiscountPct (Fin (1999 / 100 + 1 / 10 ^ 10)) = Inr (float_of_numeric 1999)"
  using discounts_are_hundredths [of NaN NaN 1999 "1999 / 100 + 1 / 10 ^ 10"] by simp

end
