(* ===== verification/Arrays.thy ===== *)
theory Arrays
  imports Store
begin

text \<open>
  \<open>pqTextArray\<close> of \<open>internal/store/store.go\<close>: the statuses and event types a query compares with
  \<open>= ANY($n)\<close> travel as one text, an array literal of PostgreSQL. \<open>read_array\<close> reads such a literal as
  the documentation of the arrays says, as far as quoted elements go; the round trip is why the
  queries of \<open>Store\<close> may take the list itself, and why no value can end its element.
\<close>

definition array_quote :: "string \<Rightarrow> string" where
  "array_quote v = [CHR 0x22] @ concat (map (\<lambda>c. if c = CHR 0x5C \<or> c = CHR 0x22 then [CHR 0x5C, c] else [c]) v) @ [CHR 0x22]"

fun comma_join :: "string list \<Rightarrow> string" where
  "comma_join [] = ''''"
| "comma_join [v] = v"
| "comma_join (v # vs) = v @ '','' @ comma_join vs"

definition pqTextArray :: "string list \<Rightarrow> string" where
  "pqTextArray vs = ''{'' @ comma_join (map array_quote vs) @ ''}''"

section \<open>Reading the literal\<close>

fun read_quoted :: "string \<Rightarrow> (string \<times> string) option" where
  "read_quoted [] = None"
| "read_quoted (c # cs) =
    (if c = CHR 0x22 then Some ('''', cs)
     else if c = CHR 0x5C then (case cs of [] \<Rightarrow> None | d # ds \<Rightarrow> map_option (apfst (Cons d)) (read_quoted ds))
     else map_option (apfst (Cons c)) (read_quoted cs))"

lemma read_quoted_shorter: "read_quoted cs = Some (v, rest) \<Longrightarrow> length rest < length cs"
proof (induction cs arbitrary: v rest rule: read_quoted.induct)
  case (2 c cs)
  then show ?case by (fastforce split: if_splits list.splits)
qed simp

function read_elements :: "string \<Rightarrow> string list option" where
  "read_elements s =
    (case s of
       [] \<Rightarrow> None
     | q # cs \<Rightarrow>
        if q \<noteq> CHR 0x22 then None
        else (case read_quoted cs of
            None \<Rightarrow> None
          | Some (v, []) \<Rightarrow> None
          | Some (v, c # rest) \<Rightarrow>
              if c = CHR 0x2C then map_option (Cons v) (read_elements rest)
              else if c = CHR 0x7D \<and> rest = [] then Some [v] else None))"
  by pat_completeness auto
termination
  by (relation "measure length") (auto dest!: read_quoted_shorter)

declare read_elements.simps [simp del]

definition read_array :: "string \<Rightarrow> string list option" where
  "read_array s =
    (case s of
       [] \<Rightarrow> None
     | b # rest \<Rightarrow> if b \<noteq> CHR 0x7B then None else if rest = ''}'' then Some [] else read_elements rest)"

section \<open>The round trip\<close>

lemma read_quoted_escaped:
  "read_quoted (concat (map (\<lambda>c. if c = CHR 0x5C \<or> c = CHR 0x22 then [CHR 0x5C, c] else [c]) v) @ CHR 0x22 # rest)
    = Some (v, rest)"
  by (induction v) auto

lemma read_elements_join:
  assumes "vs \<noteq> []"
  shows "read_elements (comma_join (map array_quote vs) @ ''}'') = Some vs"
  using assms
proof (induction vs rule: comma_join.induct)
  case (2 v)
  show ?case by (simp add: read_elements.simps array_quote_def read_quoted_escaped)
next
  case (3 v w vs)
  then show ?case by (subst read_elements.simps) (simp add: array_quote_def [of v] read_quoted_escaped)
qed simp

lemma text_arrays_round_trip: "read_array (pqTextArray vs) = Some vs"
proof (cases vs)
  case (Cons v rest)
  then have "read_elements (comma_join (map array_quote vs) @ ''}'') = Some vs" by (intro read_elements_join) simp
  moreover have "comma_join (map array_quote vs) @ ''}'' \<noteq> ''}''" using Cons by (cases rest) (simp_all add: array_quote_def)
  ultimately show ?thesis by (simp add: read_array_def pqTextArray_def)
qed (simp add: read_array_def pqTextArray_def)

text \<open>So \<open>= ANY\<close> over the literal is membership in the list the code passes: for the event types of a
  claim and the statuses of a cancellation.\<close>

definition any_of :: "string \<Rightarrow> string \<Rightarrow> bool" where
  "any_of v literal = (case read_array literal of None \<Rightarrow> False | Some vs \<Rightarrow> v \<in> set vs)"

lemma inj_texts: "inj event_type_text" "inj occurrence_status_text"
proof -
  show "inj event_type_text" by (rule injI) (case_tac x; case_tac y; simp)
  show "inj occurrence_status_text" by (rule injI) (case_tac x; case_tac y; simp)
qed

lemma any_of_types: "any_of (event_type_text ty) (pqTextArray (map event_type_text types)) \<longleftrightarrow> ty \<in> set types"
  by (simp add: any_of_def text_arrays_round_trip inj_image_mem_iff inj_texts)

lemma any_of_statuses: "any_of (occurrence_status_text st) (pqTextArray (map occurrence_status_text sts)) \<longleftrightarrow> st \<in> set sts"
  by (simp add: any_of_def text_arrays_round_trip inj_image_mem_iff inj_texts)

end
