(* ===== verification/Decode.thy ===== *)
theory Decode
  imports Types
begin

text \<open>
  \<open>encoding/json\<close> as this program uses it: decoding a JSON value into a struct. A member is
  matched to a field by its exact name, else by its case-folded name; \<open>null\<close> leaves a field as
  it is; a member without a field (under \<open>DisallowUnknownFields\<close>) or of the wrong type is an
  error, the first of which is reported after the whole object has been read. A struct is a list
  of fields, each with its setter. The text of a number in an error message is left out.
\<close>

section \<open>Names of members\<close>

text \<open>Simple case folding on UTF-8 text: ASCII letters, the long s and the Kelvin sign.\<close>

definition lower_char :: "char \<Rightarrow> char" where
  "lower_char c = (if 65 \<le> (of_char c :: nat) \<and> (of_char c :: nat) \<le> 90
     then char_of (of_char c + 32 :: nat) else c)"

fun fold_name :: "string \<Rightarrow> string" where
  "fold_name (a # b # c # s) =
    (if a = CHR 0xC5 \<and> b = CHR 0xBF then CHR ''s'' # fold_name (c # s)
     else if a = CHR 0xE2 \<and> b = CHR 0x84 \<and> c = CHR 0xAA then CHR ''k'' # fold_name s
     else lower_char a # fold_name (b # c # s))"
| "fold_name [a, b] =
    (if a = CHR 0xC5 \<and> b = CHR 0xBF then ''s'' else [lower_char a, lower_char b])"
| "fold_name [a] = [lower_char a]"
| "fold_name [] = []"

section \<open>Fields\<close>

text \<open>A setter reads a value into the struct: the new struct, and the error if the type is wrong.\<close>

type_synonym 'r setter = "json \<Rightarrow> 'r \<Rightarrow> 'r \<times> go_error option"

definition field_of :: "(string \<times> 'r setter) list \<Rightarrow> string \<Rightarrow> 'r setter option" where
  "field_of fs key =
    (case map_of fs key of
       Some f \<Rightarrow> Some f
     | None \<Rightarrow> map_of (map (\<lambda>(n, f). (fold_name n, f)) fs) (fold_name key))"

definition first_error :: "go_error option \<Rightarrow> go_error option \<Rightarrow> go_error option" where
  "first_error a b = (case a of None \<Rightarrow> b | Some e \<Rightarrow> Some e)"

fun decode_members ::
    "bool \<Rightarrow> (string \<times> 'r setter) list \<Rightarrow> (string \<times> json) list \<Rightarrow> 'r \<times> go_error option \<Rightarrow> 'r \<times> go_error option" where
  "decode_members strict fs [] acc = acc"
| "decode_members strict fs ((k, v) # kvs) (r, err) =
    (case field_of fs k of
       None \<Rightarrow> decode_members strict fs kvs
         (r, if strict then first_error err (Some (ErrText (''json: unknown field '' @ [CHR 0x22] @ k @ [CHR 0x22]))) else err)
     | Some f \<Rightarrow> (case f v r of (r', e) \<Rightarrow> decode_members strict fs kvs (r', first_error err e)))"

fun kind_of :: "json \<Rightarrow> string" where
  "kind_of JNull = ''null''"
| "kind_of (JBool b) = ''bool''"
| "kind_of (JNum n) = ''number''"
| "kind_of (JFloat x) = ''number''"
| "kind_of (JStr s) = ''string''"
| "kind_of (JArr js) = ''array''"
| "kind_of (JObj kvs) = ''object''"

definition type_error :: "json \<Rightarrow> string \<Rightarrow> go_error option" where
  "type_error v what = Some (ErrText (''json: cannot unmarshal '' @ kind_of v @ '' into '' @ what))"

definition decode_into :: "bool \<Rightarrow> (string \<times> 'r setter) list \<Rightarrow> json \<Rightarrow> 'r \<Rightarrow> 'r \<times> go_error option" where
  "decode_into strict fs v r =
    (case v of
       JNull \<Rightarrow> (r, None)
     | JObj kvs \<Rightarrow> decode_members strict fs kvs (r, None)
     | _ \<Rightarrow> (r, type_error v ''Go value''))"

definition decode_struct :: "bool \<Rightarrow> (string \<times> 'r setter) list \<Rightarrow> 'r \<Rightarrow> json \<Rightarrow> go_error + 'r" where
  "decode_struct strict fs zero v =
    (case decode_into strict fs v zero of (r, None) \<Rightarrow> Inr r | (r, Some e) \<Rightarrow> Inl e)"

section \<open>Setters of the basic types\<close>

definition int64 :: "int \<Rightarrow> bool" where
  "int64 n = (- (2 ^ 63) \<le> n \<and> n < 2 ^ 63)"

definition string_field :: "(string \<Rightarrow> 'r \<Rightarrow> 'r) \<Rightarrow> 'r setter" where
  "string_field upd v r =
    (case v of JNull \<Rightarrow> (r, None) | JStr s \<Rightarrow> (upd s r, None) | _ \<Rightarrow> (r, type_error v ''a field of type string''))"

definition int_field :: "(int \<Rightarrow> 'r \<Rightarrow> 'r) \<Rightarrow> 'r setter" where
  "int_field upd v r =
    (case v of
       JNull \<Rightarrow> (r, None)
     | JNum n \<Rightarrow> if int64 n then (upd n r, None) else (r, type_error v ''a field of type int'')
     | _ \<Rightarrow> (r, type_error v ''a field of type int''))"

definition float_field :: "(float64 \<Rightarrow> 'r \<Rightarrow> 'r) \<Rightarrow> 'r setter" where
  "float_field upd v r =
    (case v of
       JNull \<Rightarrow> (r, None)
     | JNum n \<Rightarrow> (upd (Fin (fl (of_int n))) r, None)
     | JFloat (Fin x) \<Rightarrow> (upd (Fin x) r, None)
     | _ \<Rightarrow> (r, type_error v ''a field of type float64''))"

text \<open>A slice of structs: every element is read into a zero struct.\<close>

fun decode_elements :: "bool \<Rightarrow> (string \<times> 'e setter) list \<Rightarrow> 'e \<Rightarrow> json list \<Rightarrow> 'e list \<times> go_error option" where
  "decode_elements strict fs zero [] = ([], None)"
| "decode_elements strict fs zero (v # vs) =
    (case decode_into strict fs v zero of (x, e) \<Rightarrow>
     case decode_elements strict fs zero vs of (xs, es) \<Rightarrow> (x # xs, first_error e es))"

definition slice_field ::
    "bool \<Rightarrow> (string \<times> 'e setter) list \<Rightarrow> 'e \<Rightarrow> ('e list \<Rightarrow> 'r \<Rightarrow> 'r) \<Rightarrow> 'r setter" where
  "slice_field strict fs zero upd v r =
    (case v of
       JNull \<Rightarrow> (upd [] r, None)
     | JArr vs \<Rightarrow> (case decode_elements strict fs zero vs of (xs, e) \<Rightarrow> (upd xs r, e))
     | _ \<Rightarrow> (r, type_error v ''a slice field''))"

section \<open>Objects in normal form\<close>

text \<open>An object whose members are exactly fields of the right types decodes without an error.\<close>

lemma decode_members_ok:
  assumes "\<And>k v r. (k, v) \<in> set kvs \<Longrightarrow> \<exists>f. field_of fs k = Some f \<and> snd (f v r) = None"
  shows "snd (decode_members strict fs kvs (r, None)) = None"
  using assms
proof (induction kvs arbitrary: r)
  case (Cons kv kvs)
  obtain k v where kv: "kv = (k, v)" by fastforce
  obtain f where "field_of fs k = Some f" "snd (f v r) = None" using Cons.prems [of k v r] kv by auto
  then show ?case using Cons kv by (cases "f v r") (auto simp: first_error_def)
qed simp

text \<open>Under \<open>DisallowUnknownFields\<close> a member without a field is always an error.\<close>

lemma decode_members_error_stays:
  "snd (decode_members strict fs kvs (r, Some e)) \<noteq> None"
  by (induction kvs arbitrary: r e) (auto simp: first_error_def split: option.splits prod.splits)

lemma decode_members_unknown:
  assumes "(k, v) \<in> set kvs" and "field_of fs k = None"
  shows "snd (decode_members True fs kvs (r, err)) \<noteq> None"
  using assms
proof (induction kvs arbitrary: r err)
  case (Cons kv kvs)
  show ?case
  proof (cases "kv = (k, v)")
    case True
    then show ?thesis using Cons.prems(2) decode_members_error_stays
      by (cases err) (auto simp: first_error_def)
  next
    case False
    then show ?thesis using Cons by (cases kv) (auto split: option.splits prod.splits)
  qed
qed simp

end
