(* ===== verification/Config.thy ===== *)
theory Config
  imports Cadence Decode
begin

text \<open>
  \<open>internal/config/config.go\<close>: the configuration a binary reads from its environment. The
  environment is a function from names to texts, empty where a variable is not set, as
  \<open>os.Getenv\<close> reads it. The address parser of \<open>net/mail\<close> is an argument.
\<close>

section \<open>Numbers and quotes\<close>

text \<open>\<open>strconv.Atoi\<close>: an optional sign and decimal digits, within 64 bits.\<close>

definition read_digits :: "string \<Rightarrow> int option" where
  "read_digits s = (if s \<noteq> '''' \<and> all_digits s then Some (int (read_dec s)) else None)"

definition Atoi :: "string \<Rightarrow> int option" where
  "Atoi s =
    (case (case s of
        c # rest \<Rightarrow>
          if c = CHR ''-'' then map_option uminus (read_digits rest)
          else if c = CHR ''+'' then read_digits rest
          else read_digits s
      | [] \<Rightarrow> None) of
       None \<Rightarrow> None
     | Some n \<Rightarrow> if int64 n then Some n else None)"

text \<open>\<open>%q\<close>, with bytes outside ASCII left as they are.\<close>

definition hex_digit :: "nat \<Rightarrow> char" where
  "hex_digit n = ''0123456789abcdef'' ! n"

definition quote_char :: "char \<Rightarrow> string" where
  "quote_char c =
    (let n = of_char c :: nat in
     case map_of [(34, CHR 0x22), (92, CHR 0x5C), (7, CHR ''a''), (8, CHR ''b''), (12, CHR ''f''),
                  (10, CHR ''n''), (13, CHR ''r''), (9, CHR ''t''), (11, CHR ''v'')] n of
       Some e \<Rightarrow> [CHR 0x5C, e]
     | None \<Rightarrow> if n < 32 \<or> n = 127
               then [CHR 0x5C, CHR ''x'', hex_digit (n div 16), hex_digit (n mod 16)] else [c])"

definition quoted :: "string \<Rightarrow> string" where
  "quoted s = CHR 0x22 # concat (map quote_char s) @ [CHR 0x22]"

section \<open>Loading\<close>

type_synonym env = "string \<Rightarrow> string"

record config =
  DatabaseURL :: string
  Port :: int
  BuildSHA :: string
  MaterializeHorizon :: int
  PortalJWTSecret :: string
  PortalJWTIssuer :: string
  PortalJWTAudience :: string
  ServiceAPIKey :: string
  PostmarkAPIKey :: string
  NotificationFromAddress :: string
  NotificationSupportContact :: string

definition minSecretLength :: nat where "minSecretLength = 32"

definition envOr :: "env \<Rightarrow> string \<Rightarrow> string \<Rightarrow> string" where
  "envOr env key fallback = (if env key \<noteq> '''' then env key else fallback)"

text \<open>An optional number: absent, it leaves the default.\<close>

definition load_port :: "env \<Rightarrow> go_error + int" where
  "load_port env =
    (if env ''PORT'' = '''' then Inr 8080
     else (case Atoi (env ''PORT'') of
         None \<Rightarrow> Inl (ErrText (''PORT must be a number, got '' @ quoted (env ''PORT'')))
       | Some p \<Rightarrow> if p < 1 \<or> 65535 < p then Inl (ErrText (''PORT out of range: '' @ dec_int p)) else Inr p))"

definition load_horizon :: "env \<Rightarrow> go_error + int" where
  "load_horizon env =
    (if env ''MATERIALIZE_HORIZON'' = '''' then Inr 3
     else (case Atoi (env ''MATERIALIZE_HORIZON'') of
         None \<Rightarrow> Inl (ErrText (''MATERIALIZE_HORIZON must be a number, got '' @ quoted (env ''MATERIALIZE_HORIZON'')))
       | Some h \<Rightarrow> if h < 1 then Inl (ErrText (''MATERIALIZE_HORIZON must be at least 1, got '' @ dec_int h)) else Inr h))"

definition Load :: "env \<Rightarrow> go_error + config" where
  "Load env =
    (if env ''DATABASE_URL'' = '''' then Inl (ErrText ''DATABASE_URL is required'')
     else (case load_port env of
         Inl e \<Rightarrow> Inl e
       | Inr p \<Rightarrow>
         (case load_horizon env of
            Inl e \<Rightarrow> Inl e
          | Inr h \<Rightarrow> Inr
             \<lparr>DatabaseURL = env ''DATABASE_URL'', Port = p, BuildSHA = envOr env ''BUILD_SHA'' ''unknown'',
              MaterializeHorizon = h, PortalJWTSecret = env ''PORTAL_JWT_SECRET'',
              PortalJWTIssuer = envOr env ''PORTAL_JWT_ISSUER'' ''cadenceos-portal'',
              PortalJWTAudience = envOr env ''PORTAL_JWT_AUDIENCE'' ''cadenceos'',
              ServiceAPIKey = env ''SERVICE_API_KEY'', PostmarkAPIKey = env ''POSTMARK_API_KEY'',
              NotificationFromAddress = env ''NOTIFICATION_FROM_ADDRESS'',
              NotificationSupportContact = env ''NOTIFICATION_SUPPORT_CONTACT''\<rparr>)))"

section \<open>What a binary requires beyond that\<close>

definition requireSecret :: "string \<Rightarrow> string \<Rightarrow> go_error option" where
  "requireSecret key v =
    (if v = '''' then Some (ErrText (key @ '' is required''))
     else if length v < minSecretLength
     then Some (ErrText (key @ '' must be at least '' @ dec minSecretLength @ '' characters''))
     else None)"

definition RequireAuth :: "config \<Rightarrow> go_error option" where
  "RequireAuth c =
    (case requireSecret ''PORTAL_JWT_SECRET'' (PortalJWTSecret c) of
       Some e \<Rightarrow> Some e
     | None \<Rightarrow> requireSecret ''SERVICE_API_KEY'' (ServiceAPIKey c))"

definition RequireNotifications :: "(string \<Rightarrow> go_error option) \<Rightarrow> config \<Rightarrow> go_error option" where
  "RequireNotifications parse_address c =
    (if PostmarkAPIKey c = '''' then Some (ErrText ''POSTMARK_API_KEY is required'')
     else (case parse_address (NotificationFromAddress c) of
         Some e \<Rightarrow> Some (Wrapped ''NOTIFICATION_FROM_ADDRESS is not a valid address: '' e '''')
       | None \<Rightarrow> if NotificationSupportContact c = ''''
                 then Some (ErrText ''NOTIFICATION_SUPPORT_CONTACT is required'') else None))"

section \<open>What a loaded configuration is\<close>

lemma load_port_Inr: "load_port env = Inr p \<Longrightarrow> 1 \<le> p \<and> p \<le> 65535"
  by (auto simp: load_port_def split: if_splits option.splits)

lemma load_horizon_Inr: "load_horizon env = Inr h \<Longrightarrow> 1 \<le> h \<and> h < 2 ^ 63"
  by (auto simp: load_horizon_def Atoi_def int64_def split: if_splits option.splits)

lemma RequireAuth_None:
  "RequireAuth c = None \<longleftrightarrow> minSecretLength \<le> length (PortalJWTSecret c) \<and> minSecretLength \<le> length (ServiceAPIKey c)"
  by (auto simp: RequireAuth_def requireSecret_def minSecretLength_def split: option.splits)

lemma loaded_config:
  assumes "Load env = Inr c"
  shows "DatabaseURL c \<noteq> ''''" "1 \<le> Port c" "Port c \<le> 65535" "1 \<le> MaterializeHorizon c" "MaterializeHorizon c < 2 ^ 63"
    "PortalJWTIssuer c \<noteq> ''''" "PortalJWTAudience c \<noteq> ''''"
proof -
  note run = assms [unfolded Load_def]
  have url: "env ''DATABASE_URL'' \<noteq> ''''"
    by (rule notI) (use run in simp)
  note run = run [unfolded if_not_P [OF url]]
  obtain p where p: "load_port env = Inr p" using run by (cases "load_port env") simp_all
  note run = run [unfolded p sum.case]
  obtain h where h: "load_horizon env = Inr h" using run by (cases "load_horizon env") simp_all
  note run = run [unfolded h sum.case]
  have c: "DatabaseURL c = env ''DATABASE_URL''" "Port c = p" "MaterializeHorizon c = h"
    "PortalJWTIssuer c = envOr env ''PORTAL_JWT_ISSUER'' ''cadenceos-portal''"
    "PortalJWTAudience c = envOr env ''PORTAL_JWT_AUDIENCE'' ''cadenceos''"
    by (simp_all only: run [symmetric, THEN sum.inject(2) [THEN iffD1]] config.simps)
  then show "DatabaseURL c \<noteq> ''''" "1 \<le> Port c" "Port c \<le> 65535" "1 \<le> MaterializeHorizon c" "MaterializeHorizon c < 2 ^ 63"
    "PortalJWTIssuer c \<noteq> ''''" "PortalJWTAudience c \<noteq> ''''"
    using url load_port_Inr [OF p] load_horizon_Inr [OF h] by (simp_all add: envOr_def)
qed

lemma requireSecret_lengths: "length v' = length v \<Longrightarrow> requireSecret key v' = requireSecret key v"
  by (cases v; cases v') (simp_all add: requireSecret_def)

lemma RequireAuth_lengths:
  "length (PortalJWTSecret c') = length (PortalJWTSecret c) \<Longrightarrow> length (ServiceAPIKey c') = length (ServiceAPIKey c) \<Longrightarrow>
     RequireAuth c' = RequireAuth c"
  using requireSecret_lengths [of "PortalJWTSecret c'" "PortalJWTSecret c" "''PORTAL_JWT_SECRET''"]
    requireSecret_lengths [of "ServiceAPIKey c'" "ServiceAPIKey c" "''SERVICE_API_KEY''"]
  unfolding RequireAuth_def by (simp cong: option.case_cong)

text \<open>C30. A configuration that loads names a database, a port a listener can bind and a horizon of at
  least one order; the service's own check accepts it exactly when both secrets are at least 32
  bytes, and no error names a secret's value.\<close>

theorem loaded_configurations_are_usable:
  assumes "Load env = Inr c"
  shows "DatabaseURL c \<noteq> '''' \<and> 1 \<le> Port c \<and> Port c \<le> 65535 \<and> 1 \<le> MaterializeHorizon c \<and> MaterializeHorizon c < 2 ^ 63
    \<and> PortalJWTIssuer c \<noteq> '''' \<and> PortalJWTAudience c \<noteq> ''''
    \<and> (RequireAuth c = None \<longleftrightarrow> 32 \<le> length (PortalJWTSecret c) \<and> 32 \<le> length (ServiceAPIKey c))
    \<and> (\<forall>e c'. RequireAuth c = Some e \<longrightarrow> length (PortalJWTSecret c') = length (PortalJWTSecret c) \<longrightarrow>
         length (ServiceAPIKey c') = length (ServiceAPIKey c) \<longrightarrow> RequireAuth c' = Some e)"
  using loaded_config [OF assms] RequireAuth_lengths RequireAuth_None [of c, unfolded minSecretLength_def] by metis

definition sample_env :: env where
  "sample_env key = (if key = ''DATABASE_URL'' then ''postgres:///cadence''
     else if key = ''PORT'' then ''8081'' else '''')"

lemma loaded_configurations_are_usable_witness:
  "\<exists>c. Load sample_env = Inr c \<and> 1 \<le> Port c \<and> Port c \<le> 65535 \<and> RequireAuth c \<noteq> None"
proof -
  have "Atoi ''8081'' = Some 8081"
    by (simp add: Atoi_def read_digits_def all_digits_def is_digit_def read_dec_def digit_val_def int64_def)
  then have "case Load sample_env of Inl _ \<Rightarrow> False | Inr c \<Rightarrow> PortalJWTSecret c = ''''"
    by (simp add: Load_def load_port_def load_horizon_def sample_env_def)
  then obtain c where c: "Load sample_env = Inr c" "PortalJWTSecret c = ''''" by (auto split: sum.splits)
  note usable = loaded_configurations_are_usable [OF c(1)]
  have "1 \<le> Port c" "Port c \<le> 65535" using usable by simp_all
  moreover have "RequireAuth c = None \<longleftrightarrow> 32 \<le> length (PortalJWTSecret c) \<and> 32 \<le> length (ServiceAPIKey c)"
    using usable by blast
  ultimately show ?thesis using c by (intro exI [of _ c]) simp
qed

end
