(* ===== verification/Store_Laws.thy ===== *)
theory Store_Laws
  imports Store
begin

text \<open>
  What the rest of the program may rely on from a repository, as the interface
  \<open>repository_rely\<close>: every operation, whether it succeeds or not, changes the database only by a
  step of a relation R. \<open>store_writes\<close> asks this of the thirteen writing statements of
  \<open>store.go\<close> and derives it for all thirty-two methods of \<open>PostgresRepository\<close>. The
  interpretations at the end are the relations the program promises: the constraints are kept,
  the event log is append-only, a placed order is never touched, occurrence identities are kept,
  and no schedule changes owner.
\<close>

section \<open>The interface\<close>

locale repository_rely = rely W R for W :: world and R :: "db \<Rightarrow> db \<Rightarrow> bool" +
  fixes repo :: repository
  assumes CreateSchedule_stays [go_stays]: "stays R (CreateSchedule repo s items)"
    and GetSchedule_stays [go_stays]: "stays R (GetSchedule repo i sc)"
    and GetScheduleByOriginOrderID_stays [go_stays]: "stays R (GetScheduleByOriginOrderID repo order)"
    and GetScheduleForUpdate_stays [go_stays]: "stays R (GetScheduleForUpdate repo i sc)"
    and ListSchedulesByCustomer_stays [go_stays]: "stays R (ListSchedulesByCustomer repo c)"
    and ListActiveSchedules_stays [go_stays]: "stays R (ListActiveSchedules repo)"
    and ListSchedulesDueToResume_stays [go_stays]: "stays R (ListSchedulesDueToResume repo on)"
    and ListSchedulesDueToArm_stays [go_stays]: "stays R (ListSchedulesDueToArm repo on)"
    and ListScheduleItems_stays [go_stays]: "stays R (ListScheduleItems repo i sc)"
    and UpdateScheduleNextRun_stays [go_stays]: "stays R (UpdateScheduleNextRun repo i next)"
    and CreateOccurrence_stays [go_stays]: "stays R (CreateOccurrence repo oc)"
    and ListOccurrences_stays [go_stays]: "stays R (ListOccurrences repo i sc)"
    and ListPlannedOccurrences_stays [go_stays]: "stays R (ListPlannedOccurrences repo i)"
    and CountFutureplannedOccurrences_stays [go_stays]: "stays R (CountFutureplannedOccurrences repo i on)"
    and MaxSequenceNo_stays [go_stays]: "stays R (MaxSequenceNo repo i)"
    and AppendEvent_stays [go_stays]: "stays R (AppendEvent repo e)"
    and ListEvents_stays [go_stays]: "stays R (ListEvents repo i)"
    and EventExistsWithKey_stays [go_stays]: "stays R (EventExistsWithKey repo i t k)"
    and ClaimNotifiableEvents_stays [go_stays]: "stays R (ClaimNotifiableEvents repo types timeout limit)"
    and MarkNotificationSent_stays [go_stays]: "stays R (MarkNotificationSent repo n sent_at)"
    and MarkNotificationFailed_stays [go_stays]: "stays R (MarkNotificationFailed repo n msg cap)"
    and UpdateScheduleStatus_stays [go_stays]: "stays R (UpdateScheduleStatus repo i status until)"
    and UpdateScheduleCadence_stays [go_stays]: "stays R (UpdateScheduleCadence repo i days anchor)"
    and UpdateOccurrenceStatus_stays [go_stays]: "stays R (UpdateOccurrenceStatus repo i ostatus)"
    and UpdateOccurrenceDate_stays [go_stays]: "stays R (UpdateOccurrenceDate repo i on)"
    and CancelUnexecutedOccurrences_stays [go_stays]: "stays R (CancelUnexecutedOccurrences repo i)"
    and CancelPlannedOccurrences_stays [go_stays]: "stays R (CancelPlannedOccurrences repo i)"
    and NextActionableOccurrence_stays [go_stays]: "stays R (NextActionableOccurrence repo i)"
    and NextPlannedOccurrence_stays [go_stays]: "stays R (NextPlannedOccurrence repo i)"
    and GetOccurrenceBySequence_stays [go_stays]: "stays R (GetOccurrenceBySequence repo i n)"
    and LastPlacedOccurrence_stays [go_stays]: "stays R (LastPlacedOccurrence repo i)"
    and LatestScheduledDate_stays [go_stays]: "stays R (LatestScheduledDate repo i)"

section \<open>The writing statements\<close>

lemma with_uuid_stays: "(\<And>u. query_stays R (q u)) \<Longrightarrow> query_stays R (with_uuid W i q)"
  by (auto simp: query_stays_def with_uuid_def split: option.splits)

locale store_writes = rely W R for W :: world and R :: "db \<Rightarrow> db \<Rightarrow> bool" +
  assumes insert_schedule_law: "query_stays R (q_insert_schedule W s)"
    and insert_item_law: "query_stays R (q_insert_item W i it)"
    and insert_occurrence_law: "query_stays R (q_insert_occurrence W oc)"
    and append_event_law: "query_stays R (q_append_event W e)"
    and next_run_law: "query_stays R (q_next_run next i)"
    and status_law: "query_stays R (q_status status until i)"
    and cadence_law: "query_stays R (q_cadence days anchor i)"
    and occurrence_status_law: "query_stays R (q_occurrence_status ostatus i)"
    and occurrence_date_law: "query_stays R (q_occurrence_date day i)"
    and cancel_law: "query_stays R (q_cancel statuses i)"
    and claim_law: "query_stays R (q_claim types timeout limit)"
    and mark_sent_law: "query_stays R (q_mark_sent n sent_at)"
    and mark_failed_law: "query_stays R (q_mark_failed n msg cap)"
begin

lemma query_law: "query_stays R (query f)"
  by (simp add: query_stays_def query_def R_refl)

lemmas statement_laws = query_law insert_schedule_law insert_item_law insert_occurrence_law
  append_event_law next_run_law status_law cadence_law occurrence_status_law occurrence_date_law
  cancel_law claim_law mark_sent_law mark_failed_law with_uuid_stays

lemmas built_from = statement_laws ret_stays throw_stays gets_stays check_stays bind_stays
  attempt_stays wrapping_stays for_each_stays stmt_stays in_tx_stays

lemma one_row_stays: "query_stays R q \<Longrightarrow> stays R (one_row what q W)"
  by (auto simp: one_row_def split: option.splits intro!: built_from)

lemma queryOccurrences_stays: "stays R (queryOccurrences W i f)"
  by (auto simp: queryOccurrences_def intro!: built_from)

lemma queryOneOccurrence_stays: "stays R (queryOneOccurrence W i f)"
  by (auto simp: queryOneOccurrence_def split: list.splits intro!: built_from queryOccurrences_stays)

lemma checkAffected_stays: "stays R (checkAffected n)"
  by (simp add: checkAffected_def ret_stays throw_stays)

lemma schedule_reads_stay:
  "stays R (pg_GetSchedule W i sc)" "stays R (pg_GetScheduleByOriginOrderID W order)"
  "stays R (pg_GetScheduleForUpdate W i sc)" "stays R (querySchedules W f)"
  "stays R (pg_ListScheduleItems W i sc)" "stays R (pg_ListEvents W i)"
  "stays R (pg_EventExistsWithKey W i t k)" "stays R (pg_CountFutureplannedOccurrences W i on)"
  "stays R (pg_MaxSequenceNo W i)" "stays R (pg_LatestScheduledDate W i)"
  by (auto simp: pg_GetSchedule_def pg_GetScheduleByOriginOrderID_def pg_GetScheduleForUpdate_def
      querySchedules_def pg_ListScheduleItems_def pg_ListEvents_def pg_EventExistsWithKey_def
      pg_CountFutureplannedOccurrences_def pg_MaxSequenceNo_def pg_LatestScheduledDate_def
      intro!: built_from one_row_stays)

lemma list_reads_stay:
  "stays R (pg_ListSchedulesByCustomer W c)" "stays R (pg_ListActiveSchedules W)"
  "stays R (pg_ListSchedulesDueToResume W on)" "stays R (pg_ListSchedulesDueToArm W on)"
  "stays R (pg_ListOccurrences W i sc)" "stays R (pg_ListPlannedOccurrences W i)"
  "stays R (pg_NextActionableOccurrence W i)" "stays R (pg_NextPlannedOccurrence W i)"
  "stays R (pg_GetOccurrenceBySequence W i n)" "stays R (pg_LastPlacedOccurrence W i)"
  by (simp_all add: pg_ListSchedulesByCustomer_def pg_ListActiveSchedules_def
      pg_ListSchedulesDueToResume_def pg_ListSchedulesDueToArm_def pg_ListOccurrences_def
      pg_ListPlannedOccurrences_def pg_NextActionableOccurrence_def pg_NextPlannedOccurrence_def
      pg_GetOccurrenceBySequence_def pg_LastPlacedOccurrence_def
      schedule_reads_stay queryOccurrences_stays queryOneOccurrence_stays)

lemma CreateSchedule_law: "stays R (pg_CreateSchedule W s items)"
  by (auto simp: pg_CreateSchedule_def split: sum.splits option.splits intro!: built_from)

lemma CreateOccurrence_law: "stays R (pg_CreateOccurrence W oc)"
  by (auto simp: pg_CreateOccurrence_def split: sum.splits intro!: built_from)

lemma single_statement_writes_stay:
  "stays R (pg_AppendEvent W e)" "stays R (pg_ClaimNotifiableEvents W types timeout limit)"
  "stays R (pg_MarkNotificationSent W n sent_at)" "stays R (pg_MarkNotificationFailed W n msg cap)"
  "stays R (pg_UpdateScheduleNextRun W i next)" "stays R (pg_UpdateScheduleStatus W i status until)"
  "stays R (pg_UpdateScheduleCadence W i days from)" "stays R (pg_UpdateOccurrenceStatus W i ostatus)"
  "stays R (pg_UpdateOccurrenceDate W i on)" "stays R (cancelOccurrences W i statuses)"
  by (auto simp: pg_AppendEvent_def pg_ClaimNotifiableEvents_def pg_MarkNotificationSent_def
      pg_MarkNotificationFailed_def pg_UpdateScheduleNextRun_def pg_UpdateScheduleStatus_def
      pg_UpdateScheduleCadence_def pg_UpdateOccurrenceStatus_def pg_UpdateOccurrenceDate_def
      cancelOccurrences_def intro!: built_from checkAffected_stays)

end

sublocale store_writes \<subseteq> repository_rely W R "postgres W"
  by unfold_locales
    (simp_all add: schedule_reads_stay list_reads_stay CreateSchedule_law CreateOccurrence_law
      single_statement_writes_stay pg_CancelUnexecutedOccurrences_def pg_CancelPlannedOccurrences_def)

section \<open>How the writing statements change the tables\<close>

text \<open>Every statement as an insertion at the end of one table or an update of its rows.\<close>

lemma q_insert_scheduleE:
  assumes "q_insert_schedule W s now d = Inr (a, d')"
  obtains r where "insert_schedule r d = Inr d'"
  using assms by (auto simp: q_insert_schedule_def split: option.splits float64.splits sum.splits)

lemma q_insert_itemE:
  assumes "q_insert_item W i it now d = Inr (a, d')"
  obtains r where "insert_item r d = Inr d'"
  using assms by (auto simp: q_insert_item_def split: option.splits sum.splits)

lemma q_insert_occurrenceE:
  assumes "q_insert_occurrence W oc now d = Inr (a, d')"
  obtains r where "insert_occurrence r d = Inr d'"
    and "or_order_id r = o_order_id oc" "or_idempotency_key r = o_idempotency_key oc"
      "or_sequence_no r = o_sequence_no oc" "or_status r = o_status oc"
      "or_scheduled_for r = ToTime (o_scheduled_for oc)"
      "w_uuid_in W (o_schedule_id oc) = Some (or_schedule_id r)"
  using assms by (auto simp: q_insert_occurrence_def split: option.splits sum.splits)

lemma q_append_eventE:
  assumes "q_append_event W e now d = Inr (a, d')"
  obtains r where "insert_event r d = Inr d'" "er_event_type r = e_event_type e"
    "er_idempotency_key r = e_idempotency_key e" "w_uuid_in W (e_schedule_id e) = Some (er_schedule_id r)"
  using assms by (auto simp: q_append_event_def split: option.splits sum.splits)

lemmas update_statement_defs = q_next_run_def q_status_def q_cadence_def
  q_occurrence_status_def q_occurrence_date_def q_cancel_def
lemmas notification_statement_defs = q_claim_def q_mark_sent_def q_mark_failed_def Let_def
lemmas insert_statementE = q_insert_scheduleE q_insert_itemE q_insert_occurrenceE q_append_eventE

section \<open>Relations between the contents before and after\<close>

text \<open>A relation on databases is only claimed while the other sessions respect it too.\<close>

definition others_respect :: "world \<Rightarrow> (db \<Rightarrow> db \<Rightarrow> bool) \<Rightarrow> bool" where
  "others_respect W R = (\<forall>k d. R d (w_others W k d))"

definition under :: "world \<Rightarrow> (db \<Rightarrow> db \<Rightarrow> bool) \<Rightarrow> db \<Rightarrow> db \<Rightarrow> bool" where
  "under W R d d' = (others_respect W R \<longrightarrow> R d d')"

lemma stays_under: "stays (under W R) m \<Longrightarrow> others_respect W R \<Longrightarrow> m s = (r, s') \<Longrightarrow> R (st_db s) (st_db s')"
  by (auto dest!: staysD simp: under_def)

text \<open>What a relation has to satisfy, independent of the world.\<close>

locale write_laws =
  fixes R :: "db \<Rightarrow> db \<Rightarrow> bool"
  assumes refl: "R d d"
    and trans: "R d1 d2 \<Longrightarrow> R d2 d3 \<Longrightarrow> R d1 d3"
    and on_insert_schedule: "insert_schedule r d = Inr d' \<Longrightarrow> R d d'"
    and on_insert_item: "insert_item it d = Inr d' \<Longrightarrow> R d d'"
    and on_insert_occurrence: "insert_occurrence oc d = Inr d' \<Longrightarrow> R d d'"
    and on_insert_event: "insert_event e d = Inr d' \<Longrightarrow> R d d'"
    and on_next_run: "q_next_run next i now d = Inr (n, d') \<Longrightarrow> R d d'"
    and on_status: "q_status status until i now d = Inr (n, d') \<Longrightarrow> R d d'"
    and on_cadence: "q_cadence days anchor i now d = Inr (n, d') \<Longrightarrow> R d d'"
    and on_occurrence_status: "q_occurrence_status ostatus i now d = Inr (n, d') \<Longrightarrow> R d d'"
    and on_occurrence_date: "q_occurrence_date day i now d = Inr (n, d') \<Longrightarrow> R d d'"
    and on_cancel: "q_cancel statuses i now d = Inr (n, d') \<Longrightarrow> R d d'"
    and on_claim: "q_claim types timeout limit now d = Inr (es, d') \<Longrightarrow> R d d'"
    and on_mark_sent: "q_mark_sent k sent_at now d = Inr (n, d') \<Longrightarrow> R d d'"
    and on_mark_failed: "q_mark_failed k msg cap now d = Inr (n, d') \<Longrightarrow> R d d'"

sublocale write_laws \<subseteq> store_writes W "under W R" for W
proof unfold_locales
  show "under W R d d" for d by (simp add: under_def refl)
  show "under W R d1 d3" if "under W R d1 d2" "under W R d2 d3" for d1 d2 d3
    using that trans by (auto simp: under_def)
  show "under W R d (w_others W k d)" for k d by (simp add: under_def others_respect_def)
qed (auto simp: query_stays_def under_def elim!: insert_statementE
    intro: on_insert_schedule on_insert_item on_insert_occurrence on_insert_event on_next_run
      on_status on_cadence on_occurrence_status on_occurrence_date on_cancel on_claim
      on_mark_sent on_mark_failed)

section \<open>The relations the program keeps\<close>

text \<open>Constraints are kept.\<close>

definition keeps_constraints :: "db \<Rightarrow> db \<Rightarrow> bool" where
  "keeps_constraints d d' = (db_wf d \<longrightarrow> db_wf d')"

text \<open>Nothing that names a row is ever rewritten, and no row disappears: the identifying columns
  of schedules, occurrences and notifications, and the whole event log, only grow at the end.\<close>

definition schedule_identity :: "schedule_row \<Rightarrow> string \<times> string \<times> string \<times> string \<times> int" where
  "schedule_identity r =
     (sr_id r, sr_customer_id r, sr_origin_order_id r, sr_timezone r, sr_created_at r)"

definition occurrence_identity :: "occurrence_row \<Rightarrow> string \<times> string \<times> int \<times> string" where
  "occurrence_identity r =
     (or_id r, or_schedule_id r, or_sequence_no r, or_idempotency_key r)"

definition keeps_identities :: "db \<Rightarrow> db \<Rightarrow> bool" where
  "keeps_identities d d' =
    (prefix (map schedule_identity (db_schedules d)) (map schedule_identity (db_schedules d'))
     \<and> prefix (map occurrence_identity (db_occurrences d)) (map occurrence_identity (db_occurrences d'))
     \<and> prefix (map nr_schedule_event_id (db_notifications d)) (map nr_schedule_event_id (db_notifications d'))
     \<and> prefix (db_items d) (db_items d'))"

definition appends_events :: "db \<Rightarrow> db \<Rightarrow> bool" where
  "appends_events d d' = (prefix (db_events d) (db_events d') \<and> db_event_seq d \<le> db_event_seq d')"

text \<open>An occurrence that carries an order is never written again.\<close>

definition keeps_orders :: "db \<Rightarrow> db \<Rightarrow> bool" where
  "keeps_orders d d' =
    (db_wf d \<longrightarrow> db_wf d' \<and>
       (\<forall>r \<in> set (db_occurrences d). or_order_id r \<noteq> None \<longrightarrow> r \<in> set (db_occurrences d')))"

section \<open>Facts about the claim\<close>

lemma claim_one_ids:
  "map nr_schedule_event_id (claim_one now e ns) =
     map nr_schedule_event_id ns @
       (if er_id e \<in> set (map nr_schedule_event_id ns) then [] else [er_id e])"
  by (simp add: claim_one_def)

lemma fold_claim_prefix:
  "prefix (map nr_schedule_event_id ns) (map nr_schedule_event_id (fold (claim_one now) es ns))"
proof (induction es arbitrary: ns)
  case (Cons e es)
  have "prefix (map nr_schedule_event_id ns) (map nr_schedule_event_id (claim_one now e ns))"
    by (simp add: claim_one_ids)
  then show ?case using Cons.IH [of "claim_one now e ns"] by (auto intro: prefix_order.trans)
qed simp

lemma fold_claim_distinct:
  "distinct (map nr_schedule_event_id ns) \<Longrightarrow>
   distinct (map nr_schedule_event_id (fold (claim_one now) es ns))"
  by (induction es arbitrary: ns) (auto simp: claim_one_ids)

lemma fold_claim_set:
  "set (map nr_schedule_event_id (fold (claim_one now) es ns))
     = set (map nr_schedule_event_id ns) \<union> er_id ` set es"
proof (induction es arbitrary: ns)
  case (Cons e es)
  have "set (map nr_schedule_event_id (claim_one now e ns))
      = insert (er_id e) (set (map nr_schedule_event_id ns))"
    unfolding claim_one_ids by auto
  with Cons.IH [of "claim_one now e ns"] show ?case by simp
qed simp

lemma q_claim_wf:
  assumes "db_wf d" and "q_claim types timeout limit now d = Inr (es, d')"
  shows "db_wf d'"
proof -
  define cs where "cs = take limit (sort_key er_id (filter (claimable types timeout now d) (db_events d)))"
  have d': "d' = d\<lparr>db_notifications := fold (claim_one now) cs (db_notifications d)\<rparr>"
    using assms(2) by (simp add: q_claim_def cs_def Let_def)
  have "set cs \<subseteq> set (db_events d)" by (auto simp: cs_def dest!: in_set_takeD)
  moreover have "\<forall>n \<in> set (db_notifications d). nr_schedule_event_id n \<in> er_id ` set (db_events d)"
    using assms(1) by (simp add: db_wf_def)
  ultimately have "nr_schedule_event_id n \<in> er_id ` set (db_events d)"
    if "n \<in> set (fold (claim_one now) cs (db_notifications d))" for n
    using fold_claim_set [of now cs "db_notifications d"] that by (fastforce simp: image_iff)
  then show ?thesis
    using assms(1) unfolding d' db_wf_def schedule_exists_def by (auto simp: fold_claim_distinct)
qed

section \<open>The interpretations\<close>

lemma notifications_update_wf:
  "db_wf d \<Longrightarrow> (\<And>n. nr_schedule_event_id (f n) = nr_schedule_event_id n) \<Longrightarrow>
   db_wf (d\<lparr>db_notifications := update_where p f (db_notifications d)\<rparr>)"
  by (auto simp: db_wf_def schedule_exists_def set_update_where)

lemma statement_update_wf:
  assumes "db_wf d"
  shows "q_next_run next i now d = Inr (n, d') \<Longrightarrow> db_wf d'"
    and "q_status status until i now d = Inr (n, d') \<Longrightarrow> db_wf d'"
    and "q_cadence days anchor i now d = Inr (n, d') \<Longrightarrow> db_wf d'"
    and "q_occurrence_status ostatus i now d = Inr (n, d') \<Longrightarrow> db_wf d'"
    and "q_occurrence_date day i now d = Inr (n, d') \<Longrightarrow> db_wf d'"
    and "q_cancel statuses i now d = Inr (n, d') \<Longrightarrow> db_wf d'"
    and "q_mark_sent k sent_at now d = Inr (n, d') \<Longrightarrow> db_wf d'"
    and "q_mark_failed k msg cap now d = Inr (n, d') \<Longrightarrow> db_wf d'"
  using assms
  by (auto simp: update_statement_defs q_mark_sent_def q_mark_failed_def
      intro: update_schedules_wf update_occurrences_wf notifications_update_wf)

lemmas all_writes_wf = insert_schedule_wf insert_item_wf insert_occurrence_wf insert_event_wf
  statement_update_wf q_claim_wf

interpretation constraints: write_laws keeps_constraints
  by unfold_locales (auto simp: keeps_constraints_def intro: all_writes_wf)

interpretation log: write_laws appends_events
  by unfold_locales
    (auto simp: appends_events_def update_statement_defs notification_statement_defs
      dest!: write_Inr)

interpretation identities: write_laws keeps_identities
  by unfold_locales
    (auto simp: keeps_identities_def update_statement_defs notification_statement_defs
      schedule_identity_def occurrence_identity_def fold_claim_prefix
      dest!: write_Inr intro: prefix_order.trans)

lemma executed_not_unexecuted:
  "db_wf d \<Longrightarrow> r \<in> set (db_occurrences d) \<Longrightarrow> or_order_id r \<noteq> None \<Longrightarrow> \<not> unexecuted r"
  by (auto simp: db_wf_def occurrence_checks_def unexecuted_def)

lemma update_occurrences_keeps_orders:
  assumes upd: "update_occurrences p f d = Inr (n, d')"
    and unplaced: "\<And>r. db_wf d \<Longrightarrow> r \<in> set (db_occurrences d) \<Longrightarrow> p r \<Longrightarrow> or_order_id r = None"
    and keys: "\<And>r. or_id (f r) = or_id r" "\<And>r. or_idempotency_key (f r) = or_idempotency_key r"
      "\<And>r. or_schedule_id (f r) = or_schedule_id r" "\<And>r. or_sequence_no (f r) = or_sequence_no r"
  shows "keeps_orders d d'"
  unfolding keeps_orders_def
proof (intro impI conjI ballI)
  assume wf: "db_wf d"
  then show "db_wf d'" using upd keys by (rule update_occurrences_wf)
  fix r assume r: "r \<in> set (db_occurrences d)" "or_order_id r \<noteq> None"
  then have "\<not> p r" using unplaced [OF wf] by auto
  then show "r \<in> set (db_occurrences d')"
    using r update_occurrences_Inr [OF upd] by (auto simp: set_update_where image_iff intro!: bexI [of _ r])
qed

lemma keeps_ordersI:
  "(db_wf d \<Longrightarrow> db_wf d') \<Longrightarrow> set (db_occurrences d) \<subseteq> set (db_occurrences d') \<Longrightarrow> keeps_orders d d'"
  by (auto simp: keeps_orders_def)

lemma schedule_update_occurrences:
  "update_schedules p f d = Inr (n, d') \<Longrightarrow> db_occurrences d' = db_occurrences d"
  by (auto dest: update_schedules_Inr)

lemma statement_keeps_orders:
  "insert_schedule r d = Inr d' \<Longrightarrow> keeps_orders d d'"
  "insert_item it d = Inr d' \<Longrightarrow> keeps_orders d d'"
  "insert_occurrence oc d = Inr d' \<Longrightarrow> keeps_orders d d'"
  "insert_event e d = Inr d' \<Longrightarrow> keeps_orders d d'"
  "q_next_run next i now d = Inr (n, d') \<Longrightarrow> keeps_orders d d'"
  "q_status status until i now d = Inr (n, d') \<Longrightarrow> keeps_orders d d'"
  "q_cadence days anchor i now d = Inr (n, d') \<Longrightarrow> keeps_orders d d'"
  "q_claim types timeout limit now d = Inr (es, d') \<Longrightarrow> keeps_orders d d'"
  "q_mark_sent k sent_at now d = Inr (n, d') \<Longrightarrow> keeps_orders d d'"
  "q_mark_failed k msg cap now d = Inr (n, d') \<Longrightarrow> keeps_orders d d'"
  by (rule keeps_ordersI, erule (1) all_writes_wf,
      force simp: update_statement_defs notification_statement_defs
        dest: write_Inr schedule_update_occurrences)+

lemma occurrence_statement_keeps_orders:
  "q_occurrence_status ostatus i now d = Inr (n, d') \<Longrightarrow> keeps_orders d d'"
  "q_occurrence_date day i now d = Inr (n, d') \<Longrightarrow> keeps_orders d d'"
  "q_cancel statuses i now d = Inr (n, d') \<Longrightarrow> keeps_orders d d'"
  by (auto simp: q_occurrence_status_def q_occurrence_date_def q_cancel_def
      dest: executed_not_unexecuted elim!: update_occurrences_keeps_orders)

lemma keeps_orders_trans: "keeps_orders d1 d2 \<Longrightarrow> keeps_orders d2 d3 \<Longrightarrow> keeps_orders d1 d3"
  unfolding keeps_orders_def by blast

interpretation orders: write_laws keeps_orders
  by unfold_locales
    (blast intro: keeps_ordersI statement_keeps_orders occurrence_statement_keeps_orders keeps_orders_trans)+

end
