(* ===== verification/Materialize.thy ===== *)
theory Materialize
  imports Store_Laws
begin

text \<open>
  \<open>internal/materialize\<close>: the rolling horizon of planned occurrences. A Go function that returns
  counts beside its error is a program of type \<open>'o run\<close>: it always delivers its outputs, with the
  error next to them. The repository is a parameter, so \<open>WithRepo\<close> inside a transaction is the
  same operations on the transaction's repository. The lemmas at the end, proved for any
  repository of the interface \<open>repository_rely\<close>, show that planning keeps every relation the
  repository keeps.
\<close>

section \<open>Outputs beside errors\<close>

type_synonym 'o run = "('o \<times> go_error option) go"

definition deliver :: "'o \<Rightarrow> go_error option \<Rightarrow> 'o run" where
  "deliver outs err = ret (outs, err)"

text \<open>\<open>x, err := m; if err != nil { return outs, err }\<close>\<close>

definition or_deliver :: "'o \<Rightarrow> 'a go \<Rightarrow> ('a \<Rightarrow> 'o run) \<Rightarrow> 'o run" where
  "or_deliver outs m k = bind (attempt m) (\<lambda>r. case r of Inl e \<Rightarrow> deliver outs (Some e) | Inr a \<Rightarrow> k a)"

text \<open>\<open>_, _, err := m; return err\<close>\<close>

definition only_error :: "'o run \<Rightarrow> unit go" where
  "only_error m = bind m (\<lambda>r. check (snd r))"

definition in_tx_run :: "world \<Rightarrow> 'o \<Rightarrow> 'o run \<Rightarrow> 'o run" where
  "in_tx_run W zero m s =
    (case in_tx_out W zero (\<lambda>s. case m s of (Inr r, s') \<Rightarrow> (r, s') | (Inl e, s') \<Rightarrow> ((zero, Some e), s')) s of
       (r, s') \<Rightarrow> (Inr r, s'))"

section \<open>The materializer\<close>

record materializer =
  m_repo :: repository
  m_horizon :: int

definition New_materializer :: "repository \<Rightarrow> int \<Rightarrow> materializer" where
  "New_materializer repo horizon = \<lparr>m_repo = repo, m_horizon = (if horizon < 1 then 1 else horizon)\<rparr>"

definition WithRepo :: "materializer \<Rightarrow> repository \<Rightarrow> materializer" where
  "WithRepo m repo = m\<lparr>m_repo := repo\<rparr>"

text \<open>The loop of \<open>RefreshNextRunDate\<close>: the earliest planned date after today.\<close>

fun earliest_after :: "date \<Rightarrow> occurrence list \<Rightarrow> date option \<Rightarrow> date option" where
  "earliest_after today [] next = next"
| "earliest_after today (oc # ocs) next =
    (if \<not> After (o_scheduled_for oc) today then earliest_after today ocs next
     else if (case next of None \<Rightarrow> True | Some n \<Rightarrow> Before (o_scheduled_for oc) n)
       then earliest_after today ocs (Some (o_scheduled_for oc))
     else earliest_after today ocs next)"

definition RefreshNextRunDate :: "materializer \<Rightarrow> schedule \<Rightarrow> date \<Rightarrow> unit go" where
  "RefreshNextRunDate m s today =
     bind (ListPlannedOccurrences (m_repo m) (s_id s))
       (\<lambda>planned. UpdateScheduleNextRun (m_repo m) (s_id s) (earliest_after today planned None))"

definition planned_occurrence :: "string \<Rightarrow> string \<Rightarrow> int \<Rightarrow> date \<Rightarrow> occurrence" where
  "planned_occurrence i sid seq date =
    \<lparr>o_id = i, o_schedule_id = sid, o_sequence_no = seq, o_scheduled_for = date,
     o_status = OccurrencePlanned, o_order_id = None, o_idempotency_key = IdempotencyKey sid seq,
     o_created_at = 0, o_updated_at = 0\<rparr>"

definition materialized_event :: "string \<Rightarrow> int \<Rightarrow> date \<Rightarrow> schedule_event" where
  "materialized_event sid seq date =
    \<lparr>e_id = 0, e_schedule_id = sid, e_event_type = EventOccurrenceMaterialed, e_actor = ActorSystem,
     e_reason_code = None,
     e_payload = Some (JObj [(''sequence_no'', JNum seq), (''scheduled_for'', JStr (String date))]),
     e_idempotency_key = None, e_created_at = 0\<rparr>"

text \<open>The loop of \<open>Run\<close>: \<open>k\<close> occurrences still missing, \<open>seq\<close> the last number used, \<open>cursor\<close> the
  last date spoken for, and the counts so far.\<close>

fun plan_missing ::
    "world \<Rightarrow> materializer \<Rightarrow> schedule \<Rightarrow> nat \<Rightarrow> int \<Rightarrow> date \<Rightarrow> int \<times> int \<Rightarrow> (int \<times> int) run" where
  "plan_missing W m s 0 seq cursor counts = deliver counts None"
| "plan_missing W m s (Suc k) seq cursor (created, dups) =
    (case NextOccurrenceAfter (s_anchor_date s) (s_interval_days s) cursor of
       Inl e \<Rightarrow> deliver (created, dups) (Some e)
     | Inr (_, date) \<Rightarrow>
        or_deliver (created, dups) (new_id W) (\<lambda>i.
        bind (attempt (CreateOccurrence (m_repo m) (planned_occurrence i (s_id s) (seq + 1) date)))
          (\<lambda>r. case r of
             Inl e \<Rightarrow>
               if err_is e ErrDuplicateOccurrence
               then plan_missing W m s k (seq + 1) date (created, dups + 1)
               else deliver (created, dups) (Some e)
           | Inr _ \<Rightarrow>
               or_deliver (created + 1, dups)
                 (AppendEvent (m_repo m) (materialized_event (s_id s) (seq + 1) date))
                 (\<lambda>_. plan_missing W m s k (seq + 1) date (created + 1, dups)))))"

definition Run :: "world \<Rightarrow> materializer \<Rightarrow> schedule \<Rightarrow> date \<Rightarrow> (int \<times> int) run" where
  "Run W m s today =
    (if \<not> IsActive s then deliver (0, 0) None
     else case ValidateInterval (s_interval_days s) of
       Some e \<Rightarrow> deliver (0, 0) (Some (Wrapped (''schedule '' @ s_id s @ '': '') e ''''))
     | None \<Rightarrow>
        or_deliver (0, 0) (CountFutureplannedOccurrences (m_repo m) (s_id s) today) (\<lambda>existing.
        if m_horizon m - existing \<le> 0
        then or_deliver (0, 0) (RefreshNextRunDate m s today) (\<lambda>_. deliver (0, 0) None)
        else
          or_deliver (0, 0) (MaxSequenceNo (m_repo m) (s_id s)) (\<lambda>maxSeq.
          or_deliver (0, 0) (LatestScheduledDate (m_repo m) (s_id s)) (\<lambda>latest.
          let cursor = (case latest of
                Some l \<Rightarrow> if After l today then l else today | None \<Rightarrow> today) in
          bind (plan_missing W m s (nat (m_horizon m - existing)) maxSeq cursor (0, 0))
            (\<lambda>(counts, err). case err of
               Some e \<Rightarrow> deliver counts (Some e)
             | None \<Rightarrow> or_deliver counts (RefreshNextRunDate m s today) (\<lambda>_. deliver counts None))))))"

section \<open>The nightly run\<close>

record mat_result =
  SchedulesConsidered :: int
  OccurrencesCreated :: int
  DuplicatesSkipped :: int

text \<open>One schedule of \<open>RunAll\<close>: its own transaction, on the row as the lock reads it.\<close>

definition materialize_one :: "world \<Rightarrow> materializer \<Rightarrow> date \<Rightarrow> string \<Rightarrow> (int \<times> int) run" where
  "materialize_one W m today sid = in_tx_run W (0, 0)
     (bind (attempt (GetScheduleForUpdate (m_repo m) sid SystemScope)) (\<lambda>r. case r of
        Inl e \<Rightarrow> deliver (0, 0) (if err_is e ErrNotFound then None else Some e)
      | Inr current \<Rightarrow> Run W m current today))"

fun materialize_each ::
    "world \<Rightarrow> materializer \<Rightarrow> date \<Rightarrow> schedule list \<Rightarrow> mat_result \<Rightarrow> go_error option \<Rightarrow> mat_result run" where
  "materialize_each W m today [] res firstErr = deliver res firstErr"
| "materialize_each W m today (s # ss) res firstErr =
    bind (materialize_one W m today (s_id s)) (\<lambda>((created, dupes), err).
      materialize_each W m today ss
        (res\<lparr>SchedulesConsidered := SchedulesConsidered res + 1,
             OccurrencesCreated := OccurrencesCreated res + created,
             DuplicatesSkipped := DuplicatesSkipped res + dupes\<rparr>)
        (if firstErr = None then err else firstErr))"

definition RunAll :: "world \<Rightarrow> materializer \<Rightarrow> date \<Rightarrow> mat_result run" where
  "RunAll W m today =
    (let zero = \<lparr>SchedulesConsidered = 0, OccurrencesCreated = 0, DuplicatesSkipped = 0\<rparr> in
     or_deliver zero (wrapping ''list active schedules: '' (ListActiveSchedules (m_repo m)))
       (\<lambda>schedules. materialize_each W m today schedules zero None))"

section \<open>Planning keeps what the repository keeps\<close>

context rely
begin

lemma deliver_stays [go_stays]: "stays R (deliver outs err)"
  by (simp add: deliver_def ret_stays)

lemma or_deliver_stays [go_stays]:
  "stays R m \<Longrightarrow> (\<And>a. stays R (k a)) \<Longrightarrow> stays R (or_deliver outs m k)"
  by (auto simp: or_deliver_def split: sum.splits intro!: bind_stays attempt_stays deliver_stays)

lemma only_error_stays [go_stays]: "stays R m \<Longrightarrow> stays R (only_error m)"
  by (auto simp: only_error_def intro!: bind_stays check_stays)

lemma in_tx_run_stays [go_stays]:
  assumes "stays R m"
  shows "stays R (in_tx_run W zero m)"
  unfolding stays_def
proof
  fix s
  let ?fn = "\<lambda>s. case m s of (Inr r, s') \<Rightarrow> (r, s') | (Inl e, s') \<Rightarrow> ((zero, Some e), s')"
  have "R (st_db s) (st_db (snd (?fn s)))" for s
    using assms by (auto simp: stays_def split: prod.splits sum.splits) (metis snd_conv)+
  from in_tx_out_stays [of ?fn s zero, OF this]
  show "R (st_db s) (st_db (snd (in_tx_run W zero m s)))"
    by (auto simp: in_tx_run_def split: prod.splits)
qed

end

context repository_rely
begin

lemma RefreshNextRunDate_stays [go_stays]:
  assumes [simp]: "m_repo m = repo"
  shows "stays R (RefreshNextRunDate m s today)"
  by (simp add: RefreshNextRunDate_def go_stays)

lemma plan_missing_stays [go_stays]:
  assumes [simp]: "m_repo m = repo"
  shows "stays R (plan_missing W m s k seq cursor counts)"
proof (induction k arbitrary: seq cursor counts)
  case (Suc k)
  then show ?case by (cases counts) (auto split: sum.splits prod.splits intro!: go_stays)
qed (simp add: go_stays)

lemma Run_stays [go_stays]:
  assumes [simp]: "m_repo m = repo"
  shows "stays R (Run W m s today)"
  by (auto simp: Run_def Let_def split: option.splits intro!: go_stays)

lemma materialize_one_stays [go_stays]:
  assumes [simp]: "m_repo m = repo"
  shows "stays R (materialize_one W m today sid)"
  by (auto simp: materialize_one_def split: sum.splits intro!: go_stays)

lemma materialize_each_stays [go_stays]:
  assumes [simp]: "m_repo m = repo"
  shows "stays R (materialize_each W m today ss res firstErr)"
  by (induction ss arbitrary: res firstErr) (auto intro!: go_stays)

lemma RunAll_stays [go_stays]:
  assumes [simp]: "m_repo m = repo"
  shows "stays R (RunAll W m today)"
  by (auto simp: RunAll_def Let_def intro!: go_stays)

end

end
