(* ===== verification/Service.thy ===== *)
theory Service
  imports Materialize
begin

text \<open>
  \<open>internal/schedule/service.go\<close>: the transitions of a schedule. \<open>transition\<close> locks the row,
  checks the precondition against what the lock read, applies the change with its event and reads
  the row back, in one transaction. Each action is the closure the source hands to it. For any
  repository of the interface, every action keeps the relations the repository keeps.
\<close>

section \<open>The service\<close>

record caller =
  c_actor :: event_actor
  c_scope :: scope

record service =
  svc_repo :: repository
  svc_mat :: materializer

definition New_service :: "repository \<Rightarrow> materializer \<Rightarrow> service" where
  "New_service repo mat = \<lparr>svc_repo = repo, svc_mat = mat\<rparr>"

definition zone_of :: "world \<Rightarrow> schedule \<Rightarrow> location" where
  "zone_of W s = (case w_load_location W (s_timezone s) of None \<Rightarrow> utc | Some loc \<Rightarrow> loc)"

definition today :: "world \<Rightarrow> schedule \<Rightarrow> date go" where
  "today W s = bind (clock W) (\<lambda>now. ret (DateOf (zone_of W s) now))"

definition transition ::
    "world \<Rightarrow> service \<Rightarrow> string \<Rightarrow> action \<Rightarrow> caller \<Rightarrow> (repository \<Rightarrow> schedule \<Rightarrow> unit go) \<Rightarrow> schedule go" where
  "transition W svc scheduleID a caller apply_to =
    (let tx = svc_repo svc in
     in_tx W
       (bind (GetScheduleForUpdate tx scheduleID (c_scope caller)) (\<lambda>s.
        bind (check (ValidateScheduleTransition (s_status s) a)) (\<lambda>_.
        bind (apply_to tx s) (\<lambda>_.
        GetSchedule tx scheduleID (c_scope caller))))))"

definition service_event ::
    "string \<Rightarrow> event_type \<Rightarrow> caller \<Rightarrow> string option \<Rightarrow> string option \<Rightarrow> (string \<times> json) list \<Rightarrow> schedule_event" where
  "service_event sid t caller key reason body =
    \<lparr>e_id = 0, e_schedule_id = sid, e_event_type = t, e_actor = c_actor caller, e_reason_code = reason,
     e_payload = Some (JObj body), e_idempotency_key = key, e_created_at = 0\<rparr>"

section \<open>Actions\<close>

definition Pause :: "world \<Rightarrow> service \<Rightarrow> string \<Rightarrow> date option \<Rightarrow> caller \<Rightarrow> schedule go" where
  "Pause W svc scheduleID until caller =
    transition W svc scheduleID ActionPause caller (\<lambda>tx s.
      bind (case until of
              None \<Rightarrow> ret ()
            | Some u \<Rightarrow> bind (today W s) (\<lambda>t. if \<not> After u t
                then throw (TransitionError ActionPause (s_status s) ''the date to resume on must be in the future'')
                else ret ())) (\<lambda>_.
      bind (UpdateScheduleStatus tx (s_id s) SchedulePaused until) (\<lambda>_.
      bind (CancelUnexecutedOccurrences tx (s_id s)) (\<lambda>canceled.
      bind (UpdateScheduleNextRun tx (s_id s) None) (\<lambda>_.
      AppendEvent tx (service_event (s_id s) EventSchedulePaused caller None None
        ((''occurrences_canceled'', JNum canceled) #
         (case until of None \<Rightarrow> [] | Some u \<Rightarrow> [(''paused_until'', JStr (String u))]))))))))"

definition Resume :: "world \<Rightarrow> service \<Rightarrow> string \<Rightarrow> caller \<Rightarrow> schedule go" where
  "Resume W svc scheduleID caller =
    transition W svc scheduleID ActionResume caller (\<lambda>tx s.
      bind (today W s) (\<lambda>t.
      bind (UpdateScheduleStatus tx (s_id s) ScheduleActive None) (\<lambda>_.
      bind (UpdateScheduleCadence tx (s_id s) (s_interval_days s) t) (\<lambda>_.
      bind (AppendEvent tx (service_event (s_id s) EventScheduleResumed caller None None
        [(''anchor_date'', JStr (String t)), (''interval_days'', JNum (s_interval_days s)),
         (''next_order_date'', JStr (String (AddDays t (s_interval_days s))))])) (\<lambda>_.
      only_error (Run W (WithRepo (svc_mat svc) tx)
        (s\<lparr>s_status := ScheduleActive, s_anchor_date := t, s_paused_until := None\<rparr>) t))))))"

definition nextOccurrence :: "repository \<Rightarrow> schedule \<Rightarrow> action \<Rightarrow> string \<Rightarrow> occurrence go" where
  "nextOccurrence tx s a emptyMsg =
    bind (attempt (NextActionableOccurrence tx (s_id s))) (\<lambda>r. case r of
      Inl e \<Rightarrow> if err_is e ErrNotFound then throw (TransitionError a (s_status s) emptyMsg)
               else throw (Wrapped ''find next order: '' e '''')
    | Inr occ \<Rightarrow> bind (check (ValidateOccurrenceAction occ a)) (\<lambda>_. ret occ))"

definition SkipNext :: "world \<Rightarrow> service \<Rightarrow> string \<Rightarrow> string \<Rightarrow> caller \<Rightarrow> schedule go" where
  "SkipNext W svc scheduleID idempotencyKey caller =
    bind (check (ValidateIdempotencyKey idempotencyKey)) (\<lambda>_.
    transition W svc scheduleID ActionSkipNext caller (\<lambda>tx s.
      bind (EventExistsWithKey tx (s_id s) EventOccurrenceSkipped idempotencyKey) (\<lambda>already.
      if already then ret ()
      else
        bind (nextOccurrence tx s ActionSkipNext ''there is no upcoming order to skip'') (\<lambda>occ.
        bind (UpdateOccurrenceStatus tx (o_id occ) OccurrenceSkipped) (\<lambda>_.
        bind (AppendEvent tx (service_event (s_id s) EventOccurrenceSkipped caller (Some idempotencyKey) None
          [(''scheduled_for'', JStr (String (o_scheduled_for occ))),
           (''sequence_no'', JNum (o_sequence_no occ))])) (\<lambda>_.
        bind (today W s) (\<lambda>t.
        only_error (Run W (WithRepo (svc_mat svc) tx) s t))))))))"

definition ArmNext :: "world \<Rightarrow> service \<Rightarrow> string \<Rightarrow> caller \<Rightarrow> schedule go" where
  "ArmNext W svc scheduleID caller =
    transition W svc scheduleID ActionArm caller (\<lambda>tx s.
      bind (attempt (NextPlannedOccurrence tx (s_id s))) (\<lambda>r. case r of
        Inl e \<Rightarrow> if err_is e ErrNotFound
                 then throw (TransitionError ActionArm (s_status s) ''no planned order is due to be armed'')
                 else throw (Wrapped ''find next planned order: '' e '''')
      | Inr occ \<Rightarrow>
          bind (UpdateOccurrenceStatus tx (o_id occ) OccurrencePending) (\<lambda>_.
          AppendEvent tx (service_event (s_id s) EventOccurrenceArmed caller None None
            [(''scheduled_for'', JStr (String (o_scheduled_for occ))),
             (''sequence_no'', JNum (o_sequence_no occ))]))))"

definition Defer :: "world \<Rightarrow> service \<Rightarrow> string \<Rightarrow> int \<Rightarrow> string \<Rightarrow> caller \<Rightarrow> schedule go" where
  "Defer W svc scheduleID days idempotencyKey caller =
    bind (check (ValidateDeferDays days)) (\<lambda>_.
    bind (check (ValidateIdempotencyKey idempotencyKey)) (\<lambda>_.
    transition W svc scheduleID ActionDefer caller (\<lambda>tx s.
      bind (EventExistsWithKey tx (s_id s) EventOccurrenceDeferred idempotencyKey) (\<lambda>already.
      if already then ret ()
      else
        bind (nextOccurrence tx s ActionDefer ''there is no upcoming order to move'') (\<lambda>occ.
        let to = AddDays (o_scheduled_for occ) days in
        bind (UpdateOccurrenceDate tx (o_id occ) to) (\<lambda>_.
        bind (AppendEvent tx (service_event (s_id s) EventOccurrenceDeferred caller (Some idempotencyKey) None
          [(''days'', JNum days), (''from'', JStr (String (o_scheduled_for occ))),
           (''sequence_no'', JNum (o_sequence_no occ)), (''to'', JStr (String to))])) (\<lambda>_.
        bind (today W s) (\<lambda>t.
        RefreshNextRunDate (WithRepo (svc_mat svc) tx) s t))))))))"

definition ChangeCadence :: "world \<Rightarrow> service \<Rightarrow> string \<Rightarrow> int \<Rightarrow> caller \<Rightarrow> schedule go" where
  "ChangeCadence W svc scheduleID intervalDays caller =
    bind (check (ValidateInterval intervalDays)) (\<lambda>_.
    transition W svc scheduleID ActionChangeCadence caller (\<lambda>tx s.
      bind (today W s) (\<lambda>t.
      bind (attempt (LastPlacedOccurrence tx (s_id s))) (\<lambda>r.
      bind (case r of
              Inr placed \<Rightarrow> ret (o_scheduled_for placed)
            | Inl e \<Rightarrow> if err_is e ErrNotFound then ret t else throw e) (\<lambda>anchor.
      bind (UpdateScheduleCadence tx (s_id s) intervalDays anchor) (\<lambda>_.
      bind (CancelPlannedOccurrences tx (s_id s)) (\<lambda>rewritten.
      bind (AppendEvent tx (service_event (s_id s) EventScheduleCadenceChanged caller None None
        [(''anchor_date'', JStr (String anchor)), (''from_interval_days'', JNum (s_interval_days s)),
         (''occurrences_rewritten'', JNum rewritten), (''to_interval_days'', JNum intervalDays)])) (\<lambda>_.
      let changed = s\<lparr>s_interval_days := intervalDays, s_anchor_date := anchor\<rparr> in
      if \<not> IsActive changed then UpdateScheduleNextRun tx (s_id s) None
      else only_error (Run W (WithRepo (svc_mat svc) tx) changed t)))))))))"

definition Cancel :: "world \<Rightarrow> service \<Rightarrow> string \<Rightarrow> string \<Rightarrow> caller \<Rightarrow> schedule go" where
  "Cancel W svc scheduleID reasonCode caller =
    bind (check (ValidateCancellationReason reasonCode)) (\<lambda>_.
    transition W svc scheduleID ActionCancel caller (\<lambda>tx s.
      bind (UpdateScheduleStatus tx (s_id s) ScheduleCanceled None) (\<lambda>_.
      bind (CancelUnexecutedOccurrences tx (s_id s)) (\<lambda>canceled.
      bind (UpdateScheduleNextRun tx (s_id s) None) (\<lambda>_.
      AppendEvent tx (service_event (s_id s) EventScheduleCanceled caller None (Some reasonCode)
        [(''occurrences_canceled'', JNum canceled)]))))))"

section \<open>Every action keeps what the repository keeps\<close>

context repository_rely
begin

lemma today_stays [go_stays]: "stays R (today W s)"
  by (simp add: today_def go_stays)

lemma transition_stays:
  assumes [simp]: "svc_repo svc = repo" and "\<And>s. stays R (apply_to repo s)"
  shows "stays R (transition W svc i a caller apply_to)"
  using assms(2) by (auto simp: transition_def Let_def intro!: go_stays)

lemma nextOccurrence_stays [go_stays]: "stays R (nextOccurrence repo s a msg)"
  by (auto simp: nextOccurrence_def split: sum.splits intro!: go_stays)

lemma WithRepo_repo [simp]: "m_repo (WithRepo m r) = r"
  by (simp add: WithRepo_def)

lemma actions_stay [go_stays]:
  assumes [simp]: "svc_repo svc = repo"
  shows "stays R (Pause W svc i until caller)"
    and "stays R (Resume W svc i caller)"
    and "stays R (SkipNext W svc i key caller)"
    and "stays R (ArmNext W svc i caller)"
    and "stays R (Defer W svc i days key caller)"
    and "stays R (ChangeCadence W svc i interval caller)"
    and "stays R (Cancel W svc i reason caller)"
  by (auto simp: Pause_def Resume_def SkipNext_def ArmNext_def Defer_def ChangeCadence_def Cancel_def Let_def
      split: option.splits sum.splits intro!: transition_stays go_stays)

end

end
