(* ===== verification/Sweep.thy ===== *)
theory Sweep
  imports Service
begin

text \<open>
  \<open>internal/sweep/sweep.go\<close>: the two periodic passes, \<open>ResumeDue\<close> and \<open>ArmDue\<close>. Each lists
  candidates, decides in the customer's own calendar which are due, and calls the service under
  the system identity; the outcome of each candidate goes into exactly one counter.
\<close>

record sweeper =
  sw_repo :: repository
  sw_svc :: service

definition New_sweeper :: "repository \<Rightarrow> service \<Rightarrow> sweeper" where
  "New_sweeper repo svc = \<lparr>sw_repo = repo, sw_svc = svc\<rparr>"

definition systemCaller :: caller where
  "systemCaller = \<lparr>c_actor = ActorSystem, c_scope = SystemScope\<rparr>"

definition todayFor :: "world \<Rightarrow> schedule \<Rightarrow> date go" where
  "todayFor W sched = bind (clock W) (\<lambda>now. ret (DateOf (zone_of W sched) now))"

definition run_date :: "world \<Rightarrow> date go" where
  "run_date W = bind (clock W) (\<lambda>now. ret (DateOf utc now))"

text \<open>An error a customer's concurrent action explains.\<close>

definition moved_meanwhile :: "go_error \<Rightarrow> bool" where
  "moved_meanwhile e = (IsTransitionError e \<or> err_is e ErrNotFound)"

section \<open>Timed pauses\<close>

record resume_result =
  rr_Considered :: int
  rr_Resumed :: int
  rr_NotYetDue :: int
  rr_AlreadyMoved :: int

definition resume_zero :: resume_result where
  "resume_zero = \<lparr>rr_Considered = 0, rr_Resumed = 0, rr_NotYetDue = 0, rr_AlreadyMoved = 0\<rparr>"

text \<open>A pause is over once its date is not after today; the listing only returns dated pauses.\<close>

definition pause_running :: "schedule \<Rightarrow> date \<Rightarrow> bool" where
  "pause_running sched t = (case s_paused_until sched of None \<Rightarrow> True | Some p \<Rightarrow> After p t)"

fun resume_each ::
    "world \<Rightarrow> sweeper \<Rightarrow> schedule list \<Rightarrow> resume_result \<Rightarrow> go_error option \<Rightarrow> resume_result run" where
  "resume_each W sw [] res firstErr = deliver res firstErr"
| "resume_each W sw (sched # rest) res firstErr =
    (let res = res\<lparr>rr_Considered := rr_Considered res + 1\<rparr> in
     bind (todayFor W sched) (\<lambda>t.
     if pause_running sched t
     then resume_each W sw rest (res\<lparr>rr_NotYetDue := rr_NotYetDue res + 1\<rparr>) firstErr
     else
       bind (attempt (Resume W (sw_svc sw) (s_id sched) systemCaller)) (\<lambda>r. case r of
         Inl e \<Rightarrow>
           if moved_meanwhile e
           then resume_each W sw rest (res\<lparr>rr_AlreadyMoved := rr_AlreadyMoved res + 1\<rparr>) firstErr
           else resume_each W sw rest res (if firstErr = None then Some e else firstErr)
       | Inr _ \<Rightarrow> resume_each W sw rest (res\<lparr>rr_Resumed := rr_Resumed res + 1\<rparr>) firstErr)))"

definition ResumeDue :: "world \<Rightarrow> sweeper \<Rightarrow> resume_result run" where
  "ResumeDue W sw = bind (run_date W) (\<lambda>runDate.
     or_deliver resume_zero
       (wrapping ''list schedules due to resume: '' (ListSchedulesDueToResume (sw_repo sw) runDate))
       (\<lambda>candidates. resume_each W sw candidates resume_zero None))"

section \<open>The pre-billing window\<close>

record arm_result =
  ar_Considered :: int
  ar_Armed :: int
  ar_NotYetDue :: int
  ar_AlreadyMoved :: int

definition arm_zero :: arm_result where
  "arm_zero = \<lparr>ar_Considered = 0, ar_Armed = 0, ar_NotYetDue = 0, ar_AlreadyMoved = 0\<rparr>"

definition not_in_window :: "occurrence \<Rightarrow> date \<Rightarrow> bool" where
  "not_in_window occ t = After (AddDays (o_scheduled_for occ) (- ArmWindowDays)) t"

fun arm_each ::
    "world \<Rightarrow> sweeper \<Rightarrow> schedule list \<Rightarrow> arm_result \<Rightarrow> go_error option \<Rightarrow> arm_result run" where
  "arm_each W sw [] res firstErr = deliver res firstErr"
| "arm_each W sw (sched # rest) res firstErr =
    (let res = res\<lparr>ar_Considered := ar_Considered res + 1\<rparr> in
     bind (attempt (NextPlannedOccurrence (sw_repo sw) (s_id sched))) (\<lambda>found. case found of
       Inl e \<Rightarrow>
         if err_is e ErrNotFound
         then arm_each W sw rest (res\<lparr>ar_NotYetDue := ar_NotYetDue res + 1\<rparr>) firstErr
         else arm_each W sw rest res (if firstErr = None then Some e else firstErr)
     | Inr occ \<Rightarrow>
         bind (todayFor W sched) (\<lambda>t.
         if not_in_window occ t
         then arm_each W sw rest (res\<lparr>ar_NotYetDue := ar_NotYetDue res + 1\<rparr>) firstErr
         else
           bind (attempt (ArmNext W (sw_svc sw) (s_id sched) systemCaller)) (\<lambda>r. case r of
             Inl e \<Rightarrow>
               if moved_meanwhile e
               then arm_each W sw rest (res\<lparr>ar_AlreadyMoved := ar_AlreadyMoved res + 1\<rparr>) firstErr
               else arm_each W sw rest res (if firstErr = None then Some e else firstErr)
           | Inr _ \<Rightarrow> arm_each W sw rest (res\<lparr>ar_Armed := ar_Armed res + 1\<rparr>) firstErr))))"

definition ArmDue :: "world \<Rightarrow> sweeper \<Rightarrow> arm_result run" where
  "ArmDue W sw = bind (run_date W) (\<lambda>runDate.
     or_deliver arm_zero
       (wrapping ''list schedules due to arm: '' (ListSchedulesDueToArm (sw_repo sw) runDate))
       (\<lambda>candidates. arm_each W sw candidates arm_zero None))"

section \<open>The sweeps keep what the repository keeps\<close>

context repository_rely
begin

lemma clock_reads_stay [go_stays]: "stays R (todayFor W sched)" "stays R (run_date W)"
  by (simp_all add: todayFor_def run_date_def go_stays)

lemma resume_each_stays [go_stays]:
  assumes [simp]: "svc_repo (sw_svc sw) = repo"
  shows "stays R (resume_each W sw candidates res firstErr)"
  by (induction candidates arbitrary: res firstErr)
    (auto simp: Let_def split: sum.splits intro!: go_stays)

lemma arm_each_stays [go_stays]:
  assumes [simp]: "svc_repo (sw_svc sw) = repo" "sw_repo sw = repo"
  shows "stays R (arm_each W sw candidates res firstErr)"
  by (induction candidates arbitrary: res firstErr)
    (auto simp: Let_def split: sum.splits intro!: go_stays)

lemma sweeps_stay [go_stays]:
  assumes [simp]: "svc_repo (sw_svc sw) = repo" "sw_repo sw = repo"
  shows "stays R (ResumeDue W sw)" and "stays R (ArmDue W sw)"
  by (auto simp: ResumeDue_def ArmDue_def intro!: go_stays)

end

end
