(* ===== verification/Transaction.thy ===== *)
theory Transaction
  imports Sweep
begin

text \<open>
  Reasoning inside one transaction, on the database alone. \<open>triple t P m Q E\<close>: run in a
  transaction begun at time t whose database satisfies P, program m ends in Q or, with an error,
  in E, unless some statement has aborted the transaction, in which case it stays aborted and
  cannot commit. The rules give the weakest P for every construct and every repository method;
  \<open>in_tx_commits\<close> and \<open>in_tx_rolls_back\<close> carry a triple over to the committed state.
\<close>

section \<open>Triples\<close>

definition holds :: "int \<Rightarrow> (db \<Rightarrow> bool) \<Rightarrow> session \<Rightarrow> bool" where
  "holds t P s = (st_tx s = Some t \<and> (st_aborted s \<or> P (st_db s)))"

text \<open>The end of a run that began in session s.\<close>

definition ends :: "int \<Rightarrow> session \<Rightarrow> (db \<Rightarrow> bool) \<Rightarrow> session \<Rightarrow> bool" where
  "ends t s P s' = (holds t P s' \<and> (st_aborted s \<longrightarrow> st_aborted s'))"

definition triple ::
    "int \<Rightarrow> (db \<Rightarrow> bool) \<Rightarrow> 'a go \<Rightarrow> ('a \<Rightarrow> db \<Rightarrow> bool) \<Rightarrow> (go_error \<Rightarrow> db \<Rightarrow> bool) \<Rightarrow> bool" where
  "triple t P m Q E = (\<forall>s. holds t P s \<longrightarrow> wp m (\<lambda>a. ends t s (Q a)) (\<lambda>e. ends t s (E e)) s)"

lemma tripleI:
  "(\<And>s. holds t P s \<Longrightarrow> wp m (\<lambda>a. ends t s (Q a)) (\<lambda>e. ends t s (E e)) s) \<Longrightarrow> triple t P m Q E"
  by (simp add: triple_def)

lemma triple_conseq:
  assumes "triple t P m Q E" and "\<And>d. P' d \<Longrightarrow> P d"
    and "\<And>a d. Q a d \<Longrightarrow> Q' a d" and "\<And>e d. E e d \<Longrightarrow> E' e d"
  shows "triple t P' m Q' E'"
proof (rule tripleI)
  fix s assume "holds t P' s"
  then have "holds t P s" using assms(2) by (auto simp: holds_def)
  then have "wp m (\<lambda>a. ends t s (Q a)) (\<lambda>e. ends t s (E e)) s" using assms(1) by (simp add: triple_def)
  then show "wp m (\<lambda>a. ends t s (Q' a)) (\<lambda>e. ends t s (E' e)) s"
    by (rule wp_mono) (auto simp: holds_def ends_def intro: assms(3,4))
qed

text \<open>A fact about the world survives a run, and without it nothing is left to show.\<close>

lemma triple_pure: "triple t P m Q E \<Longrightarrow> triple t (\<lambda>d. c \<and> P d) m (\<lambda>a d. c \<and> Q a d) E"
proof (rule tripleI)
  fix s assume tri: "triple t P m Q E" and h: "holds t (\<lambda>d. c \<and> P d) s"
  then have "holds t P s" and c: "st_aborted s \<or> c" by (auto simp: holds_def)
  then have "wp m (\<lambda>a. ends t s (Q a)) (\<lambda>e. ends t s (E e)) s" using tri by (simp add: triple_def)
  then show "wp m (\<lambda>a. ends t s (\<lambda>d. c \<and> Q a d)) (\<lambda>e. ends t s (E e)) s"
    by (rule wp_mono) (use c in \<open>auto simp: holds_def ends_def\<close>)
qed

lemma triple_pre: "triple t P m Q E \<Longrightarrow> (\<And>d. P' d \<Longrightarrow> P d) \<Longrightarrow> triple t P' m Q E"
  by (rule triple_conseq)

lemma triple_ret: "triple t (Q a) (ret a) Q E"
  by (rule tripleI) (simp add: ends_def)

lemma triple_throw: "triple t (E e) (throw e) Q E"
  by (rule tripleI) (simp add: ends_def)

lemma triple_bind:
  assumes "\<And>a. triple t (P' a) (f a) Q E" and "triple t P m P' E"
  shows "triple t P (bind m f) Q E"
proof (rule tripleI)
  fix s assume "holds t P s"
  then have "wp m (\<lambda>a. ends t s (P' a)) (\<lambda>e. ends t s (E e)) s" using assms(2) by (simp add: triple_def)
  moreover have "wp (f a) (\<lambda>b. ends t s (Q b)) (\<lambda>e. ends t s (E e)) s1" if "ends t s (P' a) s1" for a s1
  proof (rule wp_mono)
    show "wp (f a) (\<lambda>b. ends t s1 (Q b)) (\<lambda>e. ends t s1 (E e)) s1"
      using assms(1) that by (auto simp: triple_def ends_def)
  qed (use that in \<open>auto simp: ends_def\<close>)
  ultimately show "wp (bind m f) (\<lambda>a. ends t s (Q a)) (\<lambda>e. ends t s (E e)) s"
    by (auto elim!: wp_mono)
qed

lemma triple_check: "triple t (\<lambda>d. case v of None \<Rightarrow> Q () d | Some e \<Rightarrow> E e d) (check v) Q E"
  by (cases v) (auto simp: check_def triple_ret triple_throw)

lemma triple_attempt: "triple t P m (\<lambda>a. Q (Inr a)) (\<lambda>e. Q (Inl e)) \<Longrightarrow> triple t P (attempt m) Q E"
  by (simp add: triple_def)

lemma triple_wrapping: "triple t P m Q (\<lambda>e. E (Wrapped pre e '''')) \<Longrightarrow> triple t P (wrapping pre m) Q E"
  by (simp add: triple_def)

lemma triple_clock: "triple t (\<lambda>d. \<forall>k. Q (w_now W k) d) (clock W) Q E"
  by (rule tripleI) (auto simp: holds_def ends_def)

lemma triple_new_id: "triple t (\<lambda>d. \<forall>i. Q i d) (new_id W) Q E"
  by (rule tripleI) (auto simp: holds_def ends_def)

lemma triple_if:
  "(b \<Longrightarrow> triple t P m Q E) \<Longrightarrow> (\<not> b \<Longrightarrow> triple t P' m' Q E) \<Longrightarrow>
   triple t (\<lambda>d. (b \<longrightarrow> P d) \<and> (\<not> b \<longrightarrow> P' d)) (if b then m else m') Q E"
  by (auto simp: triple_def holds_def)

lemma triple_option:
  "(v = None \<Longrightarrow> triple t P m Q E) \<Longrightarrow> (\<And>a. v = Some a \<Longrightarrow> triple t (P' a) (m' a) Q E) \<Longrightarrow>
   triple t (\<lambda>d. case v of None \<Rightarrow> P d | Some a \<Rightarrow> P' a d) (case v of None \<Rightarrow> m | Some a \<Rightarrow> m' a) Q E"
  by (cases v) auto

lemma triple_sum:
  "(\<And>e. v = Inl e \<Longrightarrow> triple t (P e) (m e) Q E) \<Longrightarrow> (\<And>a. v = Inr a \<Longrightarrow> triple t (P' a) (m' a) Q E) \<Longrightarrow>
   triple t (\<lambda>d. case v of Inl e \<Rightarrow> P e d | Inr a \<Rightarrow> P' a d) (case v of Inl e \<Rightarrow> m e | Inr a \<Rightarrow> m' a) Q E"
  by (cases v) auto

text \<open>A statement: success is the query at the time of the transaction, an error aborts.\<close>

lemma triple_stmt: "triple t (\<lambda>d. \<forall>a d'. q t d = Inr (a, d') \<longrightarrow> Q a d') (stmt W q) Q E"
  by (rule tripleI) (auto simp: wp_stmt holds_def ends_def settle_def Let_def split: sum.splits)

lemma triple_deliver: "triple t (Q (outs, err)) (deliver outs err) Q E"
  by (simp add: deliver_def triple_ret)

lemma triple_or_deliver:
  assumes "\<And>a. triple t (P' a) (k a) Q E" and "triple t P m P' (\<lambda>e. Q (outs, Some e))"
  shows "triple t P (or_deliver outs m k) Q E"
  unfolding or_deliver_def
proof (rule triple_bind)
  show "triple t (case r of Inl e \<Rightarrow> Q (outs, Some e) | Inr a \<Rightarrow> P' a)
      (case r of Inl e \<Rightarrow> deliver outs (Some e) | Inr a \<Rightarrow> k a) Q E" for r
    by (cases r) (auto simp: assms(1) triple_deliver)
qed (rule triple_attempt, simp add: assms(2))

lemma triple_only_error:
  "triple t P m (\<lambda>(outs, err) d. case err of None \<Rightarrow> Q () d | Some e \<Rightarrow> E e d) E \<Longrightarrow>
   triple t P (only_error m) Q E"
  unfolding only_error_def by (rule triple_bind, rule triple_check) (simp add: case_prod_unfold)

section \<open>From a triple to the committed state\<close>

definition begun :: "world \<Rightarrow> session \<Rightarrow> db" where
  "begun W s = w_others W (st_ticks s) (st_db s)"

lemma in_tx_out_begun:
  assumes "st_tx s = None"
  shows "in_tx_out W zero fn s =
    (let s1 = s\<lparr>st_db := begun W s, st_ticks := Suc (st_ticks s)\<rparr> in
     if w_fault W (st_ticks s) then ((zero, Some (Wrapped ''begin: '' DriverError '''')), s1)
     else
       (case fn (s1\<lparr>st_tx := Some (w_dbnow W (st_ticks s)), st_aborted := False\<rparr>) of
          ((out, Some e), s2) \<Rightarrow>
            ((out, Some e), s2\<lparr>st_db := begun W s, st_tx := None, st_aborted := False\<rparr>)
        | ((out, None), s2) \<Rightarrow>
            (let done = s2\<lparr>st_ticks := Suc (st_ticks s2), st_tx := None, st_aborted := False\<rparr> in
             if st_aborted s2 then
               ((out, Some (Wrapped ''commit: '' (ErrText ''commit unexpectedly resulted in rollback'') '''')),
                done\<lparr>st_db := begun W s\<rparr>)
             else if w_fault W (st_ticks s2) then
               ((out, Some (Wrapped ''commit: '' DriverError '''')), done\<lparr>st_db := begun W s\<rparr>)
             else ((out, None), done))))"
  using assms by (auto simp: in_tx_out_def settle_def begun_def Let_def split: prod.splits option.splits)

lemma in_tx_commits:
  assumes run: "in_tx W m s = (Inr a, s')" and outside: "st_tx s = None"
    and tri: "\<And>t. triple t P m (Q t) E" and pre: "P (begun W s)"
  shows "Q (w_dbnow W (st_ticks s)) a (st_db s') \<and> st_tx s' = None"
proof -
  define k where "k = w_dbnow W (st_ticks s)"
  define s2 where "s2 = s\<lparr>st_db := begun W s, st_ticks := Suc (st_ticks s), st_tx := Some k, st_aborted := False\<rparr>"
  have "holds k P s2" by (simp add: s2_def holds_def pre)
  then have w: "wp m (\<lambda>a. ends k s2 (Q k a)) (\<lambda>e. ends k s2 (E e)) s2" using tri by (simp add: triple_def)
  obtain r s3 where m: "m s2 = (r, s3)" by fastforce
  have nf: "\<not> w_fault W (st_ticks s)"
    using run by (auto simp: in_tx_def in_tx_out_begun [OF outside] Let_def)
  have r: "r = Inr a" "\<not> st_aborted s3" "st_db s' = st_db s3" "st_tx s' = None"
    using run m nf
    by (auto simp: in_tx_def in_tx_out_begun [OF outside] Let_def s2_def k_def
        split: sum.splits if_splits)
  then show ?thesis using w m by (simp add: wp_def holds_def ends_def k_def)
qed

lemma in_tx_rolls_back:
  assumes "in_tx W m s = (Inl e, s')" and "st_tx s = None"
  shows "st_db s' = begun W s \<and> st_tx s' = None"
  using assms
  by (auto simp: in_tx_def in_tx_out_begun [OF assms(2)] Let_def
      split: sum.splits if_splits prod.splits option.splits)

text \<open>\<open>InTx\<close> inside a transaction is its closure (the \<open>db == nil\<close> branch).\<close>

lemma in_tx_nested: "st_tx s = Some t \<Longrightarrow> in_tx W m s = m s"
  by (auto simp: in_tx_def in_tx_out_def split: prod.splits sum.splits)

lemma triple_in_tx: "triple t P m Q E \<Longrightarrow> triple t P (in_tx W m) Q E"
  by (auto simp: triple_def wp_def in_tx_nested holds_def)

text \<open>A program that always delivers, inside its transaction: without an error it committed.\<close>

lemma in_tx_run_commits:
  assumes run: "in_tx_run W zero m s = (Inr (outs, None), s')" and outside: "st_tx s = None"
    and tri: "\<And>t. triple t P m (Q t) E" and pre: "P (begun W s)"
  shows "Q (w_dbnow W (st_ticks s)) (outs, None) (st_db s') \<and> st_tx s' = None"
proof -
  define k where "k = w_dbnow W (st_ticks s)"
  define s2 where "s2 = s\<lparr>st_db := begun W s, st_ticks := Suc (st_ticks s), st_tx := Some k, st_aborted := False\<rparr>"
  have "holds k P s2" by (simp add: s2_def holds_def pre)
  then have w: "wp m (\<lambda>a. ends k s2 (Q k a)) (\<lambda>e. ends k s2 (E e)) s2" using tri by (simp add: triple_def)
  obtain r s3 where m: "m s2 = (r, s3)" by fastforce
  have nf: "\<not> w_fault W (st_ticks s)"
    using run by (auto simp: in_tx_run_def in_tx_out_begun [OF outside] Let_def)
  have r: "r = Inr (outs, None)" "\<not> st_aborted s3" "st_db s' = st_db s3" "st_tx s' = None"
    using run m nf
    by (auto simp: in_tx_run_def in_tx_out_begun [OF outside] Let_def s2_def k_def
        split: sum.splits if_splits prod.splits option.splits)
  then show ?thesis using w m by (simp add: wp_def holds_def ends_def k_def)
qed

lemma in_tx_run_rolls_back:
  assumes "in_tx_run W zero m s = (Inr (outs, Some e), s')" and "st_tx s = None"
  shows "st_db s' = begun W s \<and> st_tx s' = None"
  using assms
  by (auto simp: in_tx_run_def in_tx_out_begun [OF assms(2)] Let_def
      split: sum.splits if_splits prod.splits option.splits)

lemma in_tx_run_delivers:
  "in_tx_run W zero m s = (r, s') \<Longrightarrow> \<exists>outs err. r = Inr (outs, err)"
  by (auto simp: in_tx_run_def split: prod.splits)

section \<open>The statements as database updates\<close>

text \<open>What a successful statement leaves, as functions on the database.\<close>

definition schedule_at :: "string \<Rightarrow> scope \<Rightarrow> db \<Rightarrow> schedule_row option" where
  "schedule_at u sc d = find (\<lambda>r. sr_id r = u \<and> admits (filterOwn sc) r) (db_schedules d)"

definition set_schedule :: "string \<Rightarrow> (schedule_row \<Rightarrow> schedule_row) \<Rightarrow> db \<Rightarrow> db" where
  "set_schedule u f d = d\<lparr>db_schedules := update_where (\<lambda>r. sr_id r = u) f (db_schedules d)\<rparr>"

definition set_occurrences ::
    "(occurrence_row \<Rightarrow> bool) \<Rightarrow> (occurrence_row \<Rightarrow> occurrence_row) \<Rightarrow> db \<Rightarrow> db" where
  "set_occurrences p f d = d\<lparr>db_occurrences := update_where p f (db_occurrences d)\<rparr>"

definition add_occurrence :: "occurrence_row \<Rightarrow> db \<Rightarrow> db" where
  "add_occurrence r d = d\<lparr>db_occurrences := db_occurrences d @ [r]\<rparr>"

definition log_event :: "event_row \<Rightarrow> db \<Rightarrow> db" where
  "log_event e d = d\<lparr>db_events := db_events d @ [e\<lparr>er_id := db_event_seq d + 1\<rparr>],
     db_event_seq := db_event_seq d + 1\<rparr>"

definition event_of :: "int \<Rightarrow> string \<Rightarrow> schedule_event \<Rightarrow> event_row" where
  "event_of t u e = \<lparr>er_id = 0, er_schedule_id = u, er_event_type = e_event_type e,
     er_actor = e_actor e, er_reason_code = e_reason_code e,
     er_payload = (case e_payload e of None \<Rightarrow> JObj [] | Some p \<Rightarrow> p),
     er_idempotency_key = e_idempotency_key e, er_created_at = t\<rparr>"

definition status_row :: "schedule_status \<Rightarrow> int option \<Rightarrow> int \<Rightarrow> schedule_row \<Rightarrow> schedule_row" where
  "status_row status until t r = r\<lparr>sr_status := status, sr_paused_until := until, sr_updated_at := t\<rparr>"

definition next_run_row :: "int option \<Rightarrow> int \<Rightarrow> schedule_row \<Rightarrow> schedule_row" where
  "next_run_row next t r = r\<lparr>sr_next_run_date := next, sr_updated_at := t\<rparr>"

definition cadence_row :: "int \<Rightarrow> int \<Rightarrow> int \<Rightarrow> schedule_row \<Rightarrow> schedule_row" where
  "cadence_row days anchor t r = r\<lparr>sr_interval_days := days, sr_anchor_date := anchor, sr_updated_at := t\<rparr>"

definition cancelable :: "string \<Rightarrow> occurrence_status list \<Rightarrow> occurrence_row \<Rightarrow> bool" where
  "cancelable u statuses r =
     (or_schedule_id r = u \<and> or_status r \<in> set statuses \<and> or_order_id r = None)"

definition ostatus_row :: "occurrence_status \<Rightarrow> int \<Rightarrow> occurrence_row \<Rightarrow> occurrence_row" where
  "ostatus_row status t r = r\<lparr>or_status := status, or_updated_at := t\<rparr>"

definition odate_row :: "int \<Rightarrow> int \<Rightarrow> occurrence_row \<Rightarrow> occurrence_row" where
  "odate_row day t r = r\<lparr>or_scheduled_for := day, or_updated_at := t\<rparr>"

lemma q_next_run_Inr: "q_next_run next u t d = Inr (n, d') \<Longrightarrow>
    n = length (filter (\<lambda>r. sr_id r = u) (db_schedules d)) \<and> d' = set_schedule u (next_run_row next t) d"
  by (auto simp: q_next_run_def set_schedule_def next_run_row_def [abs_def] dest!: update_schedules_Inr)

lemma q_status_Inr: "q_status status until u t d = Inr (n, d') \<Longrightarrow>
    n = length (filter (\<lambda>r. sr_id r = u) (db_schedules d)) \<and> d' = set_schedule u (status_row status until t) d"
  by (auto simp: q_status_def set_schedule_def status_row_def [abs_def] dest!: update_schedules_Inr)

lemma q_cadence_Inr: "q_cadence days anchor u t d = Inr (n, d') \<Longrightarrow>
    n = length (filter (\<lambda>r. sr_id r = u) (db_schedules d)) \<and> d' = set_schedule u (cadence_row days anchor t) d"
  by (auto simp: q_cadence_def set_schedule_def cadence_row_def [abs_def] dest!: update_schedules_Inr)

lemma q_occurrence_status_Inr: "q_occurrence_status status u t d = Inr (n, d') \<Longrightarrow>
    n = length (filter (\<lambda>r. or_id r = u \<and> or_order_id r = None) (db_occurrences d))
    \<and> d' = set_occurrences (\<lambda>r. or_id r = u \<and> or_order_id r = None) (ostatus_row status t) d"
  by (auto simp: q_occurrence_status_def set_occurrences_def ostatus_row_def [abs_def] dest!: update_occurrences_Inr)

lemma q_occurrence_date_Inr: "q_occurrence_date day u t d = Inr (n, d') \<Longrightarrow>
    n = length (filter (\<lambda>r. or_id r = u \<and> unexecuted r) (db_occurrences d))
    \<and> d' = set_occurrences (\<lambda>r. or_id r = u \<and> unexecuted r) (odate_row day t) d"
  by (auto simp: q_occurrence_date_def set_occurrences_def odate_row_def [abs_def] dest!: update_occurrences_Inr)

lemma q_cancel_Inr: "q_cancel statuses u t d = Inr (n, d') \<Longrightarrow>
    n = length (filter (cancelable u statuses) (db_occurrences d))
    \<and> d' = set_occurrences (cancelable u statuses) (ostatus_row OccurrenceCanceled t) d"
  by (auto simp: q_cancel_def set_occurrences_def ostatus_row_def [abs_def] cancelable_def [abs_def]
      dest!: update_occurrences_Inr)

lemma event_key_of: "event_key (event_of t u e) = (u, e_event_type e, e_idempotency_key e)"
  by (simp add: event_key_def event_of_def)

lemma q_append_event_Inr:
  assumes "q_append_event W e t d = Inr (a, d')"
  shows "\<exists>u. w_uuid_in W (e_schedule_id e) = Some u \<and> schedule_exists d u
      \<and> (e_idempotency_key e = None \<or> (u, e_event_type e, e_idempotency_key e) \<notin> event_key ` set (db_events d))
      \<and> d' = log_event (event_of t u e) d"
proof -
  from assms obtain u where u: "w_uuid_in W (e_schedule_id e) = Some u"
    and i: "insert_event (event_of t u e) d = Inr d'"
    by (auto simp: q_append_event_def event_of_def split: option.splits sum.splits)
  show ?thesis using u insert_event_Inr [OF i] unfolding event_key_of
    by (auto simp: log_event_def event_of_def)
qed

definition occurrence_row_of :: "int \<Rightarrow> string \<Rightarrow> string \<Rightarrow> occurrence \<Rightarrow> occurrence_row" where
  "occurrence_row_of t i u oc = \<lparr>or_id = i, or_schedule_id = u, or_sequence_no = o_sequence_no oc,
     or_scheduled_for = ToTime (o_scheduled_for oc), or_status = o_status oc,
     or_order_id = o_order_id oc, or_idempotency_key = o_idempotency_key oc,
     or_created_at = t, or_updated_at = t\<rparr>"

lemma q_insert_occurrence_Inr:
  assumes "q_insert_occurrence W oc t d = Inr (a, d')"
  shows "\<exists>i u. w_uuid_in W (o_id oc) = Some i \<and> w_uuid_in W (o_schedule_id oc) = Some u
      \<and> insert_occurrence (occurrence_row_of t i u oc) d = Inr d'
      \<and> d' = add_occurrence (occurrence_row_of t i u oc) d"
proof -
  from assms obtain i u where u: "w_uuid_in W (o_id oc) = Some i" "w_uuid_in W (o_schedule_id oc) = Some u"
    and ins: "insert_occurrence (occurrence_row_of t i u oc) d = Inr d'"
    by (auto simp: q_insert_occurrence_def occurrence_row_of_def split: option.splits sum.splits)
  show ?thesis using u ins insert_occurrence_Inr [OF ins] by (auto simp: add_occurrence_def)
qed

end
