(* ===== verification/Methods.thy ===== *)
theory Methods
  imports Transaction
begin

text \<open>
  The weakest-precondition rules of the \<open>PostgresRepository\<close> methods the transitions use, and the
  rule for \<open>transition\<close> itself: what a committed transition did to the database it began on. In
  the error postcondition only what a caller inspects matters, the \<open>ErrNotFound\<close> of a read.
\<close>

section \<open>Reads\<close>

lemma triple_read:
  "triple t (\<lambda>d. \<forall>u. w_uuid_in W i = Some u \<longrightarrow> Q (f u d) d) (stmt W (with_uuid W i (\<lambda>u. query (f u)))) Q E"
  by (rule triple_pre [OF triple_stmt]) (auto simp: with_uuid_def query_def split: option.splits)

lemma triple_one_row:
  "triple t (\<lambda>d. \<forall>u. w_uuid_in W i = Some u \<longrightarrow>
        (case f u d of None \<Rightarrow> E ErrNotFound d | Some a \<Rightarrow> Q a d))
     (one_row what (with_uuid W i (\<lambda>u. query (f u))) W) Q E"
  unfolding one_row_def
  by (rule triple_bind, rule triple_option, rule triple_throw, rule triple_ret,
      rule triple_wrapping, rule triple_read)

lemma triple_GetSchedule:
  "triple t (\<lambda>d. \<forall>u. w_uuid_in W i = Some u \<longrightarrow>
        (case schedule_at u sc d of None \<Rightarrow> E ErrNotFound d | Some r \<Rightarrow> Q (scanSchedule r) d))
     (pg_GetSchedule W i sc) Q E"
  unfolding pg_GetSchedule_def
  by (rule triple_pre [OF triple_one_row]) (auto simp: schedule_at_def split: option.splits)

lemma triple_GetScheduleForUpdate:
  "triple t (\<lambda>d. \<forall>u. w_uuid_in W i = Some u \<longrightarrow>
        (case schedule_at u sc d of None \<Rightarrow> E ErrNotFound d | Some r \<Rightarrow> Q (scanSchedule r) d))
     (pg_GetScheduleForUpdate W i sc) Q E"
proof (rule tripleI)
  fix s
  let ?P = "\<lambda>d. \<forall>u. w_uuid_in W i = Some u \<longrightarrow>
        (case schedule_at u sc d of None \<Rightarrow> E ErrNotFound d | Some r \<Rightarrow> Q (scanSchedule r) d)"
  assume h: "holds t ?P s"
  then have "wp (pg_GetScheduleForUpdate W i sc) (\<lambda>a. ends t s (Q a)) (\<lambda>e. ends t s (E e)) s
     = wp (one_row ''get schedule for update: ''
       (with_uuid W i (\<lambda>u. query (\<lambda>d. map_option scanSchedule (schedule_at u sc d)))) W)
       (\<lambda>a. ends t s (Q a)) (\<lambda>e. ends t s (E e)) s"
    by (simp add: pg_GetScheduleForUpdate_def holds_def schedule_at_def)
  moreover have "triple t ?P (one_row ''get schedule for update: ''
       (with_uuid W i (\<lambda>u. query (\<lambda>d. map_option scanSchedule (schedule_at u sc d)))) W) Q E"
    by (rule triple_pre [OF triple_one_row]) (auto split: option.splits)
  ultimately show "wp (pg_GetScheduleForUpdate W i sc) (\<lambda>a. ends t s (Q a)) (\<lambda>e. ends t s (E e)) s"
    using h by (simp add: triple_def)
qed

lemma triple_queryOccurrences:
  "triple t (\<lambda>d. \<forall>u. w_uuid_in W i = Some u \<longrightarrow> Q (map scanOccurrence (f u d)) d) (queryOccurrences W i f) Q E"
  unfolding queryOccurrences_def by (rule triple_wrapping) (rule triple_read)

lemma triple_queryOneOccurrence:
  "triple t (\<lambda>d. \<forall>u. w_uuid_in W i = Some u \<longrightarrow>
        (case f u d of [] \<Rightarrow> E ErrNotFound d | r # _ \<Rightarrow> Q (scanOccurrence r) d))
     (queryOneOccurrence W i f) Q E"
  unfolding queryOneOccurrence_def
proof (rule triple_bind)
  show "triple t (\<lambda>d. case out of [] \<Rightarrow> E ErrNotFound d | oc # _ \<Rightarrow> Q oc d)
      (case out of [] \<Rightarrow> throw ErrNotFound | oc # _ \<Rightarrow> ret oc) Q E" for out
    by (cases out) (auto simp: triple_throw triple_ret)
qed (rule triple_pre [OF triple_queryOccurrences], auto split: list.splits)

definition next_unexecuted :: "string \<Rightarrow> db \<Rightarrow> occurrence_row option" where
  "next_unexecuted u d = first_by by_date (occurrences_where u unexecuted d)"

definition next_planned :: "string \<Rightarrow> db \<Rightarrow> occurrence_row option" where
  "next_planned u d = first_by by_date (occurrences_where u planned d)"

definition last_placed :: "string \<Rightarrow> db \<Rightarrow> occurrence_row option" where
  "last_placed u d = first_by (\<lambda>r. (- or_scheduled_for r, - or_sequence_no r))
     (occurrences_where u (\<lambda>r. or_status r = OccurrencePlaced) d)"

lemma triple_first_occurrence:
  "triple t (\<lambda>d. \<forall>u. w_uuid_in W i = Some u \<longrightarrow>
        (case first_by key (f u d) of None \<Rightarrow> E ErrNotFound d | Some r \<Rightarrow> Q (scanOccurrence r) d))
     (queryOneOccurrence W i (\<lambda>u d. limit_one key (f u d))) Q E"
  by (rule triple_pre [OF triple_queryOneOccurrence]) (auto simp: limit_one_def split: option.splits)

lemma triple_NextActionableOccurrence:
  "triple t (\<lambda>d. \<forall>u. w_uuid_in W i = Some u \<longrightarrow>
        (case next_unexecuted u d of None \<Rightarrow> E ErrNotFound d | Some r \<Rightarrow> Q (scanOccurrence r) d))
     (pg_NextActionableOccurrence W i) Q E"
  unfolding pg_NextActionableOccurrence_def next_unexecuted_def by (rule triple_first_occurrence)

lemma triple_NextPlannedOccurrence:
  "triple t (\<lambda>d. \<forall>u. w_uuid_in W i = Some u \<longrightarrow>
        (case next_planned u d of None \<Rightarrow> E ErrNotFound d | Some r \<Rightarrow> Q (scanOccurrence r) d))
     (pg_NextPlannedOccurrence W i) Q E"
  unfolding pg_NextPlannedOccurrence_def next_planned_def by (rule triple_first_occurrence)

lemma triple_LastPlacedOccurrence:
  "triple t (\<lambda>d. \<forall>u. w_uuid_in W i = Some u \<longrightarrow>
        (case last_placed u d of None \<Rightarrow> E ErrNotFound d | Some r \<Rightarrow> Q (scanOccurrence r) d))
     (pg_LastPlacedOccurrence W i) Q E"
  unfolding pg_LastPlacedOccurrence_def last_placed_def by (rule triple_first_occurrence)

lemma triple_ListPlannedOccurrences:
  "triple t (\<lambda>d. \<forall>u. w_uuid_in W i = Some u \<longrightarrow>
        Q (map scanOccurrence (sort_key or_sequence_no (occurrences_where u planned d))) d)
     (pg_ListPlannedOccurrences W i) Q E"
  unfolding pg_ListPlannedOccurrences_def by (rule triple_queryOccurrences)

definition future_planned :: "string \<Rightarrow> int \<Rightarrow> db \<Rightarrow> occurrence_row list" where
  "future_planned u day d = occurrences_where u (\<lambda>r. planned r \<and> day < or_scheduled_for r) d"

lemma triple_CountFutureplannedOccurrences:
  "triple t (\<lambda>d. \<forall>u. w_uuid_in W i = Some u \<longrightarrow> Q (int (length (future_planned u (ToTime after) d))) d)
     (pg_CountFutureplannedOccurrences W i after) Q E"
  unfolding pg_CountFutureplannedOccurrences_def future_planned_def
  by (rule triple_wrapping) (rule triple_read)

definition max_sequence :: "string \<Rightarrow> db \<Rightarrow> int" where
  "max_sequence u d = (case sql_max (map or_sequence_no (occurrences_where u (\<lambda>_. True) d)) of
     None \<Rightarrow> 0 | Some k \<Rightarrow> k)"

lemma triple_MaxSequenceNo:
  "triple t (\<lambda>d. \<forall>u. w_uuid_in W i = Some u \<longrightarrow> Q (max_sequence u d) d) (pg_MaxSequenceNo W i) Q E"
  unfolding pg_MaxSequenceNo_def max_sequence_def
  by (rule triple_bind, rule triple_ret, rule triple_wrapping, rule triple_read)

definition latest_day :: "string \<Rightarrow> db \<Rightarrow> int option" where
  "latest_day u d = sql_max (map or_scheduled_for (occurrences_where u unexecuted d))"

lemma triple_LatestScheduledDate:
  "triple t (\<lambda>d. \<forall>u. w_uuid_in W i = Some u \<longrightarrow> Q (map_option date_of_day (latest_day u d)) d)
     (pg_LatestScheduledDate W i) Q E"
  unfolding pg_LatestScheduledDate_def latest_day_def
  by (rule triple_bind, rule triple_ret, rule triple_wrapping, rule triple_read)

lemma triple_EventExistsWithKey:
  "triple t (\<lambda>d. \<forall>u. w_uuid_in W i = Some u \<longrightarrow> Q ((u, ty, Some k) \<in> event_key ` set (db_events d)) d)
     (pg_EventExistsWithKey W i ty k) Q E"
  unfolding pg_EventExistsWithKey_def
  by (rule triple_wrapping, rule triple_pre [OF triple_read])
    (auto simp: list_ex_iff image_iff eq_commute)

section \<open>Writes\<close>

abbreviation any_error :: "go_error \<Rightarrow> db \<Rightarrow> bool" where
  "any_error \<equiv> \<lambda>_ _. True"

lemma triple_affected:
  "triple t (\<lambda>d. \<forall>u n d'. w_uuid_in W i = Some u \<longrightarrow> q u t d = Inr (n, d') \<longrightarrow> n \<noteq> 0 \<longrightarrow> Q () d')
     (bind (wrapping what (stmt W (with_uuid W i q))) checkAffected) Q any_error"
proof (rule triple_bind)
  show "triple t (\<lambda>d. n \<noteq> 0 \<longrightarrow> Q () d) (checkAffected n) Q any_error" for n
    by (cases "n = 0") (auto simp: checkAffected_def intro: triple_ret triple_pre [OF triple_throw])
  show "triple t (\<lambda>d. \<forall>u n d'. w_uuid_in W i = Some u \<longrightarrow> q u t d = Inr (n, d') \<longrightarrow> n \<noteq> 0 \<longrightarrow> Q () d')
     (wrapping what (stmt W (with_uuid W i q))) (\<lambda>n d. n \<noteq> 0 \<longrightarrow> Q () d) any_error"
    by (rule triple_wrapping, rule triple_pre [OF triple_stmt])
      (auto simp: with_uuid_def split: option.splits)
qed

lemma triple_UpdateScheduleNextRun:
  "triple t (\<lambda>d. \<forall>u. w_uuid_in W i = Some u \<longrightarrow> schedule_exists d u \<longrightarrow>
        Q () (set_schedule u (next_run_row (datePtr next) t) d))
     (pg_UpdateScheduleNextRun W i next) Q any_error"
  unfolding pg_UpdateScheduleNextRun_def
  by (rule triple_pre [OF triple_affected])
    (auto simp: schedule_exists_def filter_empty_conv dest!: q_next_run_Inr)

lemma triple_UpdateScheduleStatus:
  "triple t (\<lambda>d. \<forall>u. w_uuid_in W i = Some u \<longrightarrow> schedule_exists d u \<longrightarrow>
        (status = SchedulePaused \<or> until = None) \<longrightarrow>
        Q () (set_schedule u (status_row status (datePtr until) t) d))
     (pg_UpdateScheduleStatus W i status until) Q any_error"
  unfolding pg_UpdateScheduleStatus_def
  by (rule triple_pre, rule triple_if, rule triple_throw, rule triple_affected)
    (auto simp: schedule_exists_def filter_empty_conv dest!: q_status_Inr)

lemma triple_UpdateScheduleCadence:
  "triple t (\<lambda>d. \<forall>u. w_uuid_in W i = Some u \<longrightarrow> schedule_exists d u \<longrightarrow>
        ValidateInterval days = None \<longrightarrow>
        Q () (set_schedule u (cadence_row days (ToTime anchor) t) d))
     (pg_UpdateScheduleCadence W i days anchor) Q any_error"
  unfolding pg_UpdateScheduleCadence_def
  by (rule triple_pre, rule triple_bind, rule triple_affected, rule triple_check)
    (auto simp: schedule_exists_def filter_empty_conv split: option.splits dest!: q_cadence_Inr)

lemma triple_UpdateOccurrenceStatus:
  "triple t (\<lambda>d. \<forall>u. w_uuid_in W i = Some u \<longrightarrow>
        (\<exists>r \<in> set (db_occurrences d). or_id r = u \<and> or_order_id r = None) \<longrightarrow>
        Q () (set_occurrences (\<lambda>r. or_id r = u \<and> or_order_id r = None) (ostatus_row status t) d))
     (pg_UpdateOccurrenceStatus W i status) Q any_error"
  unfolding pg_UpdateOccurrenceStatus_def
  by (rule triple_pre [OF triple_affected]) (auto simp: filter_empty_conv dest!: q_occurrence_status_Inr)

lemma triple_UpdateOccurrenceDate:
  "triple t (\<lambda>d. \<forall>u. w_uuid_in W i = Some u \<longrightarrow>
        (\<exists>r \<in> set (db_occurrences d). or_id r = u \<and> unexecuted r) \<longrightarrow>
        Q () (set_occurrences (\<lambda>r. or_id r = u \<and> unexecuted r) (odate_row (ToTime day) t) d))
     (pg_UpdateOccurrenceDate W i day) Q any_error"
  unfolding pg_UpdateOccurrenceDate_def
  by (rule triple_pre [OF triple_affected]) (auto simp: filter_empty_conv dest!: q_occurrence_date_Inr)

lemma triple_cancelOccurrences:
  "triple t (\<lambda>d. \<forall>u. w_uuid_in W i = Some u \<longrightarrow>
        Q (int (length (filter (cancelable u statuses) (db_occurrences d))))
          (set_occurrences (cancelable u statuses) (ostatus_row OccurrenceCanceled t) d))
     (cancelOccurrences W i statuses) Q any_error"
  unfolding cancelOccurrences_def
  by (rule triple_bind, rule triple_ret, rule triple_wrapping, rule triple_pre [OF triple_stmt])
    (auto simp: with_uuid_def split: option.splits dest!: q_cancel_Inr)

lemma triple_AppendEvent:
  "triple t (\<lambda>d. \<forall>u. w_uuid_in W (e_schedule_id e) = Some u \<longrightarrow> schedule_exists d u \<longrightarrow>
        (e_idempotency_key e = None \<or> (u, e_event_type e, e_idempotency_key e) \<notin> event_key ` set (db_events d)) \<longrightarrow>
        Q () (log_event (event_of t u e) d))
     (pg_AppendEvent W e) Q E"
  unfolding pg_AppendEvent_def
  by (rule triple_wrapping, rule triple_pre [OF triple_stmt]) (auto dest!: q_append_event_Inr)

text \<open>A failed insert aborts the transaction, so every continuation after it is vacuous.\<close>

lemma triple_CreateOccurrence:
  "triple t (\<lambda>d. \<forall>i u d'. w_uuid_in W (o_id oc) = Some i \<longrightarrow> w_uuid_in W (o_schedule_id oc) = Some u \<longrightarrow>
        insert_occurrence (occurrence_row_of t i u oc) d = Inr d' \<longrightarrow>
        Q () (add_occurrence (occurrence_row_of t i u oc) d))
     (pg_CreateOccurrence W oc) Q E"
proof -
  have fails: "triple t (\<lambda>_. False) (throw e) Q E" for e
    by (rule triple_pre [OF triple_throw]) simp
  show ?thesis
    unfolding pg_CreateOccurrence_def
  proof (rule triple_bind)
    show "triple t (case r of Inl _ \<Rightarrow> (\<lambda>_. False) | Inr _ \<Rightarrow> Q ())
        (case r of Inr _ \<Rightarrow> ret ()
          | Inl e \<Rightarrow> if isUniqueViolation e ''occurrences_idempotency_key_unique''
                        \<or> isUniqueViolation e ''occurrences_sequence_unique''
                     then throw ErrDuplicateOccurrence
                     else throw (Wrapped ''insert occurrence: '' e '''')) Q E" for r
      by (cases r) (auto intro: fails triple_ret)
  qed (rule triple_attempt, rule triple_pre [OF triple_stmt], auto dest!: q_insert_occurrence_Inr)
qed

section \<open>A transition\<close>

lemma scanSchedule_sel [simp]:
  "s_id (scanSchedule r) = sr_id r" "s_status (scanSchedule r) = sr_status r"
  "s_timezone (scanSchedule r) = sr_timezone r" "s_interval_days (scanSchedule r) = sr_interval_days r"
  "s_customer_email (scanSchedule r) = sr_customer_email r"
  "s_anchor_date (scanSchedule r) = date_of_day (sr_anchor_date r)"
  "s_next_run_date (scanSchedule r) = map_option date_of_day (sr_next_run_date r)"
  "s_paused_until (scanSchedule r) = map_option date_of_day (sr_paused_until r)"
  by (simp_all add: scanSchedule_def)

lemma scanOccurrence_sel [simp]:
  "o_id (scanOccurrence oc) = or_id oc" "o_status (scanOccurrence oc) = or_status oc"
  "o_sequence_no (scanOccurrence oc) = or_sequence_no oc"
  "o_scheduled_for (scanOccurrence oc) = date_of_day (or_scheduled_for oc)"
  by (simp_all add: scanOccurrence_def)

lemma schedule_atD:
  assumes "schedule_at u sc d = Some r"
  shows "r \<in> set (db_schedules d) \<and> sr_id r = u \<and> admits (filterOwn sc) r \<and> schedule_exists d u"
  using assms find_SomeD [of "\<lambda>r. sr_id r = u \<and> admits (filterOwn sc) r" "db_schedules d" r]
  by (auto simp: schedule_at_def schedule_exists_def)

text \<open>What the lock read: the schedule value is the row found, which accepts the action.\<close>

definition locked :: "world \<Rightarrow> string \<Rightarrow> action \<Rightarrow> caller \<Rightarrow> db \<Rightarrow> string \<Rightarrow> schedule_row \<Rightarrow> bool" where
  "locked W i a caller d u r = (w_uuid_in W i = Some u \<and> schedule_at u (c_scope caller) d = Some r
     \<and> accepts a (sr_status r))"

lemma transition_commits:
  assumes run: "transition W svc i a caller f s = (Inr out, s')" and outside: "st_tx s = None"
    and repo: "svc_repo svc = postgres W"
    and body: "\<And>t u r sch. triple t (\<lambda>d. d = begun W s \<and> locked W i a caller d u r \<and> sch = scanSchedule r)
        (f (postgres W) sch) (\<lambda>_. Post t u r) any_error"
  shows "\<exists>u r r'. locked W i a caller (begun W s) u r \<and> Post (w_dbnow W (st_ticks s)) u r (st_db s')
      \<and> schedule_at u (c_scope caller) (st_db s') = Some r' \<and> out = scanSchedule r' \<and> st_tx s' = None"
proof -
  define u where "u = the (w_uuid_in W i)"
  define r where "r = the (schedule_at u (c_scope caller) (begun W s))"
  define Q where "Q t b d = (locked W i a caller (begun W s) u r \<and> Post t u r d
      \<and> (\<exists>r'. schedule_at u (c_scope caller) d = Some r' \<and> b = scanSchedule r'))" for t b d
  define mid where "mid sch d = (d = begun W s \<and> locked W i a caller d u r \<and> sch = scanSchedule r)" for sch d
  have read_back: "triple t (\<lambda>d. locked W i a caller (begun W s) u r \<and> Post t u r d)
      (pg_GetSchedule W i (c_scope caller)) (Q t) any_error" for t
    by (rule triple_pre [OF triple_GetSchedule]) (auto simp: Q_def locked_def split: option.splits)
  have apply_f: "triple t (mid sch) (f (postgres W) sch)
      (\<lambda>_ d. locked W i a caller (begun W s) u r \<and> Post t u r d) any_error" for t sch
    by (rule triple_pre [OF triple_pure [OF body [of t u r sch], of "locked W i a caller (begun W s) u r"]])
      (simp add: mid_def)
  have midI: "mid (scanSchedule r') (begun W s)" if "w_uuid_in W i = Some u'"
      "schedule_at u' (c_scope caller) (begun W s) = Some r'" "accepts a (sr_status r')" for u' r'
    using that by (simp add: mid_def locked_def u_def r_def)
  have tri: "triple t (\<lambda>d. d = begun W s) (bind (pg_GetScheduleForUpdate W i (c_scope caller)) (\<lambda>sch.
        bind (check (ValidateScheduleTransition (s_status sch) a)) (\<lambda>_.
        bind (f (postgres W) sch) (\<lambda>_. pg_GetSchedule W i (c_scope caller))))) (Q t) any_error" for t
    by (rule triple_pre, rule triple_bind, rule triple_bind, rule triple_bind, rule read_back,
        rule apply_f, rule triple_check, rule triple_GetScheduleForUpdate)
      (auto intro: midI simp flip: accepts_def split: option.splits)
  have "in_tx W (bind (pg_GetScheduleForUpdate W i (c_scope caller)) (\<lambda>sch.
        bind (check (ValidateScheduleTransition (s_status sch) a)) (\<lambda>_.
        bind (f (postgres W) sch) (\<lambda>_. pg_GetSchedule W i (c_scope caller))))) s = (Inr out, s')"
    using run repo by (simp add: transition_def Let_def)
  then have "Q (w_dbnow W (st_ticks s)) out (st_db s') \<and> st_tx s' = None"
    using outside tri by (rule in_tx_commits) simp
  then show ?thesis by (auto simp: Q_def)
qed

lemma transition_rolls_back:
  assumes "transition W svc i a caller f s = (Inl e, s')" and "st_tx s = None"
  shows "st_db s' = begun W s \<and> st_tx s' = None"
  using assms unfolding transition_def Let_def by (rule in_tx_rolls_back)

end
