(* ===== verification/Planning.thy ===== *)
theory Planning
  imports Methods
begin

text \<open>
  The materializer inside a transaction: \<open>plant\<close> adds the planned occurrences and their events one
  by one, \<open>refreshed\<close> recomputes the next run, \<open>topped_up\<close> is both, as functions on the database.
  \<open>triple_Run\<close> shows that \<open>Run\<close> does exactly this, without ever counting a duplicate.
\<close>

section \<open>Canonical identifiers\<close>

text \<open>Postgres prints a uuid in one form, which reads back as itself.\<close>

definition canonical :: "world \<Rightarrow> bool" where
  "canonical W = (\<forall>i u. w_uuid_in W i = Some u \<longrightarrow> w_uuid_in W u = Some u)"

lemma canonicalD: "canonical W \<Longrightarrow> w_uuid_in W i = Some u \<Longrightarrow> w_uuid_in W u = Some u"
  by (simp add: canonical_def)

section \<open>Projections of the updates\<close>

lemma row_sel [simp]:
  "sr_id (status_row st p t r) = sr_id r" "sr_id (next_run_row n t r) = sr_id r"
  "sr_id (cadence_row c a t r) = sr_id r"
  "sr_status (status_row st p t r) = st" "sr_status (next_run_row n t r) = sr_status r"
  "sr_status (cadence_row c a t r) = sr_status r"
  "sr_next_run_date (status_row st p t r) = sr_next_run_date r"
  "sr_next_run_date (next_run_row n t r) = n" "sr_next_run_date (cadence_row c a t r) = sr_next_run_date r"
  "sr_paused_until (status_row st p t r) = p" "sr_paused_until (next_run_row n t r) = sr_paused_until r"
  "sr_paused_until (cadence_row c a t r) = sr_paused_until r"
  "sr_customer_id (status_row st p t r) = sr_customer_id r"
  "sr_customer_id (next_run_row n t r) = sr_customer_id r"
  "sr_customer_id (cadence_row c a t r) = sr_customer_id r"
  by (simp_all add: status_row_def next_run_row_def cadence_row_def)

lemma occurrence_row_sel [simp]:
  "or_id (ostatus_row st t oc) = or_id oc" "or_schedule_id (ostatus_row st t oc) = or_schedule_id oc"
  "or_status (ostatus_row st t oc) = st" "or_order_id (ostatus_row st t oc) = or_order_id oc"
  "or_sequence_no (ostatus_row st t oc) = or_sequence_no oc"
  "or_scheduled_for (ostatus_row st t oc) = or_scheduled_for oc"
  "or_id (odate_row n t oc) = or_id oc" "or_schedule_id (odate_row n t oc) = or_schedule_id oc"
  "or_status (odate_row n t oc) = or_status oc" "or_order_id (odate_row n t oc) = or_order_id oc"
  "or_sequence_no (odate_row n t oc) = or_sequence_no oc" "or_scheduled_for (odate_row n t oc) = n"
  "unexecuted (odate_row n t oc) = unexecuted oc" "planned (odate_row n t oc) = planned oc"
  by (simp_all add: ostatus_row_def odate_row_def unexecuted_def planned_def)

lemma update_sel [simp]:
  "db_occurrences (set_schedule u f d) = db_occurrences d" "db_events (set_schedule u f d) = db_events d"
  "db_schedules (set_occurrences p g d) = db_schedules d" "db_events (set_occurrences p g d) = db_events d"
  "db_schedules (add_occurrence oc d) = db_schedules d" "db_events (add_occurrence oc d) = db_events d"
  "db_occurrences (add_occurrence oc d) = db_occurrences d @ [oc]"
  "db_schedules (log_event e d) = db_schedules d" "db_occurrences (log_event e d) = db_occurrences d"
  "db_schedules (set_schedule u f d) = update_where (\<lambda>r. sr_id r = u) f (db_schedules d)"
  "db_occurrences (set_occurrences p g d) = update_where p g (db_occurrences d)"
  "db_events (log_event e d) = db_events d @ [e\<lparr>er_id := db_event_seq d + 1\<rparr>]"
  by (simp_all add: set_schedule_def set_occurrences_def add_occurrence_def log_event_def)

lemma schedule_exists_update [simp]:
  "schedule_exists (set_occurrences p g d) u = schedule_exists d u"
  "schedule_exists (add_occurrence oc d) u = schedule_exists d u"
  "schedule_exists (log_event e d) u = schedule_exists d u"
  by (simp_all add: schedule_exists_def)

lemma schedule_exists_set_schedule [simp]:
  "(\<And>r. sr_id (f r) = sr_id r) \<Longrightarrow> schedule_exists (set_schedule v f d) u = schedule_exists d u"
  by (simp add: schedule_exists_def del: set_map)

section \<open>What planning does to the database\<close>

definition planned_row :: "int \<Rightarrow> string \<Rightarrow> string \<Rightarrow> int \<Rightarrow> int \<Rightarrow> occurrence_row" where
  "planned_row t i u seq day = \<lparr>or_id = i, or_schedule_id = u, or_sequence_no = seq,
     or_scheduled_for = day, or_status = OccurrencePlanned, or_order_id = None,
     or_idempotency_key = IdempotencyKey u seq, or_created_at = t, or_updated_at = t\<rparr>"

lemma planned_row_sel [simp]:
  "or_id (planned_row t i u seq day) = i" "or_schedule_id (planned_row t i u seq day) = u"
  "or_sequence_no (planned_row t i u seq day) = seq" "or_scheduled_for (planned_row t i u seq day) = day"
  "or_status (planned_row t i u seq day) = OccurrencePlanned" "or_order_id (planned_row t i u seq day) = None"
  "or_idempotency_key (planned_row t i u seq day) = IdempotencyKey u seq"
  by (simp_all add: planned_row_def)

fun plant :: "int \<Rightarrow> string \<Rightarrow> date \<Rightarrow> int \<Rightarrow> string list \<Rightarrow> int \<Rightarrow> date \<Rightarrow> db \<Rightarrow> db" where
  "plant t u anchor n [] seq cursor d = d"
| "plant t u anchor n (i # ids) seq cursor d =
    (case NextOccurrenceAfter anchor n cursor of
       Inl _ \<Rightarrow> d
     | Inr (_, date) \<Rightarrow>
        plant t u anchor n ids (seq + 1) date
          (log_event (event_of t u (materialized_event u (seq + 1) date))
            (add_occurrence (planned_row t i u (seq + 1) (ToTime date)) d)))"

definition next_run_date :: "string \<Rightarrow> date \<Rightarrow> db \<Rightarrow> date option" where
  "next_run_date u td d = earliest_after td
     (map scanOccurrence (sort_key or_sequence_no (occurrences_where u planned d))) None"

definition refreshed :: "int \<Rightarrow> string \<Rightarrow> date \<Rightarrow> db \<Rightarrow> db" where
  "refreshed t u td d = set_schedule u (next_run_row (datePtr (next_run_date u td d)) t) d"

definition cursor_of :: "string \<Rightarrow> date \<Rightarrow> db \<Rightarrow> date" where
  "cursor_of u td d = (case latest_day u d of
     Some l \<Rightarrow> if After (date_of_day l) td then date_of_day l else td | None \<Rightarrow> td)"

definition missing :: "string \<Rightarrow> int \<Rightarrow> date \<Rightarrow> db \<Rightarrow> nat" where
  "missing u horizon td d = nat (horizon - int (length (future_planned u (ToTime td) d)))"

definition topped_up :: "int \<Rightarrow> string \<Rightarrow> date \<Rightarrow> int \<Rightarrow> string list \<Rightarrow> date \<Rightarrow> db \<Rightarrow> db" where
  "topped_up t u anchor n ids td d =
     refreshed t u td (plant t u anchor n ids (max_sequence u d) (cursor_of u td d) d)"

lemma plant_schedules [simp]: "db_schedules (plant t u anchor n ids seq cursor d) = db_schedules d"
  by (induction t u anchor n ids seq cursor d rule: plant.induct) (auto split: sum.splits)

lemma schedule_exists_plant [simp]:
  "schedule_exists (plant t u anchor n ids seq cursor d) v = schedule_exists d v"
  by (simp add: schedule_exists_def)

section \<open>\<open>Run\<close> does this\<close>

lemma triple_RefreshNextRunDate:
  assumes "m_repo m = postgres W"
  shows "triple t (\<lambda>d. \<forall>u. w_uuid_in W (s_id s) = Some u \<longrightarrow> schedule_exists d u \<longrightarrow> Q () (refreshed t u td d))
     (RefreshNextRunDate m s td) Q any_error"
  unfolding RefreshNextRunDate_def assms postgres_sel
  by (rule triple_pre, rule triple_bind, rule triple_UpdateScheduleNextRun, rule triple_ListPlannedOccurrences)
    (auto simp: refreshed_def next_run_date_def)

lemma occurrence_row_of_planned [simp]:
  "occurrence_row_of t i u (planned_occurrence j v seq date) =
     (planned_row t i u seq (ToTime date))\<lparr>or_idempotency_key := IdempotencyKey v seq\<rparr>"
  by (simp add: occurrence_row_of_def planned_row_def planned_occurrence_def)

lemma planned_occurrence_sel [simp]:
  "o_id (planned_occurrence j v seq date) = j" "o_schedule_id (planned_occurrence j v seq date) = v"
  by (simp_all add: planned_occurrence_def)

lemma materialized_event_sel [simp]:
  "e_schedule_id (materialized_event v seq date) = v" "e_idempotency_key (materialized_event v seq date) = None"
  by (simp_all add: materialized_event_def)

text \<open>The identifiers are whatever the generator drew, in the form the server stored them.\<close>

definition stored_ids :: "world \<Rightarrow> nat \<Rightarrow> string list \<Rightarrow> bool" where
  "stored_ids W k ids = (length ids = k \<and> (\<forall>i \<in> set ids. w_uuid_in W i = Some i))"

lemma triple_plan_missing:
  assumes repo: "m_repo m = postgres W" and u: "s_id s = u" "w_uuid_in W u = Some u"
    and canon: "canonical W" and failed: "\<And>outs e d. Q (outs, Some e) d"
  shows "triple t
     (\<lambda>d. \<forall>ids. stored_ids W k ids \<longrightarrow>
        Q ((fst counts + int k, snd counts), None) (plant t u (s_anchor_date s) (s_interval_days s) ids seq cursor d))
     (plan_missing W m s k seq cursor counts) Q E"
proof (induction k arbitrary: seq cursor counts)
  case 0
  show ?case by (auto simp: stored_ids_def intro: triple_pre [OF triple_deliver])
next
  case (Suc k)
  obtain c dups where counts: "counts = (c, dups)" by fastforce
  show ?case
  proof (cases "NextOccurrenceAfter (s_anchor_date s) (s_interval_days s) cursor")
    case (Inl e)
    then show ?thesis by (auto simp: counts failed intro: triple_pre [OF triple_deliver])
  next
    case (Inr p)
    obtain b date where p: "p = (b, date)" by fastforce
    let ?then = "\<lambda>d. \<forall>ids. stored_ids W k ids \<longrightarrow>
        Q ((c + 1 + int k, dups), None)
          (plant t u (s_anchor_date s) (s_interval_days s) ids (seq + 1) date d)"
    let ?after = "\<lambda>d. schedule_exists d u \<longrightarrow>
        ?then (log_event (event_of t u (materialized_event u (seq + 1) date)) d)"
    have go_on: "triple t ?after
        (or_deliver (c + 1, dups) (AppendEvent (m_repo m) (materialized_event (s_id s) (seq + 1) date))
          (\<lambda>_. plan_missing W m s k (seq + 1) date (c + 1, dups))) Q E"
      unfolding repo postgres_sel
      by (rule triple_pre, rule triple_or_deliver, rule Suc.IH, rule triple_AppendEvent) (simp add: u)
    have handle: "triple t (case r of Inl _ \<Rightarrow> (\<lambda>_. False) | Inr _ \<Rightarrow> ?after)
        (case r of Inl e \<Rightarrow> if err_is e ErrDuplicateOccurrence
                      then plan_missing W m s k (seq + 1) date (c, dups + 1)
                      else deliver (c, dups) (Some e)
          | Inr _ \<Rightarrow> or_deliver (c + 1, dups)
              (AppendEvent (m_repo m) (materialized_event (s_id s) (seq + 1) date))
              (\<lambda>_. plan_missing W m s k (seq + 1) date (c + 1, dups))) Q E" for r
      by (cases r) (auto simp: go_on intro: triple_pre [OF Suc.IH] triple_pre [OF triple_deliver])
    have "triple t
        (\<lambda>d. \<forall>j i. w_uuid_in W j = Some i \<longrightarrow> (\<exists>d'. insert_occurrence (planned_row t i u (seq + 1) (ToTime date)) d = Inr d') \<longrightarrow>
           ?after (add_occurrence (planned_row t i u (seq + 1) (ToTime date)) d))
        (or_deliver (c, dups) (new_id W) (\<lambda>i.
          bind (attempt (CreateOccurrence (m_repo m) (planned_occurrence i (s_id s) (seq + 1) date)))
          (\<lambda>r. case r of
             Inl e \<Rightarrow> if err_is e ErrDuplicateOccurrence
                      then plan_missing W m s k (seq + 1) date (c, dups + 1)
                      else deliver (c, dups) (Some e)
           | Inr _ \<Rightarrow> or_deliver (c + 1, dups)
              (AppendEvent (m_repo m) (materialized_event (s_id s) (seq + 1) date))
              (\<lambda>_. plan_missing W m s k (seq + 1) date (c + 1, dups))))) Q E"
      unfolding repo postgres_sel
      by (rule triple_pre, rule triple_or_deliver, rule triple_bind,
          rule handle [unfolded repo postgres_sel], rule triple_attempt, simp, rule triple_CreateOccurrence,
          rule triple_new_id)
        (simp add: u planned_row_def)
    then show ?thesis
      unfolding counts plan_missing.simps Inr p sum.case prod.case
    proof (rule triple_pre, intro allI impI)
      fix d j i d' ids
      assume d: "\<forall>ids. stored_ids W (Suc k) ids \<longrightarrow>
          Q ((fst (c, dups) + int (Suc k), snd (c, dups)), None)
            (plant t u (s_anchor_date s) (s_interval_days s) ids seq cursor d)"
        and i: "w_uuid_in W j = Some i" and ids: "stored_ids W k ids"
      have "stored_ids W (Suc k) (i # ids)"
        using ids canonicalD [OF canon i] by (simp add: stored_ids_def)
      with d have "Q ((fst (c, dups) + int (Suc k), snd (c, dups)), None)
          (plant t u (s_anchor_date s) (s_interval_days s) (i # ids) seq cursor d)" by blast
      then show "Q ((c + 1 + int k, dups), None)
          (plant t u (s_anchor_date s) (s_interval_days s) ids (seq + 1) date
            (log_event (event_of t u (materialized_event u (seq + 1) date))
              (add_occurrence (planned_row t i u (seq + 1) (ToTime date)) d)))"
        by (simp add: Inr p algebra_simps)
    qed
  qed
qed

lemma triple_Run:
  assumes repo: "m_repo m = postgres W" and u: "s_id s = u" "w_uuid_in W u = Some u"
    and canon: "canonical W" and failed: "\<And>outs e d. Q (outs, Some e) d"
  shows "triple t
     (\<lambda>d. (\<not> IsActive s \<longrightarrow> Q ((0, 0), None) d)
        \<and> (IsActive s \<longrightarrow> (\<forall>ids. stored_ids W (missing u (m_horizon m) td d) ids \<longrightarrow> schedule_exists d u \<longrightarrow>
             Q ((int (missing u (m_horizon m) td d), 0), None)
               (topped_up t u (s_anchor_date s) (s_interval_days s) ids td d))))
     (Run W m s td) Q any_error"
proof (cases "IsActive s")
  case False
  then show ?thesis by (auto simp: Run_def intro: triple_pre [OF triple_deliver])
next
  case True
  then show ?thesis
  proof (cases "ValidateInterval (s_interval_days s)")
    case (Some e)
    with True show ?thesis by (auto simp: Run_def failed intro: triple_pre [OF triple_deliver])
  next
    case None
    have refresh: "triple t (\<lambda>d. schedule_exists d u \<longrightarrow> Q (outs, None) (refreshed t u td d))
        (or_deliver outs (RefreshNextRunDate m s td) (\<lambda>_. deliver outs None)) Q any_error" for outs
      by (rule triple_or_deliver, rule triple_deliver, rule triple_conseq [OF triple_RefreshNextRunDate [OF repo]])
        (auto simp: u failed)
    let ?Q = "\<lambda>(counts, err) d. err = None \<longrightarrow> schedule_exists d u \<longrightarrow> Q (counts, None) (refreshed t u td d)"
    have finish: "triple t (?Q r) (case r of (counts, err) \<Rightarrow> case err of
               Some e \<Rightarrow> deliver counts (Some e)
             | None \<Rightarrow> or_deliver counts (RefreshNextRunDate m s td) (\<lambda>_. deliver counts None)) Q any_error" for r
      by (cases r; cases "snd r") (auto simp: failed intro: triple_pre [OF refresh] triple_pre [OF triple_deliver])
    show ?thesis
      unfolding Run_def Let_def repo postgres_sel using True None
      by (simp, rule_tac triple_pre, rule_tac triple_or_deliver, rule_tac triple_if,
        rule_tac refresh [unfolded repo postgres_sel],
        rule_tac triple_or_deliver, rule_tac triple_or_deliver, rule_tac triple_bind, rule_tac finish,
        rule_tac triple_plan_missing [OF repo u canon], simp, rule_tac triple_LatestScheduledDate,
        rule_tac triple_MaxSequenceNo, rule_tac triple_CountFutureplannedOccurrences)
        (auto simp: u missing_def topped_up_def cursor_of_def stored_ids_def split: option.splits if_splits)
  qed
qed

text \<open>The same with the condition on the identifier inside the precondition.\<close>

lemma triple_plan_missing_any:
  assumes "m_repo m = postgres W"
  shows "triple t (\<lambda>_. True) (plan_missing W m s k seq cursor counts) (\<lambda>_ _. True) any_error"
proof (induction k arbitrary: seq cursor counts)
  case (Suc k)
  obtain c dups where counts: "counts = (c, dups)" by fastforce
  have "triple t (\<lambda>_. True) (case r of Inl e \<Rightarrow> if err_is e ErrDuplicateOccurrence
                      then plan_missing W m s k (seq + 1) date (c, dups + 1)
                      else deliver (c, dups) (Some e)
          | Inr _ \<Rightarrow> or_deliver (c + 1, dups)
              (AppendEvent (m_repo m) (materialized_event (s_id s) (seq + 1) date))
              (\<lambda>_. plan_missing W m s k (seq + 1) date (c + 1, dups))) (\<lambda>_ _. True) any_error" for r date
    unfolding assms postgres_sel
    by (cases r) (auto simp: Suc.IH intro: triple_deliver [THEN triple_pre] 
        triple_or_deliver [OF Suc.IH triple_AppendEvent, THEN triple_pre])
  then show ?case
    unfolding counts plan_missing.simps assms postgres_sel
    by (cases "NextOccurrenceAfter (s_anchor_date s) (s_interval_days s) cursor")
      (auto intro!: triple_deliver [THEN triple_pre]
        triple_or_deliver [OF triple_bind [OF _ triple_attempt [OF triple_CreateOccurrence]] triple_new_id, THEN triple_pre])
qed (auto intro: triple_deliver [THEN triple_pre])

lemma triple_Run_any:
  assumes repo: "m_repo m = postgres W"
  shows "triple t (\<lambda>_. True) (Run W m s td) (\<lambda>_ _. True) any_error"
proof -
  have refresh: "triple t (\<lambda>_. True)
      (or_deliver outs (RefreshNextRunDate m s td) (\<lambda>_. deliver outs None)) (\<lambda>_ _. True) any_error" for outs
    by (rule triple_or_deliver, rule triple_deliver, rule triple_conseq [OF triple_RefreshNextRunDate [OF repo]]) auto
  have finish: "triple t (\<lambda>_. True) (case r of (counts, err) \<Rightarrow> case err of
             Some e \<Rightarrow> deliver counts (Some e)
           | None \<Rightarrow> or_deliver counts (RefreshNextRunDate m s td) (\<lambda>_. deliver counts None))
           (\<lambda>_ _. True) any_error" for r :: "(int \<times> int) \<times> go_error option"
    by (cases r; cases "snd r") (auto intro: refresh triple_pre [OF triple_deliver])
  have rest: "triple t (\<lambda>d. True)
     (or_deliver (0, 0) (CountFutureplannedOccurrences (m_repo m) (s_id s) td) (\<lambda>existing.
        if m_horizon m - existing \<le> 0
        then or_deliver (0, 0) (RefreshNextRunDate m s td) (\<lambda>_. deliver (0, 0) None)
        else
          or_deliver (0, 0) (MaxSequenceNo (m_repo m) (s_id s)) (\<lambda>maxSeq.
          or_deliver (0, 0) (LatestScheduledDate (m_repo m) (s_id s)) (\<lambda>latest.
          bind (plan_missing W m s (nat (m_horizon m - existing)) maxSeq (f latest) (0, 0))
            (\<lambda>(counts, err). case err of
               Some e \<Rightarrow> deliver counts (Some e)
             | None \<Rightarrow> or_deliver counts (RefreshNextRunDate m s td) (\<lambda>_. deliver counts None))))))
       (\<lambda>_ _. True) any_error" for f
    unfolding repo postgres_sel
    by (rule triple_pre, rule triple_or_deliver, rule triple_if, rule refresh [unfolded repo postgres_sel],
        rule triple_or_deliver, rule triple_or_deliver, rule triple_bind, rule finish,
        rule triple_plan_missing_any [OF repo], rule triple_LatestScheduledDate,
        rule triple_MaxSequenceNo, rule triple_CountFutureplannedOccurrences) simp
  show ?thesis
    unfolding Run_def Let_def
    by (cases "IsActive s"; cases "ValidateInterval (s_interval_days s)")
      (auto simp del: diff_le_0_iff_le diff_le_eq intro!: rest triple_deliver [THEN triple_pre])
qed

lemma triple_False: "triple t (\<lambda>_. True) m (\<lambda>_ _. True) any_error \<Longrightarrow> triple t (\<lambda>_. False) m Q E"
  by (auto simp: triple_def holds_def ends_def elim!: wp_mono)

lemma triple_Run_found:
  assumes repo: "m_repo m = postgres W" and canon: "canonical W" and failed: "\<And>outs e d. Q (outs, Some e) d"
  shows "triple t
     (\<lambda>d. w_uuid_in W (s_id s) = Some (s_id s) \<and> schedule_exists d (s_id s)
        \<and> (if IsActive s then (\<forall>ids. stored_ids W (missing (s_id s) (m_horizon m) td d) ids \<longrightarrow>
             Q ((int (missing (s_id s) (m_horizon m) td d), 0), None)
               (topped_up t (s_id s) (s_anchor_date s) (s_interval_days s) ids td d))
           else Q ((0, 0), None) d))
     (Run W m s td) Q any_error"
proof (cases "w_uuid_in W (s_id s) = Some (s_id s)")
  case True
  show ?thesis
    by (rule triple_pre, rule triple_Run [OF repo refl True canon], rule failed) auto
next
  case False
  then show ?thesis by (auto intro: triple_pre [OF triple_False [OF triple_Run_any [OF repo]]])
qed

lemma triple_only_error_Run:
  assumes repo: "m_repo m = postgres W" and canon: "canonical W"
  shows "triple t
     (\<lambda>d. w_uuid_in W (s_id s) = Some (s_id s) \<and> schedule_exists d (s_id s)
        \<and> (if IsActive s then (\<forall>ids. stored_ids W (missing (s_id s) (m_horizon m) td d) ids \<longrightarrow>
             Q () (topped_up t (s_id s) (s_anchor_date s) (s_interval_days s) ids td d)) else Q () d))
     (only_error (Run W m s td)) Q any_error"
  by (rule triple_only_error, rule triple_pre, rule triple_Run_found [OF repo canon]) simp_all

end
