(* ===== verification/Effects.thy ===== *)
theory Effects
  imports Planning
begin

text \<open>
  What a committed action has done: for every action of the service, the database afterwards as
  a function of the one its transaction began on (\<open>..._commits\<close>), and for the materializer the
  shape of the rows it adds.
\<close>

section \<open>Pause and cancel\<close>

text \<open>Both stop a schedule: new status, nothing upcoming, no next run.\<close>

definition upcoming :: "string \<Rightarrow> occurrence_row \<Rightarrow> bool" where
  "upcoming u = cancelable u [OccurrencePlanned, OccurrencePending]"

definition stopped :: "int \<Rightarrow> string \<Rightarrow> schedule_status \<Rightarrow> int option \<Rightarrow> db \<Rightarrow> db" where
  "stopped t u st until d =
     set_schedule u (next_run_row None t)
       (set_occurrences (upcoming u) (ostatus_row OccurrenceCanceled t)
         (set_schedule u (status_row st until t) d))"

definition pause_db :: "int \<Rightarrow> string \<Rightarrow> date option \<Rightarrow> caller \<Rightarrow> db \<Rightarrow> db" where
  "pause_db t u until caller d =
     log_event (event_of t u (service_event u EventSchedulePaused caller None None
         ((''occurrences_canceled'', JNum (int (length (filter (upcoming u) (db_occurrences d))))) #
          (case until of None \<Rightarrow> [] | Some p \<Rightarrow> [(''paused_until'', JStr (String p))]))))
       (stopped t u SchedulePaused (datePtr until) d)"

definition cancel_db :: "int \<Rightarrow> string \<Rightarrow> string \<Rightarrow> caller \<Rightarrow> db \<Rightarrow> db" where
  "cancel_db t u reason caller d =
     log_event (event_of t u (service_event u EventScheduleCanceled caller None (Some reason)
         [(''occurrences_canceled'', JNum (int (length (filter (upcoming u) (db_occurrences d)))))]))
       (stopped t u ScheduleCanceled None d)"

text \<open>A date that is after the customer's today at some reading of the clock.\<close>

definition future_for :: "world \<Rightarrow> schedule_row \<Rightarrow> date option \<Rightarrow> bool" where
  "future_for W r until = (case until of None \<Rightarrow> True
     | Some p \<Rightarrow> \<exists>k. After p (DateOf (zone_of W (scanSchedule r)) (w_now W k)))"

lemma triple_today:
  "triple t (\<lambda>d. \<forall>k. Q (DateOf (zone_of W sch) (w_now W k)) d) (today W sch) Q E"
  unfolding today_def by (rule triple_bind, rule triple_ret, rule triple_clock)

text \<open>The facts of the lock, for the rewriting of what follows.\<close>

lemma lockedD:
  assumes "canonical W" and "locked W i a caller d u r" and "sch = scanSchedule r"
  shows "s_id sch = u \<and> w_uuid_in W u = Some u \<and> schedule_exists d u \<and> sch = scanSchedule r \<and> sr_id r = u"
  using assms by (auto simp: locked_def dest!: schedule_atD dest: canonicalD)

lemma service_event_sel [simp]:
  "e_schedule_id (service_event u ty caller key reason body) = u"
  "e_event_type (service_event u ty caller key reason body) = ty"
  "e_idempotency_key (service_event u ty caller key reason body) = key"
  by (simp_all add: service_event_def)

text \<open>The statements of a body, in any order.\<close>

lemmas vcg = triple_AppendEvent triple_UpdateScheduleNextRun triple_cancelOccurrences
  triple_UpdateScheduleStatus triple_UpdateScheduleCadence triple_UpdateOccurrenceStatus
  triple_UpdateOccurrenceDate triple_EventExistsWithKey triple_NextActionableOccurrence
  triple_NextPlannedOccurrence triple_LastPlacedOccurrence triple_today triple_attempt triple_ret
  triple_throw triple_check triple_if triple_option triple_sum triple_bind

lemmas method_defs = postgres_sel pg_CancelUnexecutedOccurrences_def pg_CancelPlannedOccurrences_def

lemma Pause_commits:
  assumes "canonical W" and "svc_repo svc = postgres W" and "st_tx s = None"
    and "Pause W svc i until caller s = (Inr out, s')"
  shows "\<exists>u r r'. locked W i ActionPause caller (begun W s) u r
      \<and> (future_for W r until \<and> st_db s' = pause_db (w_dbnow W (st_ticks s)) u until caller (begun W s))
      \<and> schedule_at u (c_scope caller) (st_db s') = Some r' \<and> out = scanSchedule r' \<and> st_tx s' = None"
  by (rule transition_commits [OF assms(4)[unfolded Pause_def] assms(3,2)], unfold method_defs,
      rule triple_pre, (rule vcg)+, elim conjE, frule (1) lockedD [OF assms(1)], cases until;
      simp add: pause_db_def stopped_def upcoming_def future_for_def datePtr_def)

lemma check_Inr: "bind (check v) f s = (Inr b, s') \<Longrightarrow> v = None \<and> f () s = (Inr b, s')"
  by (cases v) (simp_all add: check_def bind_def ret_def throw_def)

lemma Cancel_commits:
  assumes "canonical W" and "svc_repo svc = postgres W" and "st_tx s = None"
    and "Cancel W svc i reason caller s = (Inr out, s')"
  shows "\<exists>u r r'. locked W i ActionCancel caller (begun W s) u r
      \<and> st_db s' = cancel_db (w_dbnow W (st_ticks s)) u reason caller (begun W s)
      \<and> schedule_at u (c_scope caller) (st_db s') = Some r' \<and> out = scanSchedule r' \<and> st_tx s' = None"
  by (rule transition_commits [OF check_Inr [OF assms(4)[unfolded Cancel_def], THEN conjunct2] assms(3,2)],
      unfold method_defs, rule triple_pre, (rule vcg)+, elim conjE, frule (1) lockedD [OF assms(1)],
      simp add: cancel_db_def stopped_def upcoming_def datePtr_def)

section \<open>Arming\<close>

text \<open>Occurrence identifiers are stored in the form Postgres prints.\<close>

definition canonical_db :: "world \<Rightarrow> db \<Rightarrow> bool" where
  "canonical_db W d = (\<forall>oc \<in> set (db_occurrences d). w_uuid_in W (or_id oc) = Some (or_id oc))"

definition set_occurrence :: "occurrence_row \<Rightarrow> (occurrence_row \<Rightarrow> occurrence_row) \<Rightarrow> db \<Rightarrow> db" where
  "set_occurrence oc f d = set_occurrences (\<lambda>r. or_id r = or_id oc \<and> or_order_id r = None) f d"

definition arm_db :: "int \<Rightarrow> string \<Rightarrow> occurrence_row \<Rightarrow> caller \<Rightarrow> db \<Rightarrow> db" where
  "arm_db t u oc caller d =
     log_event (event_of t u (service_event u EventOccurrenceArmed caller None None
         [(''scheduled_for'', JStr (String (date_of_day (or_scheduled_for oc)))),
          (''sequence_no'', JNum (or_sequence_no oc))]))
       (set_occurrence oc (ostatus_row OccurrencePending t) d)"

lemma next_rowD:
  "next_planned u d = Some oc \<Longrightarrow> oc \<in> set (db_occurrences d) \<and> or_schedule_id oc = u \<and> planned oc"
  "next_unexecuted u d = Some oc \<Longrightarrow> oc \<in> set (db_occurrences d) \<and> or_schedule_id oc = u \<and> unexecuted oc"
  by (auto simp: next_planned_def next_unexecuted_def occurrences_where_def dest!: first_by_Some(1))

lemma canonical_dbD: "canonical_db W d \<Longrightarrow> oc \<in> set (db_occurrences d) \<Longrightarrow> w_uuid_in W (or_id oc) = Some (or_id oc)"
  by (simp add: canonical_db_def)

lemma next_uuid:
  assumes "canonical_db W d"
  shows "next_planned u d = Some oc \<Longrightarrow> w_uuid_in W (or_id oc) = Some (or_id oc)"
    and "next_unexecuted u d = Some oc \<Longrightarrow> w_uuid_in W (or_id oc) = Some (or_id oc)"
  using canonical_dbD [OF assms] next_rowD by blast+

lemma ArmNext_commits:
  assumes "canonical W" and "svc_repo svc = postgres W" and "st_tx s = None"
    and "ArmNext W svc i caller s = (Inr out, s')" and canon: "canonical_db W (begun W s)"
  shows "\<exists>u r r'. locked W i ActionArm caller (begun W s) u r
      \<and> (\<exists>oc. next_planned u (begun W s) = Some oc
           \<and> st_db s' = arm_db (w_dbnow W (st_ticks s)) u oc caller (begun W s))
      \<and> schedule_at u (c_scope caller) (st_db s') = Some r' \<and> out = scanSchedule r' \<and> st_tx s' = None"
  by (rule transition_commits [OF assms(4)[unfolded ArmNext_def] assms(3,2)], unfold method_defs,
      rule triple_pre, (rule vcg)+, elim conjE, frule (1) lockedD [OF assms(1)],
      auto simp: arm_db_def set_occurrence_def canonical_dbD [OF canon] split: option.splits dest: next_rowD)

section \<open>Skipping and deferring\<close>

definition today_of :: "world \<Rightarrow> schedule_row \<Rightarrow> nat \<Rightarrow> date" where
  "today_of W r k = DateOf (zone_of W (scanSchedule r)) (w_now W k)"

definition key_used :: "string \<Rightarrow> event_type \<Rightarrow> string \<Rightarrow> db \<Rightarrow> bool" where
  "key_used u ty key d = ((u, ty, Some key) \<in> set (map event_key (db_events d)))"

definition skipped_db :: "int \<Rightarrow> string \<Rightarrow> occurrence_row \<Rightarrow> string \<Rightarrow> caller \<Rightarrow> db \<Rightarrow> db" where
  "skipped_db t u oc key caller d =
     log_event (event_of t u (service_event u EventOccurrenceSkipped caller (Some key) None
         [(''scheduled_for'', JStr (String (date_of_day (or_scheduled_for oc)))),
          (''sequence_no'', JNum (or_sequence_no oc))]))
       (set_occurrence oc (ostatus_row OccurrenceSkipped t) d)"

definition defer_db :: "int \<Rightarrow> string \<Rightarrow> occurrence_row \<Rightarrow> int \<Rightarrow> string \<Rightarrow> caller \<Rightarrow> db \<Rightarrow> db" where
  "defer_db t u oc days key caller d =
     log_event (event_of t u (service_event u EventOccurrenceDeferred caller (Some key) None
         [(''days'', JNum days), (''from'', JStr (String (date_of_day (or_scheduled_for oc)))),
          (''sequence_no'', JNum (or_sequence_no oc)),
          (''to'', JStr (String (date_of_day (or_scheduled_for oc + days))))]))
       (set_occurrences (\<lambda>r. or_id r = or_id oc \<and> unexecuted r) (odate_row (or_scheduled_for oc + days) t) d)"

lemma triple_nextOccurrence:
  assumes "a = ActionSkipNext \<or> a = ActionDefer"
  shows "triple t (\<lambda>d. \<forall>u oc. w_uuid_in W (s_id sch) = Some u \<longrightarrow> next_unexecuted u d = Some oc \<longrightarrow>
        Q (scanOccurrence oc) d)
     (nextOccurrence (postgres W) sch a msg) Q any_error"
  unfolding nextOccurrence_def method_defs
  by (rule triple_pre, (rule vcg)+)
    (use assms in \<open>auto simp: ValidateOccurrenceAction_None unexecuted_def dest!: next_rowD split: option.splits\<close>)

lemma AddDays_date_of_day [simp]: "AddDays (date_of_day n) k = date_of_day (n + k)"
  by (simp add: AddDays_def)

lemma WithRepo_sel [simp]: "m_repo (WithRepo m r) = r" "m_horizon (WithRepo m r) = m_horizon m"
  by (simp_all add: WithRepo_def)

lemmas vcg_planning = triple_RefreshNextRunDate triple_only_error_Run

definition deferred_to :: "world \<Rightarrow> schedule_row \<Rightarrow> int \<Rightarrow> string \<Rightarrow> int \<Rightarrow> string \<Rightarrow> caller \<Rightarrow> db \<Rightarrow> db \<Rightarrow> bool" where
  "deferred_to W r t u days key caller d d' =
    (if key_used u EventOccurrenceDeferred key d then d' = d
     else \<exists>oc k. next_unexecuted u d = Some oc
       \<and> d' = refreshed t u (today_of W r k) (defer_db t u oc days key caller d))"

lemma Defer_commits:
  assumes "canonical W" and "svc_repo svc = postgres W" and "st_tx s = None"
    and run: "Defer W svc i days key caller s = (Inr out, s')" and canon: "canonical_db W (begun W s)"
  shows "\<exists>u r r'. locked W i ActionDefer caller (begun W s) u r
      \<and> deferred_to W r (w_dbnow W (st_ticks s)) u days key caller (begun W s) (st_db s')
      \<and> schedule_at u (c_scope caller) (st_db s') = Some r' \<and> out = scanSchedule r' \<and> st_tx s' = None"
  by (rule transition_commits [OF check_Inr [THEN conjunct2,
        OF check_Inr [OF run[unfolded Defer_def], THEN conjunct2]] assms(3,2)],
      unfold method_defs Let_def, rule triple_pre,
      ((rule triple_nextOccurrence, simp) | rule triple_RefreshNextRunDate, simp | rule vcg)+,
      elim conjE, frule (1) lockedD [OF assms(1)],
      auto simp: deferred_to_def key_used_def defer_db_def today_of_def next_uuid [OF canon])

definition skipped_to :: "world \<Rightarrow> int \<Rightarrow> schedule_row \<Rightarrow> int \<Rightarrow> string \<Rightarrow> string \<Rightarrow> caller \<Rightarrow> db \<Rightarrow> db \<Rightarrow> bool" where
  "skipped_to W horizon r t u key caller d d' =
    (if key_used u EventOccurrenceSkipped key d then d' = d
     else \<exists>oc k ids. next_unexecuted u d = Some oc
       \<and> (let e = skipped_db t u oc key caller d; td = today_of W r k in
          stored_ids W (missing u horizon td e) ids
          \<and> d' = topped_up t u (date_of_day (sr_anchor_date r)) (sr_interval_days r) ids td e))"

lemma SkipNext_commits:
  assumes "canonical W" and "svc_repo svc = postgres W" and "st_tx s = None"
    and run: "SkipNext W svc i key caller s = (Inr out, s')" and canon: "canonical_db W (begun W s)"
  shows "\<exists>u r r'. locked W i ActionSkipNext caller (begun W s) u r
      \<and> skipped_to W (m_horizon (svc_mat svc)) r (w_dbnow W (st_ticks s)) u key caller (begun W s) (st_db s')
      \<and> schedule_at u (c_scope caller) (st_db s') = Some r' \<and> out = scanSchedule r' \<and> st_tx s' = None"
  by (rule transition_commits [OF check_Inr [OF run[unfolded SkipNext_def], THEN conjunct2] assms(3,2)],
      unfold method_defs Let_def, rule triple_pre,
      ((rule triple_nextOccurrence, simp) | (rule triple_only_error_Run [OF _ assms(1)], simp) | rule vcg)+,
      elim conjE, frule (1) lockedD [OF assms(1)],
      auto simp: skipped_to_def key_used_def skipped_db_def set_occurrence_def today_of_def Let_def
        IsActive_def locked_def next_uuid [OF canon])

section \<open>Resuming and changing the cadence\<close>

definition resumed_db :: "int \<Rightarrow> schedule_row \<Rightarrow> string \<Rightarrow> date \<Rightarrow> caller \<Rightarrow> db \<Rightarrow> db" where
  "resumed_db t r u td caller d =
     log_event (event_of t u (service_event u EventScheduleResumed caller None None
         [(''anchor_date'', JStr (String td)), (''interval_days'', JNum (sr_interval_days r)),
          (''next_order_date'', JStr (String (AddDays td (sr_interval_days r))))]))
       (set_schedule u (cadence_row (sr_interval_days r) (ToTime td) t)
         (set_schedule u (status_row ScheduleActive None t) d))"

definition resumed_to :: "world \<Rightarrow> int \<Rightarrow> schedule_row \<Rightarrow> int \<Rightarrow> string \<Rightarrow> caller \<Rightarrow> db \<Rightarrow> db \<Rightarrow> bool" where
  "resumed_to W horizon r t u caller d d' =
    (\<exists>k ids. let td = today_of W r k; e = resumed_db t r u td caller d in
       stored_ids W (missing u horizon td e) ids
       \<and> d' = topped_up t u td (sr_interval_days r) ids td e)"

lemma Resume_commits:
  assumes "canonical W" and "svc_repo svc = postgres W" and "st_tx s = None"
    and run: "Resume W svc i caller s = (Inr out, s')"
  shows "\<exists>u r r'. locked W i ActionResume caller (begun W s) u r
      \<and> resumed_to W (m_horizon (svc_mat svc)) r (w_dbnow W (st_ticks s)) u caller (begun W s) (st_db s')
      \<and> schedule_at u (c_scope caller) (st_db s') = Some r' \<and> out = scanSchedule r' \<and> st_tx s' = None"
  by (rule transition_commits [OF run[unfolded Resume_def] assms(3,2)],
      unfold method_defs Let_def, rule triple_pre,
      ((rule triple_only_error_Run [OF _ assms(1)], simp) | rule vcg)+,
      elim conjE, frule (1) lockedD [OF assms(1)],
      auto simp: resumed_to_def resumed_db_def datePtr_def today_of_def Let_def IsActive_def)

definition cadence_anchor :: "string \<Rightarrow> date \<Rightarrow> db \<Rightarrow> date" where
  "cadence_anchor u td d = (case last_placed u d of
     Some oc \<Rightarrow> date_of_day (or_scheduled_for oc) | None \<Rightarrow> td)"

definition rescheduled_db ::
    "int \<Rightarrow> schedule_row \<Rightarrow> string \<Rightarrow> int \<Rightarrow> date \<Rightarrow> caller \<Rightarrow> db \<Rightarrow> db" where
  "rescheduled_db t r u days anchor caller d =
     log_event (event_of t u (service_event u EventScheduleCadenceChanged caller None None
         [(''anchor_date'', JStr (String anchor)), (''from_interval_days'', JNum (sr_interval_days r)),
          (''occurrences_rewritten'',
             JNum (int (length (filter (cancelable u [OccurrencePlanned]) (db_occurrences d))))),
          (''to_interval_days'', JNum days)]))
       (set_occurrences (cancelable u [OccurrencePlanned]) (ostatus_row OccurrenceCanceled t)
         (set_schedule u (cadence_row days (ToTime anchor) t) d))"

definition rescheduled_to ::
    "world \<Rightarrow> int \<Rightarrow> schedule_row \<Rightarrow> int \<Rightarrow> string \<Rightarrow> int \<Rightarrow> caller \<Rightarrow> db \<Rightarrow> db \<Rightarrow> bool" where
  "rescheduled_to W horizon r t u days caller d d' =
    (\<exists>k. let td = today_of W r k; anchor = cadence_anchor u td d;
              e = rescheduled_db t r u days anchor caller d in
       if sr_status r = ScheduleActive
       then \<exists>ids. stored_ids W (missing u horizon td e) ids \<and> d' = topped_up t u anchor days ids td e
       else d' = set_schedule u (next_run_row None t) e)"

lemma ChangeCadence_commits:
  assumes "canonical W" and "svc_repo svc = postgres W" and "st_tx s = None"
    and run: "ChangeCadence W svc i days caller s = (Inr out, s')"
  shows "\<exists>u r r'. locked W i ActionChangeCadence caller (begun W s) u r
      \<and> rescheduled_to W (m_horizon (svc_mat svc)) r (w_dbnow W (st_ticks s)) u days caller (begun W s) (st_db s')
      \<and> schedule_at u (c_scope caller) (st_db s') = Some r' \<and> out = scanSchedule r' \<and> st_tx s' = None"
  by (rule transition_commits [OF check_Inr [OF run[unfolded ChangeCadence_def], THEN conjunct2] assms(3,2)],
      unfold method_defs Let_def, rule triple_pre,
      ((rule triple_only_error_Run [OF _ assms(1)], simp) | rule vcg)+,
      elim conjE, frule (1) lockedD [OF assms(1)],
      auto simp: rescheduled_to_def rescheduled_db_def cadence_anchor_def datePtr_def today_of_def Let_def
        IsActive_def split: option.splits,
      intro exI conjI, assumption, rule refl)

end
