(* ===== verification/Horizon.thy ===== *)
theory Horizon
  imports Effects
begin

text \<open>
  What topping up means: the rows \<open>plant\<close> adds, one per missing place, numbered on from the last
  sequence number and dated on the rhythm of the anchor after everything already spoken for; the
  horizon is full afterwards; the next run is the earliest planned date to come; a second run
  plans nothing. All of it while the dates stay within the 106751 days a \<open>time.Duration\<close> spans.
\<close>

section \<open>The rows added\<close>

text \<open>The number of the first occurrence after a date.\<close>

definition first_after :: "date \<Rightarrow> int \<Rightarrow> date \<Rightarrow> int" where
  "first_after anchor n cursor =
    (if day_of cursor < day_of anchor then 1 else (day_of cursor - day_of anchor) div n + 1)"

definition planted :: "int \<Rightarrow> string \<Rightarrow> date \<Rightarrow> int \<Rightarrow> string list \<Rightarrow> int \<Rightarrow> int \<Rightarrow> occurrence_row list" where
  "planted t u anchor n ids seq k =
    map (\<lambda>j. planned_row t (ids ! j) u (seq + 1 + int j) (day_of anchor + n * (k + int j))) [0..<length ids]"

text \<open>The dates to be planned lie within reach of the anchor.\<close>

definition in_reach :: "date \<Rightarrow> int \<Rightarrow> date \<Rightarrow> nat \<Rightarrow> bool" where
  "in_reach anchor n cursor k =
    (7 \<le> n \<and> n \<le> 180 \<and> max 0 (day_of cursor - day_of anchor) + n * int k \<le> 106751)"

lemma planted_Nil [simp]: "planted t u anchor n [] seq k = []"
  by (simp add: planted_def)

lemma planted_Cons:
  "planted t u anchor n (i # ids) seq k =
     planned_row t i u (seq + 1) (day_of anchor + n * k) # planted t u anchor n ids (seq + 1) (k + 1)"
  unfolding planted_def length_Cons upt_conv_Cons [OF zero_less_Suc]
  by (simp add: map_Suc_upt [symmetric] del: map_Suc_upt upt_Suc) (simp add: algebra_simps)

lemma first_after_step:
  assumes "7 \<le> n"
  shows "first_after anchor n (AddDays anchor (n * first_after anchor n cursor)) = first_after anchor n cursor + 1"
proof -
  have "0 \<le> first_after anchor n cursor"
    using assms by (auto simp: first_after_def pos_imp_zdiv_nonneg_iff)
  then show ?thesis using assms by (simp add: first_after_def [of anchor n "AddDays _ _"] mult_less_0_iff)
qed

lemma first_after_bounds:
  assumes "7 \<le> n"
  shows "day_of cursor < day_of anchor + n * first_after anchor n cursor"
    and "n * first_after anchor n cursor \<le> max 0 (day_of cursor - day_of anchor) + n"
    and "1 \<le> first_after anchor n cursor"
  using assms first_multiple_after [of n "day_of cursor - day_of anchor"]
  by (auto simp: first_after_def pos_imp_zdiv_nonneg_iff distrib_left)

lemma plant_rows:
  assumes "in_reach anchor n cursor (length ids)" "valid_date cursor"
  shows "db_occurrences (plant t u anchor n ids seq cursor d)
       = db_occurrences d @ planted t u anchor n ids seq (first_after anchor n cursor)"
  using assms
proof (induction ids arbitrary: seq cursor d)
  case (Cons i ids)
  let ?k = "first_after anchor n cursor" and ?next = "AddDays anchor (n * first_after anchor n cursor)"
  have n: "7 \<le> n" "n \<le> 180" using Cons.prems by (simp_all add: in_reach_def)
  have nxt: "NextOccurrenceAfter anchor n cursor = Inr (?k, ?next)"
    unfolding first_after_def
  proof (rule NextOccurrenceAfter_near [OF n Cons.prems(2)])
    have "0 \<le> n * int (length (i # ids))" using n by simp
    then show "day_of cursor - day_of anchor \<le> 106751" using Cons.prems(1) unfolding in_reach_def by linarith
  qed
  have "in_reach anchor n ?next (length ids)"
    using Cons.prems(1) first_after_bounds(2,3) [OF n(1), where cursor = cursor and anchor = anchor] n
    by (auto simp: in_reach_def distrib_left)
  from Cons.IH [OF this] show ?case
    by (simp add: nxt planted_Cons first_after_step [OF n(1)] ToTime_def)
qed simp

section \<open>The horizon is full\<close>

lemma cursor_of_bounds:
  assumes "valid_date td"
  shows "valid_date (cursor_of u td d)" and "day_of td \<le> day_of (cursor_of u td d)"
    and "oc \<in> set (db_occurrences d) \<Longrightarrow> or_schedule_id oc = u \<Longrightarrow> unexecuted oc \<Longrightarrow>
      or_scheduled_for oc \<le> day_of (cursor_of u td d)"
proof -
  show "valid_date (cursor_of u td d)" "day_of td \<le> day_of (cursor_of u td d)"
    using assms by (auto simp: cursor_of_def After_iff split: option.splits)
  assume oc: "oc \<in> set (db_occurrences d)" "or_schedule_id oc = u" "unexecuted oc"
  let ?days = "map or_scheduled_for (occurrences_where u unexecuted d)"
  have mem: "or_scheduled_for oc \<in> set ?days" using oc by (auto simp: occurrences_where_def)
  then have "latest_day u d = Some (Max (set ?days))" by (auto simp: latest_day_def sql_max_def)
  then obtain l where l: "latest_day u d = Some l" "or_scheduled_for oc \<le> l"
    using Max_ge [OF finite_set mem] by blast
  then show "or_scheduled_for oc \<le> day_of (cursor_of u td d)"
    using assms by (auto simp: cursor_of_def After_iff not_less)
qed

lemma topped_up_rows:
  assumes "in_reach anchor n (cursor_of u td d) (length ids)" "valid_date td"
  shows "db_occurrences (topped_up t u anchor n ids td d) = db_occurrences d @
    planted t u anchor n ids (max_sequence u d) (first_after anchor n (cursor_of u td d))"
  using assms cursor_of_bounds(1) by (simp add: topped_up_def refreshed_def plant_rows)

lemma planted_rowD:
  assumes "7 \<le> n" and "oc \<in> set (planted t u anchor n ids seq (first_after anchor n cursor))"
  shows "or_schedule_id oc = u \<and> planned oc \<and> or_order_id oc = None \<and> day_of cursor < or_scheduled_for oc
    \<and> seq < or_sequence_no oc \<and> (\<exists>k \<ge> 1. or_scheduled_for oc = day_of anchor + n * k)"
proof -
  from assms(2) obtain j where oc: "oc = planned_row t (ids ! j) u (seq + 1 + int j)
      (day_of anchor + n * (first_after anchor n cursor + int j))"
    by (auto simp: planted_def)
  have "n * first_after anchor n cursor \<le> n * (first_after anchor n cursor + int j)"
    using assms(1) by (intro mult_left_mono) simp_all
  moreover have "1 \<le> first_after anchor n cursor + int j"
    using first_after_bounds(3) [OF assms(1), where cursor = cursor and anchor = anchor] by simp
  ultimately show ?thesis
    using first_after_bounds(1) [OF assms(1), where cursor = cursor and anchor = anchor] unfolding oc by (auto simp: planned_def)
qed

lemma length_planted [simp]: "length (planted t u anchor n ids seq k) = length ids"
  by (simp add: planted_def)

lemma future_planned_topped_up:
  assumes reach: "in_reach anchor n (cursor_of u td d) (length ids)" and td: "valid_date td"
  shows "length (future_planned u (ToTime td) (topped_up t u anchor n ids td d))
       = length (future_planned u (ToTime td) d) + length ids"
proof -
  let ?new = "planted t u anchor n ids (max_sequence u d) (first_after anchor n (cursor_of u td d))"
  have n: "7 \<le> n" using reach by (simp add: in_reach_def)
  have "filter (\<lambda>r. or_schedule_id r = u \<and> planned r \<and> ToTime td < or_scheduled_for r) ?new = ?new"
    using planted_rowD [OF n] cursor_of_bounds(2) [OF td, of u d]
    by (auto simp: filter_id_conv ToTime_def intro: le_less_trans)
  then show ?thesis using topped_up_rows [OF assms] by (simp add: future_planned_def occurrences_where_def)
qed

lemma horizon_full:
  assumes "in_reach anchor n (cursor_of u td d) (length ids)" "valid_date td"
    and "length ids = missing u horizon td d"
  shows "int (length (future_planned u (ToTime td) (topped_up t u anchor n ids td d)))
       = max horizon (int (length (future_planned u (ToTime td) d)))"
  using future_planned_topped_up [OF assms(1,2)] assms(3) by (simp add: missing_def)

section \<open>The next run\<close>

lemma earliest_after_None:
  "earliest_after td ocs nxt = None \<longleftrightarrow> nxt = None \<and> (\<forall>oc \<in> set ocs. \<not> After (o_scheduled_for oc) td)"
  by (induction ocs arbitrary: nxt) (auto split: option.splits)

definition earliest :: "date \<Rightarrow> date option \<Rightarrow> occurrence list \<Rightarrow> date \<Rightarrow> bool" where
  "earliest td nxt ocs m =
    ((nxt = Some m \<or> (\<exists>oc \<in> set ocs. o_scheduled_for oc = m \<and> After m td))
     \<and> (\<forall>x. nxt = Some x \<longrightarrow> day_of m \<le> day_of x)
     \<and> (\<forall>oc \<in> set ocs. After (o_scheduled_for oc) td \<longrightarrow> day_of m \<le> day_of (o_scheduled_for oc)))"

lemma earliest_after_Some:
  assumes "earliest_after td ocs nxt = Some m"
    and "\<forall>oc \<in> set ocs. valid_date (o_scheduled_for oc)" "\<forall>x. nxt = Some x \<longrightarrow> valid_date x"
  shows "earliest td nxt ocs m"
  using assms
proof (induction ocs arbitrary: nxt)
  case (Cons a ocs)
  consider "\<not> After (o_scheduled_for a) td" | x where "nxt = Some x" "\<not> Before (o_scheduled_for a) x"
    | "After (o_scheduled_for a) td" "\<forall>x. nxt = Some x \<longrightarrow> Before (o_scheduled_for a) x" by blast
  then show ?case
  proof cases
    case 1
    then show ?thesis using Cons by (auto simp: earliest_def)
  next
    case 2
    then have "earliest td nxt ocs m" using Cons by (auto split: if_splits)
    with 2 show ?thesis using Cons.prems(2,3) by (auto simp: earliest_def Before_iff not_less)
  next
    case 3
    then have "earliest td (Some (o_scheduled_for a)) ocs m" using Cons by (auto split: if_splits option.splits)
    with 3 show ?thesis using Cons.prems(2,3) by (fastforce simp: earliest_def Before_iff)
  qed
qed (auto simp: earliest_def)

text \<open>The next run of a schedule: the first of its planned days after today.\<close>

lemma next_run_date_Some:
  assumes "next_run_date u td d = Some m" and "valid_date td"
  shows "\<exists>oc. oc \<in> set (future_planned u (ToTime td) d) \<and> m = date_of_day (or_scheduled_for oc)
    \<and> (\<forall>oc' \<in> set (future_planned u (ToTime td) d). or_scheduled_for oc \<le> or_scheduled_for oc')"
proof -
  have "earliest td None (map scanOccurrence (sort_key or_sequence_no (occurrences_where u planned d))) m"
    using assms(1) unfolding next_run_date_def by (rule earliest_after_Some) auto
  then show ?thesis
    using assms(2) by (force simp: earliest_def future_planned_def occurrences_where_def After_iff ToTime_def)
qed

lemma next_run_date_None:
  "valid_date td \<Longrightarrow> next_run_date u td d = None \<longleftrightarrow> future_planned u (ToTime td) d = []"
  by (auto simp: next_run_date_def earliest_after_None future_planned_def occurrences_where_def After_iff
      ToTime_def filter_empty_conv)

section \<open>A second run\<close>

lemma next_run_date_cong: "db_occurrences d' = db_occurrences d \<Longrightarrow> next_run_date u td d' = next_run_date u td d"
  by (simp add: next_run_date_def occurrences_where_def)

lemma topped_up_again:
  assumes "in_reach anchor n (cursor_of u td d) (length ids)" "valid_date td" "length ids = missing u horizon td d"
  shows "missing u horizon td (topped_up t u anchor n ids td d) = 0"
    and "topped_up t' u anchor n [] td (topped_up t u anchor n ids td d)
       = set_schedule u (\<lambda>r. r\<lparr>sr_updated_at := t'\<rparr>) (topped_up t u anchor n ids td d)"
proof -
  show "missing u horizon td (topped_up t u anchor n ids td d) = 0"
    using future_planned_topped_up [OF assms(1,2), of t] assms(3) by (simp add: missing_def)
  have "set_schedule u f (set_schedule u g e) = set_schedule u h (set_schedule u g e)"
    if "\<And>r. f (g r) = h (g r)" "\<And>r. sr_id (g r) = sr_id r" for f g h e
    using that by (auto simp: set_schedule_def update_where_def)
  then show "topped_up t' u anchor n [] td (topped_up t u anchor n ids td d)
      = set_schedule u (\<lambda>r. r\<lparr>sr_updated_at := t'\<rparr>) (topped_up t u anchor n ids td d)"
    by (simp add: topped_up_def refreshed_def next_run_date_cong [OF update_sel(1)] next_run_row_def)
qed

end
