(* ===== verification/Lifecycle.thy ===== *)
theory Lifecycle
  imports Horizon
begin

text \<open>
  The life of the whole database as a step relation: one step is one committed action, one
  schedule topped up by the nightly job, one schedule created, or one statement of the
  dispatcher. The invariants, each kept by every step, are what the service promises of the
  state between requests: a paused or canceled schedule has nothing upcoming and no next run, the
  event log replays to the status of every schedule, settled occurrences and canceled schedules
  never change.
\<close>

section \<open>Steps\<close>

definition created_event :: "int \<Rightarrow> schedule_row \<Rightarrow> json \<Rightarrow> event_row" where
  "created_event t r body = \<lparr>er_id = 0, er_schedule_id = sr_id r, er_event_type = EventScheduleCreated,
     er_actor = ActorSystem, er_reason_code = None, er_payload = body,
     er_idempotency_key = None, er_created_at = t\<rparr>"

definition created_db :: "int \<Rightarrow> schedule_row \<Rightarrow> item_row list \<Rightarrow> json \<Rightarrow> db \<Rightarrow> db" where
  "created_db t r items body d = log_event (created_event t r body)
     (d\<lparr>db_schedules := db_schedules d @ [r], db_items := db_items d @ items\<rparr>)"

inductive step :: "world \<Rightarrow> int \<Rightarrow> db \<Rightarrow> db \<Rightarrow> bool" for W :: world and horizon :: int where
  step_pause: "locked W i ActionPause caller d u r \<Longrightarrow> step W horizon d (pause_db t u until caller d)"
| step_cancel: "locked W i ActionCancel caller d u r \<Longrightarrow> step W horizon d (cancel_db t u reason caller d)"
| step_arm: "locked W i ActionArm caller d u r \<Longrightarrow> next_planned u d = Some oc \<Longrightarrow>
    step W horizon d (arm_db t u oc caller d)"
| step_skip: "locked W i ActionSkipNext caller d u r \<Longrightarrow> skipped_to W horizon r t u key caller d d' \<Longrightarrow>
    step W horizon d d'"
| step_defer: "locked W i ActionDefer caller d u r \<Longrightarrow> deferred_to W r t u days key caller d d' \<Longrightarrow>
    step W horizon d d'"
| step_resume: "locked W i ActionResume caller d u r \<Longrightarrow> resumed_to W horizon r t u caller d d' \<Longrightarrow>
    step W horizon d d'"
| step_cadence: "locked W i ActionChangeCadence caller d u r \<Longrightarrow>
    rescheduled_to W horizon r t u days caller d d' \<Longrightarrow> step W horizon d d'"
| step_materialize: "schedule_at u SystemScope d = Some r \<Longrightarrow> sr_status r = ScheduleActive \<Longrightarrow>
    stored_ids W (missing u horizon td d) ids \<Longrightarrow>
    step W horizon d (topped_up t u (date_of_day (sr_anchor_date r)) (sr_interval_days r) ids td d)"
| step_create: "sr_status r = ScheduleActive \<Longrightarrow> \<not> schedule_exists d (sr_id r) \<Longrightarrow>
    step W horizon d (created_db t r items body d)"
| step_claim: "q_claim types timeout limit now d = Inr (es, d') \<Longrightarrow> step W horizon d d'"
| step_mark_sent: "q_mark_sent k sent_at now d = Inr (n, d') \<Longrightarrow> step W horizon d d'"
| step_mark_failed: "q_mark_failed k msg cap now d = Inr (n, d') \<Longrightarrow> step W horizon d d'"

section \<open>Invariants\<close>

text \<open>A stopped schedule shows nothing upcoming.\<close>

definition quiet :: "db \<Rightarrow> schedule_row \<Rightarrow> bool" where
  "quiet d r = (sr_next_run_date r = None
     \<and> (\<forall>oc \<in> set (db_occurrences d). or_schedule_id oc = sr_id r \<longrightarrow> \<not> unexecuted oc))"

definition stopped_are_quiet :: "db \<Rightarrow> bool" where
  "stopped_are_quiet d = (\<forall>r \<in> set (db_schedules d).
     sr_status r = SchedulePaused \<or> sr_status r = ScheduleCanceled \<longrightarrow> quiet d r)"

text \<open>Replaying the log of a schedule gives its status.\<close>

fun status_after :: "event_type \<Rightarrow> schedule_status option \<Rightarrow> schedule_status option" where
  "status_after EventScheduleCreated st = Some ScheduleActive"
| "status_after EventSchedulePaused st = Some SchedulePaused"
| "status_after EventScheduleResumed st = Some ScheduleActive"
| "status_after EventScheduleCanceled st = Some ScheduleCanceled"
| "status_after _ st = st"

definition replay :: "string \<Rightarrow> event_row list \<Rightarrow> schedule_status option" where
  "replay u es = fold (\<lambda>e st. if er_schedule_id e = u then status_after (er_event_type e) st else st) es None"

definition log_agrees :: "db \<Rightarrow> bool" where
  "log_agrees d = (\<forall>r \<in> set (db_schedules d). replay (sr_id r) (db_events d) = Some (sr_status r))"

text \<open>No schedule is ever in the failed status: nothing in this program sets it.\<close>

definition never_failed :: "db \<Rightarrow> bool" where
  "never_failed d = (\<forall>r \<in> set (db_schedules d). sr_status r \<noteq> ScheduleFailed)"

section \<open>The pieces of a step\<close>

lemma ball_update_where [simp]:
  "(\<forall>r \<in> set (update_where p f rs). P r) = (\<forall>r \<in> set rs. P (if p r then f r else r))"
  by (auto simp: set_update_where)

definition active_in :: "string \<Rightarrow> db \<Rightarrow> bool" where
  "active_in u d = (\<forall>r \<in> set (db_schedules d). sr_id r = u \<longrightarrow> sr_status r = ScheduleActive)"

lemma active_in_update [simp]:
  "active_in u (set_occurrences p f d) = active_in u d" "active_in u (log_event e d) = active_in u d"
  "active_in u (add_occurrence oc d) = active_in u d"
  "active_in u (plant t v anchor n ids seq cursor d) = active_in u d"
  by (simp_all add: active_in_def)

lemma active_in_set_schedule [simp]:
  "(\<And>r. sr_id (f r) = sr_id r) \<Longrightarrow> (\<And>r. sr_status (f r) = sr_status r) \<Longrightarrow>
   active_in u (set_schedule v f d) = active_in u d"
  by (auto simp: active_in_def)

lemma quiet_log [simp]: "stopped_are_quiet (log_event e d) = stopped_are_quiet d"
  by (simp add: stopped_are_quiet_def quiet_def)

lemma quiet_set_schedule:
  assumes "stopped_are_quiet d" "active_in u d" "\<And>r. sr_id (f r) = sr_id r" "\<And>r. sr_status (f r) = sr_status r"
  shows "stopped_are_quiet (set_schedule u f d)"
  using assms by (auto simp: stopped_are_quiet_def quiet_def active_in_def)

lemma quiet_set_occurrences:
  assumes q: "stopped_are_quiet d" and a: "active_in u d" and "\<And>oc. or_schedule_id (f oc) = or_schedule_id oc"
    and p: "\<And>oc. oc \<in> set (db_occurrences d) \<Longrightarrow> p oc \<Longrightarrow> or_schedule_id oc = u"
  shows "stopped_are_quiet (set_occurrences p f d)"
  unfolding stopped_are_quiet_def
proof (intro ballI impI)
  fix r
  assume r: "r \<in> set (db_schedules (set_occurrences p f d))"
    "sr_status r = SchedulePaused \<or> sr_status r = ScheduleCanceled"
  then have "quiet d r" "sr_id r \<noteq> u" using q a by (auto simp: stopped_are_quiet_def active_in_def)
  then show "quiet (set_occurrences p f d) r"
    using p by (auto simp: quiet_def assms(3))
qed

lemma quiet_add_occurrence:
  assumes "stopped_are_quiet d" "active_in (or_schedule_id oc) d"
  shows "stopped_are_quiet (add_occurrence oc d)"
  using assms by (auto simp: stopped_are_quiet_def quiet_def active_in_def)

lemma quiet_plant:
  "stopped_are_quiet d \<Longrightarrow> active_in u d \<Longrightarrow> stopped_are_quiet (plant t u anchor n ids seq cursor d)"
  by (induction t u anchor n ids seq cursor d rule: plant.induct)
    (auto simp: quiet_add_occurrence split: sum.splits)

lemma quiet_topped_up:
  "stopped_are_quiet d \<Longrightarrow> active_in u d \<Longrightarrow> stopped_are_quiet (topped_up t u anchor n ids td d)"
  by (auto simp: topped_up_def refreshed_def intro!: quiet_set_schedule quiet_plant)

lemma stopped_sel [simp]:
  "db_schedules (stopped t u st until d) =
     update_where (\<lambda>r. sr_id r = u) (\<lambda>r. next_run_row None t (status_row st until t r)) (db_schedules d)"
  "db_occurrences (stopped t u st until d) =
     update_where (upcoming u) (ostatus_row OccurrenceCanceled t) (db_occurrences d)"
  "db_events (stopped t u st until d) = db_events d"
  by (simp_all add: stopped_def update_where_def)

lemma quiet_stopped:
  assumes "db_wf d" "stopped_are_quiet d" "st = SchedulePaused \<or> st = ScheduleCanceled"
  shows "stopped_are_quiet (stopped t u st until d)"
proof -
  have reached: "upcoming u oc" if "oc \<in> set (db_occurrences d)" "or_schedule_id oc = u" "unexecuted oc" for oc
    using assms(1) that
    by (auto simp: upcoming_def cancelable_def unexecuted_def db_wf_def occurrence_checks_def)
  have settled: "\<not> unexecuted (ostatus_row OccurrenceCanceled t oc)" for oc
    by (simp add: unexecuted_def)
  have others: "or_schedule_id oc = u" if "upcoming u oc" for oc
    using that by (simp add: upcoming_def cancelable_def)
  have "quiet (stopped t u st until d) (next_run_row None t (status_row st until t r))" if "sr_id r = u" for r
    using that reached by (auto simp: quiet_def settled)
  moreover have "quiet (stopped t u st until d) r" if "r \<in> set (db_schedules d)" "sr_id r \<noteq> u"
      "sr_status r = SchedulePaused \<or> sr_status r = ScheduleCanceled" for r
  proof -
    have "quiet d r" using that assms(2) unfolding stopped_are_quiet_def by blast
    then show ?thesis using that(2) others by (auto simp: quiet_def)
  qed
  ultimately show ?thesis by (auto simp: stopped_are_quiet_def)
qed

section \<open>The log\<close>

lemma replay_log:
  "replay u (es @ [e]) = (if er_schedule_id e = u then status_after (er_event_type e) (replay u es) else replay u es)"
  by (simp add: replay_def)

lemma event_of_sel [simp]:
  "er_schedule_id (event_of t u e) = u" "er_event_type (event_of t u e) = e_event_type e"
  by (simp_all add: event_of_def)

lemma replay_plant [simp]: "replay v (db_events (plant t u anchor n ids seq cursor d)) = replay v (db_events d)"
  by (induction t u anchor n ids seq cursor d rule: plant.induct)
    (auto simp: replay_log materialized_event_def split: sum.splits)

lemma log_agrees_set_schedule:
  assumes "\<And>r. sr_id (f r) = sr_id r" "\<And>r. sr_status (f r) = sr_status r"
  shows "log_agrees (set_schedule u f d) = log_agrees d"
  using assms by (auto simp: log_agrees_def)

lemma log_agrees_plant [simp]: "log_agrees (plant t u anchor n ids seq cursor d) = log_agrees d"
  by (simp add: log_agrees_def)

lemma log_agrees_topped_up [simp]: "log_agrees (topped_up t u anchor n ids td d) = log_agrees d"
  by (simp add: topped_up_def refreshed_def log_agrees_set_schedule)

section \<open>Every step keeps the invariant\<close>

lemma locked_row:
  assumes "locked W i a caller d u r"
  shows "r \<in> set (db_schedules d)" "sr_id r = u" "accepts a (sr_status r)" "w_uuid_in W i = Some u"
  using assms schedule_atD by (auto simp: locked_def)

lemma same_row:
  "db_wf d \<Longrightarrow> r \<in> set (db_schedules d) \<Longrightarrow> r' \<in> set (db_schedules d) \<Longrightarrow> sr_id r = sr_id r' \<Longrightarrow> r = r'"
  by (auto simp: db_wf_def dest: unique_by_key)

lemma active_inI:
  "db_wf d \<Longrightarrow> r \<in> set (db_schedules d) \<Longrightarrow> sr_id r = u \<Longrightarrow> sr_status r = ScheduleActive \<Longrightarrow> active_in u d"
  using same_row unfolding active_in_def by metis

lemma locked_active_in:
  assumes "db_wf d" "locked W i a caller d u r" and "\<And>st. accepts a st \<Longrightarrow> st = ScheduleActive"
  shows "active_in u d"
  using active_inI [OF assms(1)] locked_row [OF assms(2)] assms(3) by blast

lemma same_occurrence:
  "db_wf d \<Longrightarrow> oc \<in> set (db_occurrences d) \<Longrightarrow> oc' \<in> set (db_occurrences d) \<Longrightarrow> or_id oc = or_id oc' \<Longrightarrow> oc = oc'"
  by (auto simp: db_wf_def dest: unique_by_key)

lemma log_agrees_stopped:
  assumes "log_agrees d" and "e_event_type e = EventSchedulePaused \<and> st = SchedulePaused
    \<or> e_event_type e = EventScheduleCanceled \<and> st = ScheduleCanceled"
  shows "log_agrees (log_event (event_of t u e) (stopped t u st until d))"
  using assms by (auto simp: log_agrees_def replay_log)

lemma log_agrees_other:
  assumes "log_agrees d" and "\<And>st. status_after (er_event_type e) st = st"
  shows "log_agrees (log_event e d)"
  using assms by (auto simp: log_agrees_def replay_log)

lemma log_agrees_occurrences [simp]: "log_agrees (set_occurrences p f d) = log_agrees d"
  by (simp add: log_agrees_def)

lemma service_event_type [simp]: "er_event_type (event_of t u (service_event v ty caller key reason body)) = ty"
  by (simp add: event_of_def service_event_def)

lemma log_agrees_resumed:
  "log_agrees d \<Longrightarrow> log_agrees (resumed_db t r u td caller d)"
  by (auto simp: resumed_db_def log_agrees_def replay_log)

lemma never_failed_sel [simp]:
  "never_failed (log_event e d) = never_failed d" "never_failed (set_occurrences p f d) = never_failed d"
  "never_failed (plant t u anchor n ids seq cursor d) = never_failed d"
  by (simp_all add: never_failed_def)

lemma never_failed_set_schedule:
  assumes "never_failed d" "\<And>r. sr_status r \<noteq> ScheduleFailed \<Longrightarrow> sr_status (f r) \<noteq> ScheduleFailed"
  shows "never_failed (set_schedule u f d)"
  using assms by (auto simp: never_failed_def)

lemma never_failed_topped_up: "never_failed d \<Longrightarrow> never_failed (topped_up t u anchor n ids td d)"
  by (simp add: topped_up_def refreshed_def never_failed_set_schedule)

lemma quiet_pause: "db_wf d \<Longrightarrow> stopped_are_quiet d \<Longrightarrow> stopped_are_quiet (pause_db t u until caller d)"
  by (simp add: pause_db_def quiet_stopped)

lemma quiet_cancel: "db_wf d \<Longrightarrow> stopped_are_quiet d \<Longrightarrow> stopped_are_quiet (cancel_db t u reason caller d)"
  by (simp add: cancel_db_def quiet_stopped)

text \<open>An update of the row found for schedule u touches only rows of u.\<close>

lemma quiet_update_found:
  assumes "db_wf d" "stopped_are_quiet d" "active_in u d" and oc: "oc \<in> set (db_occurrences d)" "or_schedule_id oc = u"
    and f: "\<And>oc. or_schedule_id (f oc) = or_schedule_id oc" and p: "\<And>oc'. p oc' \<Longrightarrow> or_id oc' = or_id oc"
  shows "stopped_are_quiet (set_occurrences p f d)"
proof (rule quiet_set_occurrences [OF assms(2,3) f])
  fix oc' assume "oc' \<in> set (db_occurrences d)" "p oc'"
  then have "oc' = oc" using p oc same_occurrence [OF assms(1)] by blast
  then show "or_schedule_id oc' = u" using oc by simp
qed

lemma quiet_arm:
  assumes "db_wf d" "stopped_are_quiet d" "active_in u d" "next_planned u d = Some oc"
  shows "stopped_are_quiet (arm_db t u oc caller d)"
  using assms next_rowD(1) [OF assms(4)]
  by (auto simp: arm_db_def set_occurrence_def intro!: quiet_update_found [where oc = oc and u = u])

lemma quiet_skipped:
  assumes "db_wf d" "stopped_are_quiet d" "active_in u d" "next_unexecuted u d = Some oc"
  shows "stopped_are_quiet (skipped_db t u oc key caller d)"
  using assms next_rowD(2) [OF assms(4)]
  by (auto simp: skipped_db_def set_occurrence_def intro!: quiet_update_found [where oc = oc and u = u])

lemma quiet_deferred:
  assumes "db_wf d" "stopped_are_quiet d" "active_in u d" "next_unexecuted u d = Some oc"
  shows "stopped_are_quiet (defer_db t u oc days key caller d)"
  using assms next_rowD(2) [OF assms(4)]
  by (auto simp: defer_db_def intro!: quiet_update_found [where oc = oc and u = u])

lemma active_in_pieces [simp]:
  "active_in v (arm_db t u oc caller d) = active_in v d"
  "active_in v (skipped_db t u oc key caller d) = active_in v d"
  "active_in v (defer_db t u oc days key caller d) = active_in v d"
  by (simp_all add: arm_db_def skipped_db_def defer_db_def set_occurrence_def)

lemma log_agrees_pieces [simp]:
  assumes "log_agrees d"
  shows "log_agrees (arm_db t u oc caller d)" "log_agrees (skipped_db t u oc key caller d)"
    "log_agrees (defer_db t u oc days key caller d)"
  using assms by (auto simp: arm_db_def skipped_db_def defer_db_def set_occurrence_def intro!: log_agrees_other)

lemma never_failed_pieces [simp]:
  "never_failed (arm_db t u oc caller d) = never_failed d"
  "never_failed (skipped_db t u oc key caller d) = never_failed d"
  "never_failed (defer_db t u oc days key caller d) = never_failed d"
  by (simp_all add: arm_db_def skipped_db_def defer_db_def set_occurrence_def)

lemma quiet_rows:
  assumes "stopped_are_quiet d" "\<And>r. sr_id (f r) = sr_id r" "\<And>r. sr_status (f r) = sr_status r"
    and "\<And>r. sr_next_run_date r = None \<Longrightarrow> sr_next_run_date (f r) = None"
  shows "stopped_are_quiet (set_schedule u f d)"
  using assms by (auto simp: stopped_are_quiet_def quiet_def)

lemma quiet_activated:
  assumes "stopped_are_quiet d" "\<And>r. sr_id (f r) = sr_id r" "\<And>r. sr_status (f r) = ScheduleActive"
  shows "stopped_are_quiet (set_schedule u f d)"
  using assms by (auto simp: stopped_are_quiet_def quiet_def)

lemma quiet_settling:
  assumes "stopped_are_quiet d" "\<And>oc. or_schedule_id (f oc) = or_schedule_id oc" "\<And>oc. \<not> unexecuted (f oc)"
  shows "stopped_are_quiet (set_occurrences p f d)"
  using assms by (auto simp: stopped_are_quiet_def quiet_def)

lemma quiet_resumed:
  shows "stopped_are_quiet d \<Longrightarrow> stopped_are_quiet (resumed_db t r u td caller d)"
    and "active_in u (resumed_db t r u td caller d)"
    and "never_failed d \<Longrightarrow> never_failed (resumed_db t r u td caller d)"
proof -
  show "stopped_are_quiet (resumed_db t r u td caller d)" if "stopped_are_quiet d"
    unfolding resumed_db_def quiet_log by (rule quiet_rows, rule quiet_activated [OF that]) simp_all
qed (auto simp: resumed_db_def active_in_def intro!: never_failed_set_schedule)

lemma quiet_rescheduled:
  shows "stopped_are_quiet d \<Longrightarrow> stopped_are_quiet (rescheduled_db t r u days anchor caller d)"
    and "active_in v (rescheduled_db t r u days anchor caller d) = active_in v d"
    and "log_agrees d \<Longrightarrow> log_agrees (rescheduled_db t r u days anchor caller d)"
    and "never_failed d \<Longrightarrow> never_failed (rescheduled_db t r u days anchor caller d)"
  by (auto simp: rescheduled_db_def unexecuted_def log_agrees_set_schedule
      intro!: quiet_settling quiet_rows log_agrees_other never_failed_set_schedule)

lemma invariant_created:
  assumes "stopped_are_quiet d" "log_agrees d" "never_failed d" "db_wf d"
    and r: "sr_status r = ScheduleActive" "\<not> schedule_exists d (sr_id r)"
  shows "stopped_are_quiet (created_db t r items body d)" and "log_agrees (created_db t r items body d)"
    and "never_failed (created_db t r items body d)"
proof -
  have other: "sr_id r' \<noteq> sr_id r" if "r' \<in> set (db_schedules d)" for r'
    using that r(2) by (metis image_eqI list.set_map schedule_exists_def)
  show "stopped_are_quiet (created_db t r items body d)" "log_agrees (created_db t r items body d)"
    "never_failed (created_db t r items body d)"
    using assms other other [THEN not_sym]
    by (auto simp: created_db_def created_event_def stopped_are_quiet_def quiet_def log_agrees_def
        replay_log never_failed_def)
qed

lemma invariant_same:
  assumes "stopped_are_quiet d \<and> log_agrees d \<and> never_failed d"
    and "db_schedules d' = db_schedules d \<and> db_occurrences d' = db_occurrences d \<and> db_events d' = db_events d"
  shows "stopped_are_quiet d' \<and> log_agrees d' \<and> never_failed d'"
  using assms by (simp add: stopped_are_quiet_def quiet_def log_agrees_def never_failed_def)

lemma notifications_only:
  "q_claim types timeout limit now d = Inr (es, d') \<Longrightarrow>
     db_schedules d' = db_schedules d \<and> db_occurrences d' = db_occurrences d \<and> db_events d' = db_events d"
  "q_mark_sent k sent_at now d = Inr (n, d') \<Longrightarrow>
     db_schedules d' = db_schedules d \<and> db_occurrences d' = db_occurrences d \<and> db_events d' = db_events d"
  "q_mark_failed k msg cap now d = Inr (n, d') \<Longrightarrow>
     db_schedules d' = db_schedules d \<and> db_occurrences d' = db_occurrences d \<and> db_events d' = db_events d"
  by (auto simp: q_claim_def q_mark_sent_def q_mark_failed_def Let_def)

lemma stopping_keeps:
  assumes "db_wf d" and "stopped_are_quiet d \<and> log_agrees d \<and> never_failed d"
  shows "stopped_are_quiet (pause_db t u until caller d) \<and> log_agrees (pause_db t u until caller d)
      \<and> never_failed (pause_db t u until caller d)"
    and "stopped_are_quiet (cancel_db t u reason caller d) \<and> log_agrees (cancel_db t u reason caller d)
      \<and> never_failed (cancel_db t u reason caller d)"
  using assms
  by (auto simp: quiet_pause quiet_cancel)
    (auto simp: pause_db_def cancel_db_def service_event_def never_failed_def intro!: log_agrees_stopped)

lemma step_keeps:
  assumes "step W horizon d d'" and wf: "db_wf d"
    and inv: "stopped_are_quiet d \<and> log_agrees d \<and> never_failed d"
  shows "stopped_are_quiet d' \<and> log_agrees d' \<and> never_failed d'"
  using assms(1)
proof cases
  case (step_arm i caller u r oc t)
  then have "active_in u d" using wf by (auto elim!: locked_active_in)
  then show ?thesis using step_arm wf inv by (auto intro: quiet_arm)
next
  case (step_skip i caller u r t key)
  then have "active_in u d" using wf by (auto elim!: locked_active_in)
  then show ?thesis using step_skip(2) wf inv
    by (auto simp: skipped_to_def Let_def quiet_skipped quiet_topped_up never_failed_topped_up split: if_splits)
next
  case (step_defer i caller u r t days key)
  then have "active_in u d" using wf by (auto elim!: locked_active_in)
  then show ?thesis using step_defer(2) wf inv
    by (auto simp: deferred_to_def refreshed_def log_agrees_set_schedule split: if_splits
        intro!: quiet_set_schedule quiet_deferred never_failed_set_schedule)
next
  case (step_resume i caller u r t)
  then show ?thesis using inv
    by (auto simp: resumed_to_def Let_def quiet_resumed quiet_topped_up log_agrees_resumed never_failed_topped_up)
next
  case (step_cadence i caller u r t days)
  have "sr_status r = ScheduleActive \<Longrightarrow> active_in u d" using locked_row(1,2) [OF step_cadence(1)] by (simp add: active_inI [OF wf])
  then show ?thesis using step_cadence(2) inv
    by (auto simp: rescheduled_to_def Let_def quiet_rescheduled quiet_topped_up never_failed_topped_up
        log_agrees_set_schedule split: if_splits intro!: quiet_rows never_failed_set_schedule)
next
  case (step_materialize u r td ids t)
  have "active_in u d"
    using schedule_atD [OF step_materialize(2)] step_materialize(3) by (auto intro: active_inI [OF wf])
  then show ?thesis using step_materialize inv by (simp add: quiet_topped_up never_failed_topped_up)
next
  case (step_create r t items body)
  then show ?thesis using invariant_created wf inv by auto
next
  case (step_claim types timeout limit now es)
  then show ?thesis by (rule invariant_same [OF inv notifications_only(1)])
next
  case (step_mark_sent k sent_at now n)
  then show ?thesis by (rule invariant_same [OF inv notifications_only(2)])
next
  case (step_mark_failed k msg cap now n)
  then show ?thesis by (rule invariant_same [OF inv notifications_only(3)])
qed (simp_all add: stopping_keeps [OF wf inv])

section \<open>Identifiers, settled occurrences, canceled schedules\<close>

lemma canonical_db_update [simp]:
  "canonical_db W (set_schedule u f d) = canonical_db W d" "canonical_db W (log_event e d) = canonical_db W d"
  by (simp_all add: canonical_db_def)

lemma canonical_db_occurrences: "(\<And>oc. or_id (f oc) = or_id oc) \<Longrightarrow> canonical_db W d \<Longrightarrow> canonical_db W (set_occurrences p f d)"
  by (auto simp: canonical_db_def)

lemma canonical_db_plant:
  "canonical_db W d \<Longrightarrow> \<forall>i \<in> set ids. w_uuid_in W i = Some i \<Longrightarrow>
   canonical_db W (plant t u anchor n ids seq cursor d)"
  by (induction t u anchor n ids seq cursor d rule: plant.induct)
    (auto simp: canonical_db_def split: sum.splits)

lemma canonical_db_topped_up:
  "canonical_db W d \<Longrightarrow> stored_ids W k ids \<Longrightarrow> canonical_db W (topped_up t u anchor n ids td d)"
  by (simp add: topped_up_def refreshed_def stored_ids_def canonical_db_plant)

lemma canonical_db_same: "db_occurrences d' = db_occurrences d \<Longrightarrow> canonical_db W d' = canonical_db W d"
  by (simp add: canonical_db_def)

lemmas effect_defs = pause_db_def cancel_db_def stopped_def arm_db_def skipped_db_def defer_db_def
  resumed_db_def rescheduled_db_def created_db_def set_occurrence_def refreshed_def

lemma step_canonical:
  assumes "step W horizon d d'" "canonical_db W d"
  shows "canonical_db W d'"
  using assms
proof cases
  case (step_claim types timeout limit now es)
  then show ?thesis using assms(2) notifications_only(1) canonical_db_same by blast
next
  case (step_mark_sent k sent_at now n)
  then show ?thesis using assms(2) notifications_only(2) canonical_db_same by blast
next
  case (step_mark_failed k msg cap now n)
  then show ?thesis using assms(2) notifications_only(3) canonical_db_same by blast
next
  case (step_create r t items body)
  then show ?thesis using assms(2) by (simp add: created_db_def canonical_db_def)
qed (auto simp: effect_defs skipped_to_def deferred_to_def resumed_to_def rescheduled_to_def Let_def
    split: if_splits intro!: canonical_db_occurrences elim!: canonical_db_topped_up [rotated])

text \<open>Once an occurrence is settled, its row never changes.\<close>

definition keeps_settled :: "db \<Rightarrow> db \<Rightarrow> bool" where
  "keeps_settled d d' = (\<forall>oc \<in> set (db_occurrences d). \<not> unexecuted oc \<longrightarrow> oc \<in> set (db_occurrences d'))"

lemma keeps_settled_trans: "keeps_settled d1 d2 \<Longrightarrow> keeps_settled d2 d3 \<Longrightarrow> keeps_settled d1 d3"
  unfolding keeps_settled_def by blast

lemma keeps_settled_update [simp]:
  "keeps_settled d (set_schedule u f d') = keeps_settled d d'" "keeps_settled d (log_event e d') = keeps_settled d d'"
  by (simp_all add: keeps_settled_def)

lemma keeps_settled_refl [simp]: "keeps_settled d d"
  by (simp add: keeps_settled_def)

lemma keeps_settled_occurrences:
  assumes "keeps_settled d d'" "\<And>oc. oc \<in> set (db_occurrences d') \<Longrightarrow> p oc \<Longrightarrow> unexecuted oc"
  shows "keeps_settled d (set_occurrences p f d')"
  using assms by (force simp: keeps_settled_def set_update_where)

lemma plant_occurrences: "set (db_occurrences d) \<subseteq> set (db_occurrences (plant t u anchor n ids seq cursor d))"
  by (induction t u anchor n ids seq cursor d rule: plant.induct) (auto split: sum.splits)

lemma keeps_settled_topped_up: "keeps_settled d d' \<Longrightarrow> keeps_settled d (topped_up t u anchor n ids td d')"
  using plant_occurrences by (fastforce simp: topped_up_def refreshed_def keeps_settled_def)

lemma keeps_settled_found:
  assumes "db_wf d" "oc \<in> set (db_occurrences d)" "unexecuted oc"
  shows "keeps_settled d (set_occurrence oc f d)"
  unfolding set_occurrence_def
proof (rule keeps_settled_occurrences [OF keeps_settled_refl])
  fix oc' assume "oc' \<in> set (db_occurrences d)" "or_id oc' = or_id oc \<and> or_order_id oc' = None"
  then show "unexecuted oc'" using same_occurrence [OF assms(1)] assms(2,3) by metis
qed

lemma cancelable_unexecuted:
  "cancelable u [OccurrencePlanned, OccurrencePending] oc \<Longrightarrow> unexecuted oc"
  "cancelable u [OccurrencePlanned] oc \<Longrightarrow> unexecuted oc"
  by (auto simp: cancelable_def unexecuted_def)

lemma planned_unexecuted: "planned oc \<Longrightarrow> unexecuted oc"
  by (simp add: planned_def unexecuted_def)

lemma rescheduled_settled: "keeps_settled d (rescheduled_db t r u days anchor caller d)"
  by (auto simp: rescheduled_db_def dest: cancelable_unexecuted intro!: keeps_settled_occurrences)

lemma step_settled:
  assumes "step W horizon d d'" and wf: "db_wf d"
  shows "keeps_settled d d'"
  using assms(1)
proof cases
  case (step_arm i caller u r oc t)
  then show ?thesis
    using next_rowD(1) [OF step_arm(3)] by (simp add: arm_db_def keeps_settled_found [OF wf] planned_unexecuted)
next
  case (step_skip i caller u r t key)
  then show ?thesis
    using next_rowD(2) keeps_settled_found [OF wf]
    by (fastforce simp: skipped_to_def skipped_db_def Let_def split: if_splits intro: keeps_settled_topped_up)
next
  case (step_cadence i caller u r t days)
  then show ?thesis
    by (auto simp: rescheduled_to_def Let_def split: if_splits intro!: keeps_settled_topped_up rescheduled_settled)
next
  case (step_claim types timeout limit now es)
  then show ?thesis using notifications_only(1) by (simp add: keeps_settled_def)
next
  case (step_mark_sent k sent_at now n)
  then show ?thesis using notifications_only(2) by (simp add: keeps_settled_def)
next
  case (step_mark_failed k msg cap now n)
  then show ?thesis using notifications_only(3) by (simp add: keeps_settled_def)
next
  case (step_create r t items body)
  then show ?thesis by (simp add: created_db_def keeps_settled_def)
qed (auto simp: effect_defs upcoming_def deferred_to_def resumed_to_def Let_def
    dest: cancelable_unexecuted split: if_splits intro!: keeps_settled_topped_up keeps_settled_occurrences)

text \<open>A canceled schedule stays as it was canceled.\<close>

definition keeps_canceled :: "db \<Rightarrow> db \<Rightarrow> bool" where
  "keeps_canceled d d' = (\<forall>r \<in> set (db_schedules d). sr_status r = ScheduleCanceled \<longrightarrow> r \<in> set (db_schedules d'))"

lemma keeps_canceled_update [simp]:
  "keeps_canceled d (set_occurrences p f d') = keeps_canceled d d'"
  "keeps_canceled d (log_event e d') = keeps_canceled d d'"
  "keeps_canceled d (plant t u anchor n ids seq cursor d') = keeps_canceled d d'" "keeps_canceled d d"
  by (simp_all add: keeps_canceled_def)

lemma keeps_canceled_set_schedule:
  assumes "keeps_canceled d d'" "\<And>r. r \<in> set (db_schedules d) \<Longrightarrow> sr_id r = u \<Longrightarrow> sr_status r \<noteq> ScheduleCanceled"
  shows "keeps_canceled d (set_schedule u f d')"
  using assms by (force simp: keeps_canceled_def set_update_where)

lemma keeps_canceled_topped_up:
  assumes "keeps_canceled d d'" "\<And>r. r \<in> set (db_schedules d) \<Longrightarrow> sr_id r = u \<Longrightarrow> sr_status r \<noteq> ScheduleCanceled"
  shows "keeps_canceled d (topped_up t u anchor n ids td d')"
  using assms by (auto simp: topped_up_def refreshed_def intro!: keeps_canceled_set_schedule)

lemma locked_not_canceled:
  assumes "db_wf d" "locked W i a caller d u r" "r' \<in> set (db_schedules d)" "sr_id r' = u"
  shows "sr_status r' \<noteq> ScheduleCanceled"
proof -
  have "r' = r" using same_row [OF assms(1,3)] locked_row(1,2) [OF assms(2)] assms(4) by metis
  then show ?thesis using locked_row(3) [OF assms(2)] by (cases a) auto
qed

lemma step_canceled:
  assumes "step W horizon d d'" and wf: "db_wf d"
  shows "keeps_canceled d d'"
  using assms(1)
proof cases
  case (step_materialize u r td ids t)
  have "sr_status r' \<noteq> ScheduleCanceled" if "r' \<in> set (db_schedules d)" "sr_id r' = u" for r'
    using same_row [OF wf that(1), of r] schedule_atD [OF step_materialize(2)] step_materialize(3) that(2) by auto
  then show ?thesis using step_materialize by (auto intro: keeps_canceled_topped_up)
next
  case (step_claim types timeout limit now es)
  then show ?thesis using notifications_only(1) by (simp add: keeps_canceled_def)
next
  case (step_mark_sent k sent_at now n)
  then show ?thesis using notifications_only(2) by (simp add: keeps_canceled_def)
next
  case (step_mark_failed k msg cap now n)
  then show ?thesis using notifications_only(3) by (simp add: keeps_canceled_def)
next
  case (step_create r t items body)
  then show ?thesis by (simp add: created_db_def keeps_canceled_def)
qed (auto simp: effect_defs skipped_to_def deferred_to_def resumed_to_def rescheduled_to_def Let_def
    dest: locked_not_canceled [OF wf] split: if_splits
    intro!: keeps_canceled_topped_up keeps_canceled_set_schedule)

section \<open>The invariant of the service\<close>

definition invariant :: "world \<Rightarrow> db \<Rightarrow> bool" where
  "invariant W d = (db_wf d \<and> canonical_db W d \<and> stopped_are_quiet d \<and> log_agrees d \<and> never_failed d)"

lemma invariant_empty: "invariant W empty_db"
  by (simp add: invariant_def db_wf_empty)
    (simp add: empty_db_def canonical_db_def stopped_are_quiet_def log_agrees_def never_failed_def)

lemma step_invariant: "step W horizon d d' \<Longrightarrow> invariant W d \<Longrightarrow> db_wf d' \<Longrightarrow> invariant W d'"
  using step_keeps step_canonical by (auto simp: invariant_def)

text \<open>Any number of steps whose rows the server accepted.\<close>

inductive served :: "world \<Rightarrow> int \<Rightarrow> db \<Rightarrow> db \<Rightarrow> bool" for W :: world and horizon :: int where
  served_refl: "served W horizon d d"
| served_step: "served W horizon d d' \<Longrightarrow> step W horizon d' d'' \<Longrightarrow> (db_wf d' \<longrightarrow> db_wf d'') \<Longrightarrow>
    served W horizon d d''"

lemma served_trans: "served W horizon d2 d3 \<Longrightarrow> served W horizon d1 d2 \<Longrightarrow> served W horizon d1 d3"
  by (induction rule: served.induct) (auto intro: served_step)

lemma served_invariant: "served W horizon d d' \<Longrightarrow> invariant W d \<Longrightarrow> invariant W d'"
proof (induction rule: served.induct)
  case (served_step d d' d'')
  then have "invariant W d'" by simp
  with served_step show ?case by (auto intro: step_invariant simp: invariant_def [of W d'])
qed simp

lemma served_wf: "served W horizon d d' \<Longrightarrow> db_wf d \<Longrightarrow> db_wf d'"
  by (induction rule: served.induct) auto

lemma served_settled: "served W horizon d d' \<Longrightarrow> db_wf d \<Longrightarrow> keeps_settled d d'"
  by (induction rule: served.induct) (auto intro: keeps_settled_trans step_settled served_wf)

lemma served_canceled: "served W horizon d d' \<Longrightarrow> db_wf d \<Longrightarrow> keeps_canceled d d'"
proof (induction rule: served.induct)
  case (served_step d d' d'')
  then have "keeps_canceled d' d''" by (auto intro: step_canceled served_wf)
  with served_step show ?case unfolding keeps_canceled_def by blast
qed simp

end
