(* ===== verification/Mail.thy ===== *)
theory Mail
  imports Store_Laws Decode
begin

text \<open>
  \<open>internal/notify/render.go\<close> and its templates: the data a template sees, the snapshot an event
  carries, and the five mails as functions of that data, with the escaping \<open>html/template\<close>
  applies to every inserted value (all insertions are in text position). Also the request and
  the reply handling of \<open>postmark.go\<close> around an HTTP client that is a parameter.
\<close>

section \<open>Template data\<close>

record templateData =
  td_IntervalDays :: int
  td_AnchorDate :: string
  td_NextOrderDate :: string
  td_Items :: "(string \<times> int) list"
  td_PausedUntil :: string
  td_ReasonText :: string
  td_SupportContact :: string
  td_ChargeDate :: string

definition cancellationReasonText :: "string \<Rightarrow> string" where
  "cancellationReasonText code =
    (case map_of
        [(''too_expensive'', ''too expensive''), (''too_frequent'', ''orders were too frequent''),
         (''switched_brand'', ''switched to another brand''), (''delivery_issue'', ''a delivery issue''),
         (''payment_issue'', ''a payment issue''), (''no_longer_wanted'', ''no longer wanted''),
         (''other'', '''')] code of
       None \<Rightarrow> '''' | Some t \<Rightarrow> t)"

section \<open>Event snapshots\<close>

text \<open>\<open>json.Unmarshal\<close> of a member into a string or an int that already has a value.\<close>

definition readString :: "(string \<times> json) list \<Rightarrow> string \<Rightarrow> string \<Rightarrow> go_error + string" where
  "readString snapshot key dst =
    (case map_of snapshot key of
       None \<Rightarrow> Inr dst
     | Some (JStr s) \<Rightarrow> Inr s
     | Some JNull \<Rightarrow> Inr dst
     | Some _ \<Rightarrow> Inl (Wrapped (''decode event snapshot field '' @ key @ '': '') (ErrText ''json'') ''''))"

definition readInt :: "(string \<times> json) list \<Rightarrow> string \<Rightarrow> int \<Rightarrow> go_error + int" where
  "readInt snapshot key dst =
    (case map_of snapshot key of
       None \<Rightarrow> Inr dst
     | Some (JNum n) \<Rightarrow> if int64 n then Inr n
         else Inl (Wrapped (''decode event snapshot field '' @ key @ '': '') (ErrText ''json'') '''')
     | Some JNull \<Rightarrow> Inr dst
     | Some _ \<Rightarrow> Inl (Wrapped (''decode event snapshot field '' @ key @ '': '') (ErrText ''json'') ''''))"

definition applyEventSnapshot :: "templateData \<Rightarrow> notifiable_event \<Rightarrow> go_error + templateData" where
  "applyEventSnapshot data e =
    (case n_payload e of
       JNull \<Rightarrow> Inr data
     | JObj [] \<Rightarrow> Inr data
     | JObj snapshot \<Rightarrow>
        (if n_event_type e = EventScheduleCreated \<or> n_event_type e = EventScheduleResumed then
           (case readInt snapshot ''interval_days'' (td_IntervalDays data) of
              Inl err \<Rightarrow> Inl err
            | Inr days \<Rightarrow>
               (case readString snapshot ''anchor_date'' (td_AnchorDate data) of
                  Inl err \<Rightarrow> Inl err
                | Inr anchor \<Rightarrow>
                   (case readString snapshot ''next_order_date'' (td_NextOrderDate data) of
                      Inl err \<Rightarrow> Inl err
                    | Inr next \<Rightarrow> Inr (data\<lparr>td_IntervalDays := days, td_AnchorDate := anchor,
                                          td_NextOrderDate := next\<rparr>))))
         else if n_event_type e = EventSchedulePaused then
           (case readString snapshot ''paused_until'' '''' of
              Inl err \<Rightarrow> Inl err
            | Inr until \<Rightarrow> Inr (data\<lparr>td_PausedUntil := until\<rparr>))
         else Inr data)
     | _ \<Rightarrow> Inl (Wrapped ''decode event snapshot: '' (ErrText ''json'') ''''))"

section \<open>Templates\<close>

fun escape_char :: "char \<Rightarrow> string" where
  "escape_char c =
    (if c = CHR 0x22 then ''&#34;'' else if c = CHR 0x26 then ''&amp;''
     else if c = CHR 0x27 then ''&#39;'' else if c = CHR 0x2B then ''&#43;''
     else if c = CHR 0x3C then ''&lt;'' else if c = CHR 0x3E then ''&gt;''
     else if c = CHR 0x00 then [CHR 0xEF, CHR 0xBF, CHR 0xBD] else [c])"

definition html_escape :: "string \<Rightarrow> string" where
  "html_escape s = concat (map escape_char s)"

definition lines :: "string list \<Rightarrow> string" where
  "lines ls = concat (map (\<lambda>l. CHR 0x0A # l) ls)"

definition item_lines :: "(string \<times> int) list \<Rightarrow> string" where
  "item_lines items = concat (map (\<lambda>(sku, q).
     ''<li>'' @ html_escape (dec_int q) @ '' &times; '' @ html_escape sku @ ''</li>'' @ [CHR 0x0A]) items)"

fun subject_of :: "event_type \<Rightarrow> string option" where
  "subject_of EventScheduleCreated = Some ''Your recurring order is set up''"
| "subject_of EventSchedulePaused = Some ''Your recurring order has been paused''"
| "subject_of EventScheduleResumed = Some ''Your recurring order has resumed''"
| "subject_of EventScheduleCanceled = Some ''Your recurring order has been canceled''"
| "subject_of EventOccurrenceArmed = Some ''Your next order is on its way to being placed''"
| "subject_of _ = None"

definition next_order_line :: "templateData \<Rightarrow> string" where
  "next_order_line t = (if td_NextOrderDate t = '''' then ''''
     else ''<p>Your next order is scheduled for '' @ html_escape (td_NextOrderDate t) @ ''.</p>'')"

definition schedule_created_body :: "templateData \<Rightarrow> string" where
  "schedule_created_body t = lines
     [''<p>Your recurring order has been set up.</p>'', ''<ul>'',
      item_lines (td_Items t) @ ''</ul>'',
      ''<p>Orders repeat every '' @ html_escape (dec_int (td_IntervalDays t)) @ '' days, starting from ''
        @ html_escape (td_AnchorDate t) @ ''.</p>'',
      next_order_line t,
      ''<p>You can pause, skip, defer, or cancel it any time from your account. Questions?'',
      ''Contact '' @ html_escape (td_SupportContact t) @ ''.</p>'', '''']"

definition schedule_paused_body :: "templateData \<Rightarrow> string" where
  "schedule_paused_body t = lines
     [''<p>Your recurring order has been paused. No further orders will be placed until it'',
      ''resumes.</p>'',
      (if td_PausedUntil t = '''' then ''<p>It will stay paused until you resume it.</p>''
       else ''<p>It'' @ [CHR 0x27] @ ''s scheduled to resume automatically on ''
         @ html_escape (td_PausedUntil t) @ ''.</p>''),
      ''<p>Questions? Contact '' @ html_escape (td_SupportContact t) @ ''.</p>'', '''']"

definition schedule_resumed_body :: "templateData \<Rightarrow> string" where
  "schedule_resumed_body t = lines
     [''<p>Your recurring order is active again, on a '' @ html_escape (dec_int (td_IntervalDays t))
        @ ''-day cadence starting'',
      ''from '' @ html_escape (td_AnchorDate t) @ ''.</p>'',
      next_order_line t,
      ''<p>Questions? Contact '' @ html_escape (td_SupportContact t) @ ''.</p>'', '''']"

definition schedule_canceled_body :: "templateData \<Rightarrow> string" where
  "schedule_canceled_body t = lines
     [''<p>Your recurring order has been canceled''
        @ (if td_ReasonText t = '''' then '''' else '' ('' @ html_escape (td_ReasonText t) @ '')'') @ ''.'',
      ''No further orders will be placed.</p>'',
      ''<p>Changed your mind? Contact '' @ html_escape (td_SupportContact t) @ '' to set up a new one.</p>'', '''']"

definition occurrence_armed_body :: "templateData \<Rightarrow> string" where
  "occurrence_armed_body t = lines
     [''<p>Your next recurring order is scheduled for '' @ html_escape (td_ChargeDate t)
        @ ''. We will charge the card'',
      ''on file and place it that day.</p>'', ''<ul>'',
      item_lines (td_Items t) @ ''</ul>'',
      ''<p>If you would rather not receive it yet, you can skip this one or push it back from'',
      ''your account before '' @ html_escape (td_ChargeDate t) @ '' and nothing will be charged. Skipping affects only'',
      ''this order &mdash; the ones after it keep their dates.</p>'',
      ''<p>If you want a longer gap every time instead, change the interval from your account'',
      ''rather than skipping each order.</p>'',
      ''<p>Questions? Contact '' @ html_escape (td_SupportContact t) @ ''.</p>'', '''']"

fun body_of :: "event_type \<Rightarrow> templateData \<Rightarrow> string" where
  "body_of EventScheduleCreated t = schedule_created_body t"
| "body_of EventSchedulePaused t = schedule_paused_body t"
| "body_of EventScheduleResumed t = schedule_resumed_body t"
| "body_of EventScheduleCanceled t = schedule_canceled_body t"
| "body_of EventOccurrenceArmed t = occurrence_armed_body t"
| "body_of _ t = ''''"

lemmas bodies = schedule_created_body_def schedule_paused_body_def schedule_resumed_body_def
  schedule_canceled_body_def occurrence_armed_body_def

definition render ::
    "notifiable_event \<Rightarrow> schedule \<Rightarrow> schedule_item list \<Rightarrow> occurrence option \<Rightarrow> string \<Rightarrow> go_error + string \<times> string" where
  "render e s items occ supportContact =
    (case subject_of (n_event_type e) of
       None \<Rightarrow> Inl (Wrapped '''' ErrNoTemplate ('': '' @ event_type_text (n_event_type e)))
     | Some subject \<Rightarrow>
        (let data = \<lparr>td_IntervalDays = s_interval_days s, td_AnchorDate = String (s_anchor_date s),
              td_NextOrderDate = (case s_next_run_date s of None \<Rightarrow> '''' | Some d \<Rightarrow> String d),
              td_Items = map (\<lambda>it. (i_sku it, i_quantity it)) items,
              td_PausedUntil = (case s_paused_until s of None \<Rightarrow> '''' | Some d \<Rightarrow> String d),
              td_ReasonText = '''', td_SupportContact = supportContact,
              td_ChargeDate = (case occ of None \<Rightarrow> '''' | Some oc \<Rightarrow> String (o_scheduled_for oc))\<rparr> in
         (case applyEventSnapshot data e of
            Inl err \<Rightarrow> Inl err
          | Inr data' \<Rightarrow>
             (let data'' = (case n_reason_code e of None \<Rightarrow> data'
                   | Some code \<Rightarrow> data'\<lparr>td_ReasonText := cancellationReasonText code\<rparr>) in
              Inr (subject, body_of (n_event_type e) data'')))))"

section \<open>Postmark\<close>

record postmark =
  pm_apiKey :: string
  pm_fromAddress :: string
  pm_host :: string

record http_request =
  rq_url :: string
  rq_headers :: "(string \<times> string) list"
  rq_body :: json

definition postmarkEndpoint :: string where
  "postmarkEndpoint = ''https://api.postmarkapp.com/email''"

definition NewPostmarkSender :: "string \<Rightarrow> string \<Rightarrow> postmark" where
  "NewPostmarkSender apiKey fromAddress =
    \<lparr>pm_apiKey = apiKey, pm_fromAddress = fromAddress, pm_host = postmarkEndpoint\<rparr>"

definition postmark_request :: "postmark \<Rightarrow> string \<times> string \<times> string \<Rightarrow> http_request" where
  "postmark_request p m = (case m of (to, subject, htmlBody) \<Rightarrow>
    \<lparr>rq_url = pm_host p,
     rq_headers = [(''Content-Type'', ''application/json''), (''Accept'', ''application/json''),
       (''X-Postmark-Server-Token'', pm_apiKey p)],
     rq_body = JObj [(''From'', JStr (pm_fromAddress p)), (''To'', JStr to),
       (''Subject'', JStr subject), (''HtmlBody'', JStr htmlBody)]\<rparr>)"

text \<open>The error body, decoded into \<open>ErrorCode\<close> and \<open>Message\<close>; None when it does not decode.\<close>

definition postmark_error :: "json option \<Rightarrow> (int \<times> string) option" where
  "postmark_error body =
    (case body of
       None \<Rightarrow> None
     | Some v \<Rightarrow>
        (case decode_struct False
            [(''ErrorCode'', int_field (\<lambda>n r. (n, snd r))), (''Message'', string_field (\<lambda>m r. (fst r, m)))]
            (0, '''') v of
           Inl _ \<Rightarrow> None | Inr r \<Rightarrow> Some r))"

text \<open>\<open>Send\<close> over a client \<open>client_do\<close> that fails or answers a status and a body, None for one that
  is not JSON.\<close>

definition postmark_Send ::
    "(http_request \<Rightarrow> go_error + int \<times> json option) \<Rightarrow> postmark \<Rightarrow> string \<times> string \<times> string \<Rightarrow> go_error option" where
  "postmark_Send client_do p m =
    (case client_do (postmark_request p m) of
       Inl e \<Rightarrow> Some (Wrapped ''postmark request: '' e '''')
     | Inr (status, body) \<Rightarrow>
        (if 200 \<le> status \<and> status < 300 then None
         else (case postmark_error body of
             Some (code, msg) \<Rightarrow>
               if msg \<noteq> '''' then Some (ErrText (''postmark rejected the send (code '' @ dec_int code @ ''): '' @ msg))
               else Some (ErrText (''postmark returned status '' @ dec_int status))
           | None \<Rightarrow> Some (ErrText (''postmark returned status '' @ dec_int status)))))"

end
