(* ===== verification/Notify.thy ===== *)
theory Notify
  imports Mail Materialize
begin

text \<open>
  \<open>internal/notify/notify.go\<close>: the dispatcher that claims outstanding events page by page and
  resolves each to sent, skipped, superseded or failed. The loop of \<open>RunAll\<close> ends with the first
  short page; \<open>pages\<close> bounds the pages of the model, and running out is a result of its own
  (None). The joined errors are kept as a list.
\<close>

definition visibilityTimeout :: int where "visibilityTimeout = 15 * 60"
definition maxAttempts :: int where "maxAttempts = 5"
definition batchSize :: nat where "batchSize = 200"

definition notifiableEventTypes :: "event_type list" where
  "notifiableEventTypes = [EventScheduleCreated, EventSchedulePaused, EventScheduleResumed,
     EventScheduleCanceled, EventOccurrenceArmed]"

definition eventsNeedingItems :: "event_type \<Rightarrow> bool" where
  "eventsNeedingItems t = (t = EventScheduleCreated \<or> t = EventOccurrenceArmed)"

record dispatcher =
  dp_repo :: repository
  dp_supportContact :: string

datatype outcome = outcomeSent | outcomeSkipped | outcomeSuperseded | outcomeSendFailed

record notify_result =
  nt_Claimed :: int
  nt_Sent :: int
  nt_Skipped :: int
  nt_SendFailed :: int
  nt_Superseded :: int

definition notify_zero :: notify_result where
  "notify_zero = \<lparr>nt_Claimed = 0, nt_Sent = 0, nt_Skipped = 0, nt_SendFailed = 0, nt_Superseded = 0\<rparr>"

section \<open>One event\<close>

definition armed_sequence :: "notifiable_event \<Rightarrow> go_error + int" where
  "armed_sequence e =
    (let bad = (\<lambda>w. Wrapped (''decode armed payload for event '' @ dec_int (n_schedule_event_id e) @ '': '')
                       (ErrText w) '''');
         absent = ErrText (''armed event '' @ dec_int (n_schedule_event_id e) @ '' has no sequence_no'') in
     case n_payload e of
       JObj kvs \<Rightarrow>
         (case map_of kvs ''sequence_no'' of
            None \<Rightarrow> Inl absent
          | Some JNull \<Rightarrow> Inl absent
          | Some (JNum n) \<Rightarrow> if int64 n then Inr n else Inl (bad ''number out of range'')
          | Some _ \<Rightarrow> Inl (bad ''not a number''))
     | JNull \<Rightarrow> Inl absent
     | _ \<Rightarrow> Inl (bad ''not an object''))"

definition armedOccurrence :: "dispatcher \<Rightarrow> notifiable_event \<Rightarrow> occurrence go" where
  "armedOccurrence d e =
    (case armed_sequence e of
       Inl err \<Rightarrow> throw err
     | Inr n \<Rightarrow> wrapping (''get occurrence '' @ n_schedule_id e @ ''#'' @ dec_int n @ '': '')
         (GetOccurrenceBySequence (dp_repo d) (n_schedule_id e) n))"

definition mark_sent :: "world \<Rightarrow> dispatcher \<Rightarrow> string \<Rightarrow> notifiable_event \<Rightarrow> outcome \<Rightarrow> outcome go" where
  "mark_sent W d what e result =
    bind (clock W) (\<lambda>now.
    bind (wrapping what (MarkNotificationSent (dp_repo d) (n_schedule_event_id e) now)) (\<lambda>_.
    ret result))"

text \<open>From the resolved occurrence on: items, rendering, the send and the record of it.\<close>

definition deliver_event ::
    "world \<Rightarrow> dispatcher \<Rightarrow> notifiable_event \<Rightarrow> schedule \<Rightarrow> occurrence option \<Rightarrow> outcome go" where
  "deliver_event W d e s occ =
    bind (if eventsNeedingItems (n_event_type e)
          then wrapping (''list items for '' @ n_schedule_id e @ '': '')
                 (ListScheduleItems (dp_repo d) (n_schedule_id e) SystemScope)
          else ret []) (\<lambda>items.
    case render e s items occ (dp_supportContact d) of
      Inl err \<Rightarrow> throw (Wrapped (''render '' @ event_type_text (n_event_type e) @ '': '') err '''')
    | Inr (subject, body) \<Rightarrow>
        bind (attempt (send_mail W (s_customer_email s, subject, body))) (\<lambda>r. case r of
          Inl sendErr \<Rightarrow>
            bind (wrapping ''mark failed: ''
                   (MarkNotificationFailed (dp_repo d) (n_schedule_event_id e) (err_text sendErr) maxAttempts))
              (\<lambda>_. ret outcomeSendFailed)
        | Inr _ \<Rightarrow> mark_sent W d ''mark sent: '' e outcomeSent))"

definition dispatchOne :: "world \<Rightarrow> dispatcher \<Rightarrow> notifiable_event \<Rightarrow> outcome go" where
  "dispatchOne W d e =
    bind (wrapping (''get schedule '' @ n_schedule_id e @ '': '')
           (GetSchedule (dp_repo d) (n_schedule_id e) SystemScope)) (\<lambda>s.
    if s_customer_email s = '''' then mark_sent W d ''mark skipped: '' e outcomeSkipped
    else if n_event_type e = EventOccurrenceArmed
    then bind (armedOccurrence d e) (\<lambda>current.
           if o_status current \<noteq> OccurrencePending
           then mark_sent W d ''mark superseded: '' e outcomeSuperseded
           else deliver_event W d e s (Some current))
    else deliver_event W d e s None)"

section \<open>The run\<close>

definition count_outcome :: "outcome \<Rightarrow> notify_result \<Rightarrow> notify_result" where
  "count_outcome oc res = (case oc of
      outcomeSent \<Rightarrow> res\<lparr>nt_Sent := nt_Sent res + 1\<rparr>
    | outcomeSkipped \<Rightarrow> res\<lparr>nt_Skipped := nt_Skipped res + 1\<rparr>
    | outcomeSuperseded \<Rightarrow> res\<lparr>nt_Superseded := nt_Superseded res + 1\<rparr>
    | outcomeSendFailed \<Rightarrow> res\<lparr>nt_SendFailed := nt_SendFailed res + 1\<rparr>)"

definition outcome_errors :: "outcome \<Rightarrow> notifiable_event \<Rightarrow> go_error list" where
  "outcome_errors oc e = (if oc = outcomeSendFailed
     then [ErrText (''notification send failed for schedule event '' @ dec_int (n_schedule_event_id e))]
     else [])"

fun dispatch_page ::
    "world \<Rightarrow> dispatcher \<Rightarrow> notifiable_event list \<Rightarrow> notify_result \<times> go_error list
      \<Rightarrow> (notify_result \<times> go_error list) go" where
  "dispatch_page W d [] acc = ret acc"
| "dispatch_page W d (e # es) (res, errs) =
    bind (attempt (dispatchOne W d e)) (\<lambda>r. case r of
      Inl err \<Rightarrow> dispatch_page W d es (res, errs @ [err])
    | Inr oc \<Rightarrow> dispatch_page W d es (count_outcome oc res, errs @ outcome_errors oc e))"

fun notify_loop ::
    "nat \<Rightarrow> world \<Rightarrow> dispatcher \<Rightarrow> notify_result \<times> go_error list
      \<Rightarrow> (notify_result \<times> go_error list) option go" where
  "notify_loop 0 W d acc = ret None"
| "notify_loop (Suc pages) W d (res, errs) =
    bind (attempt (wrapping ''claim notifiable events: ''
           (ClaimNotifiableEvents (dp_repo d) notifiableEventTypes visibilityTimeout batchSize))) (\<lambda>r. case r of
      Inl err \<Rightarrow> ret (Some (res, errs @ [err]))
    | Inr events \<Rightarrow>
        bind (dispatch_page W d events
               (res\<lparr>nt_Claimed := nt_Claimed res + int (length events)\<rparr>, errs)) (\<lambda>acc.
        if length events < batchSize then ret (Some acc) else notify_loop pages W d acc))"

definition notify_RunAll :: "nat \<Rightarrow> world \<Rightarrow> dispatcher \<Rightarrow> (notify_result \<times> go_error list) option go" where
  "notify_RunAll pages W d = notify_loop pages W d (notify_zero, [])"

section \<open>Dispatching keeps what the repository keeps\<close>

context repository_rely
begin

lemma deliver_event_stays [go_stays]:
  assumes [simp]: "dp_repo d = repo"
  shows "stays R (deliver_event W d e s occ)" and "stays R (mark_sent W d what e result)"
  by (auto simp: deliver_event_def mark_sent_def split: sum.splits prod.splits intro!: go_stays)

lemma dispatchOne_stays [go_stays]:
  assumes [simp]: "dp_repo d = repo"
  shows "stays R (dispatchOne W d e)"
  by (auto simp: dispatchOne_def armedOccurrence_def split: sum.splits intro!: go_stays)

lemma dispatch_page_stays [go_stays]:
  assumes [simp]: "dp_repo d = repo"
  shows "stays R (dispatch_page W d es acc)"
proof (induction es arbitrary: acc)
  case (Cons e es)
  then show ?case by (cases acc) (auto split: sum.splits intro!: go_stays)
qed (auto intro!: go_stays)

lemma notify_loop_stays [go_stays]:
  assumes [simp]: "dp_repo d = repo"
  shows "stays R (notify_loop pages W d acc)"
proof (induction pages arbitrary: acc)
  case (Suc pages)
  then show ?case by (cases acc) (auto split: sum.splits intro!: go_stays)
qed (auto intro!: go_stays)

lemma notify_RunAll_stays [go_stays]: "dp_repo d = repo \<Longrightarrow> stays R (notify_RunAll pages W d)"
  by (simp add: notify_RunAll_def notify_loop_stays)

end

end
