(* ===== verification/System.thy ===== *)
theory System
  imports Lifecycle Notify
begin

text \<open>
  The program against the step relation: run from a state in which no transaction is open, every
  action of the service, the nightly job, both sweeps and the dispatcher take the database through
  steps of \<open>Lifecycle\<close>, whatever fails on the way and whatever other sessions do, provided those
  take steps too. Every invariant of the steps is therefore an invariant of the running system.
\<close>

section \<open>Programs at the top level\<close>

text \<open>A program between transactions: it opens and closes its own, and its effect is a step of R.\<close>

definition top :: "(db \<Rightarrow> db \<Rightarrow> bool) \<Rightarrow> 'a go \<Rightarrow> bool" where
  "top R m = (\<forall>s. st_tx s = None \<longrightarrow> st_tx (snd (m s)) = None \<and> R (st_db s) (st_db (snd (m s))))"

named_theorems go_top \<open>programs that run between transactions\<close>

lemma topD: "top R m \<Longrightarrow> st_tx s = None \<Longrightarrow> m s = (r, s') \<Longrightarrow> st_tx s' = None \<and> R (st_db s) (st_db s')"
  by (metis snd_conv top_def)

context rely
begin

lemma ret_top [go_top]: "top R (ret a)"
  by (simp add: top_def ret_def R_refl)

lemma throw_top [go_top]: "top R (throw e)"
  by (simp add: top_def throw_def R_refl)

lemma gets_top [go_top]: "top R (gets f)" "top R (clock W)"
  by (simp_all add: clock_def top_def gets_def R_refl)

lemma new_id_top [go_top]: "top R (new_id W)" "top R (send_mail W mail)"
  by (simp_all add: top_def new_id_def send_mail_def R_refl)

lemma bind_top [go_top]:
  assumes "top R m" and "\<And>a. top R (f a)"
  shows "top R (bind m f)"
  unfolding top_def
proof (intro allI impI)
  fix s :: session assume s: "st_tx s = None"
  obtain r s' where m: "m s = (r, s')" by fastforce
  note first = topD [OF assms(1) s m]
  show "st_tx (snd (bind m f s)) = None \<and> R (st_db s) (st_db (snd (bind m f s)))"
  proof (cases r)
    case (Inr a)
    obtain r2 s2 where f: "f a s' = (r2, s2)" by fastforce
    have "st_tx s2 = None \<and> R (st_db s') (st_db s2)" using topD [OF assms(2) _ f] first by simp
    then show ?thesis using first Inr m f R_trans by (simp add: bind_def) blast
  qed (use first m in \<open>simp add: bind_def\<close>)
qed

lemma attempt_top [go_top]: "top R m \<Longrightarrow> top R (attempt m)"
  by (auto simp: top_def attempt_def split: prod.splits) (metis snd_conv)+

lemma wrapping_top [go_top]: "top R m \<Longrightarrow> top R (wrapping pre m)"
  unfolding top_def wrapping_def by (auto split: prod.splits sum.splits) (metis snd_conv)+

lemma check_top [go_top]: "top R (check v)"
  by (cases v) (simp_all add: check_def ret_top throw_top)

lemma deliver_top [go_top]: "top R (deliver outs err)"
  by (simp add: deliver_def ret_top)

lemma or_deliver_top [go_top]: "top R m \<Longrightarrow> (\<And>a. top R (k a)) \<Longrightarrow> top R (or_deliver outs m k)"
  by (auto simp: or_deliver_def split: sum.splits intro!: bind_top attempt_top deliver_top)

lemma stmt_no_tx: "st_tx s = None \<Longrightarrow> st_tx (snd (stmt W q s)) = None"
  by (auto simp: stmt_def settle_def Let_def split: sum.splits)

lemma stmt_top [go_top]: "query_stays R q \<Longrightarrow> top R (stmt W q)"
  using stmt_stays stmt_no_tx by (auto simp: top_def stays_def)

lemma read_top: "top R (stmt W (query f))" "top R (stmt W (with_uuid W i (\<lambda>u. query (g u))))"
  by (auto intro!: stmt_top simp: query_stays_def query_def with_uuid_def R_refl split: option.splits)

lemma repository_reads_top [go_top]:
  "top R (pg_GetSchedule W i sc)" "top R (querySchedules W sel)" "top R (pg_ListActiveSchedules W)"
  "top R (pg_ListSchedulesDueToResume W on)" "top R (pg_ListSchedulesDueToArm W on)"
  "top R (queryOneOccurrence W i occs)" "top R (pg_NextPlannedOccurrence W i)"
  "top R (pg_GetOccurrenceBySequence W i n)" "top R (pg_ListScheduleItems W i sc)"
  by (auto simp: pg_GetSchedule_def one_row_def querySchedules_def pg_ListActiveSchedules_def
      pg_ListSchedulesDueToResume_def pg_ListSchedulesDueToArm_def queryOneOccurrence_def queryOccurrences_def
      pg_NextPlannedOccurrence_def pg_GetOccurrenceBySequence_def pg_ListScheduleItems_def
      split: option.splits list.splits intro!: go_top read_top)

end

section \<open>Serving\<close>

text \<open>Other sessions are instances of this program.\<close>

definition lawful :: "world \<Rightarrow> int \<Rightarrow> bool" where
  "lawful W horizon = (\<forall>k d. served W horizon d (w_others W k d))"

definition serves :: "world \<Rightarrow> int \<Rightarrow> db \<Rightarrow> db \<Rightarrow> bool" where
  "serves W horizon d d' =
     (lawful W horizon \<and> canonical W \<and> invariant W d \<longrightarrow> served W horizon d d')"

interpretation serving: rely W "serves W horizon" for W horizon
proof
  show "serves W horizon d d" for d by (simp add: serves_def served_refl)
  show "serves W horizon d1 d3" if "serves W horizon d1 d2" "serves W horizon d2 d3" for d1 d2 d3
    using that served_trans served_invariant unfolding serves_def by blast
  show "serves W horizon d (w_others W k d)" for k d by (simp add: serves_def lawful_def)
qed

lemma lawful_constraints: "lawful W horizon \<Longrightarrow> others_respect W keeps_constraints"
  unfolding lawful_def others_respect_def keeps_constraints_def using served_wf by blast

text \<open>A program that either rolls back to the state its transaction began in or commits a step.\<close>

lemma one_step_top:
  assumes stays: "stays (under W keeps_constraints) m"
    and outcome: "\<And>(s :: session) r s'. st_tx s = None \<Longrightarrow> canonical W \<Longrightarrow> canonical_db W (begun W s) \<Longrightarrow> m s = (r, s') \<Longrightarrow>
      st_tx s' = None \<and> (st_db s' = st_db s \<or> st_db s' = begun W s \<or> step W horizon (begun W s) (st_db s'))"
    and tx: "\<And>(s :: session) r s'. st_tx s = None \<Longrightarrow> m s = (r, s') \<Longrightarrow> st_tx s' = None"
  shows "top (serves W horizon) m"
  unfolding top_def
proof (intro allI impI)
  fix s :: session assume s: "st_tx s = None"
  obtain r s' where m: "m s = (r, s')" by fastforce
  have "served W horizon (st_db s) (st_db s')"
    if law: "lawful W horizon" and canon: "canonical W" and inv: "invariant W (st_db s)"
  proof -
    have began: "served W horizon (st_db s) (begun W s)" using law by (simp add: lawful_def begun_def)
    then have "canonical_db W (begun W s)" using served_invariant inv by (auto simp: invariant_def)
    from outcome [OF s canon this m]
    show ?thesis
    proof (elim conjE disjE)
      assume "step W horizon (begun W s) (st_db s')"
      moreover have "db_wf (st_db s')"
        using stays_under [OF stays lawful_constraints [OF law] m] inv
        by (simp add: keeps_constraints_def invariant_def)
      ultimately show ?thesis using began by (auto intro: served_step)
    qed (use began in \<open>simp_all add: served_refl\<close>)
  qed
  then show "st_tx (snd (m s)) = None \<and> serves W horizon (st_db s) (st_db (snd (m s)))"
    using tx [OF s m] m by (simp add: serves_def)
qed

section \<open>The actions\<close>

lemma in_tx_no_tx:
  assumes "st_tx s = None" "in_tx W m s = (r, s')"
  shows "st_tx s' = None"
proof -
  have "st_tx (snd (in_tx W m s)) = None"
    using assms(1) by (auto simp: in_tx_def in_tx_out_begun Let_def split: prod.splits option.splits)
  with assms(2) show ?thesis by simp
qed

lemma transition_no_tx:
  "st_tx s = None \<Longrightarrow> transition W svc i a caller f s = (r, s') \<Longrightarrow> st_tx s' = None"
  unfolding transition_def Let_def by (rule in_tx_no_tx)

lemma check_bind_cases:
  "bind (check v) f s = (r, s') \<Longrightarrow> s' = s \<or> f () s = (r, s')"
  by (cases v) (auto simp: check_def bind_def ret_def throw_def)

text \<open>An action is a transition after some validations, and its commits are steps.\<close>

lemma action_top:
  assumes stays: "stays (under W keeps_constraints) m"
    and shape: "\<And>s r s'. m s = (r, s') \<Longrightarrow> s' = s \<or> (\<exists>f. transition W svc i a caller f s = (r, s'))"
    and commits: "\<And>s out s'. st_tx s = None \<Longrightarrow> canonical W \<Longrightarrow> canonical_db W (begun W s) \<Longrightarrow>
      m s = (Inr out, s') \<Longrightarrow> step W horizon (begun W s) (st_db s')"
  shows "top (serves W horizon) m"
proof (rule one_step_top [OF stays])
  fix s r s' assume s: "st_tx s = None" and m: "m s = (r, s')"
  show tx: "st_tx s' = None" using shape [OF m] transition_no_tx [OF s] s by blast
  assume "canonical W" "canonical_db W (begun W s)"
  then have "step W horizon (begun W s) (st_db s')" if "r = Inr out" for out
    using commits s m that by blast
  moreover have "s' = s \<or> st_db s' = begun W s" if "r = Inl e" for e
    using shape [OF m] transition_rolls_back s that by blast
  ultimately show "st_tx s' = None \<and> (st_db s' = st_db s \<or> st_db s' = begun W s \<or> step W horizon (begun W s) (st_db s'))"
    using tx by (cases r) auto
qed

lemma action_shapes:
  "Pause W svc i until caller s = (r, s') \<Longrightarrow> s' = s \<or> (\<exists>f. transition W svc i ActionPause caller f s = (r, s'))"
  "Resume W svc i caller s = (r, s') \<Longrightarrow> s' = s \<or> (\<exists>f. transition W svc i ActionResume caller f s = (r, s'))"
  "SkipNext W svc i key caller s = (r, s') \<Longrightarrow> s' = s \<or> (\<exists>f. transition W svc i ActionSkipNext caller f s = (r, s'))"
  "ArmNext W svc i caller s = (r, s') \<Longrightarrow> s' = s \<or> (\<exists>f. transition W svc i ActionArm caller f s = (r, s'))"
  "Defer W svc i days key caller s = (r, s') \<Longrightarrow> s' = s \<or> (\<exists>f. transition W svc i ActionDefer caller f s = (r, s'))"
  "ChangeCadence W svc i interval caller s = (r, s') \<Longrightarrow>
     s' = s \<or> (\<exists>f. transition W svc i ActionChangeCadence caller f s = (r, s'))"
  "Cancel W svc i reason caller s = (r, s') \<Longrightarrow> s' = s \<or> (\<exists>f. transition W svc i ActionCancel caller f s = (r, s'))"
  unfolding Pause_def Resume_def SkipNext_def ArmNext_def Defer_def ChangeCadence_def Cancel_def
  by (blast dest: check_bind_cases)+

lemma action_steps:
  assumes "canonical W" and "svc_repo svc = postgres W" and "m_horizon (svc_mat svc) = horizon"
    and "st_tx s = None" and "canonical_db W (begun W s)"
  shows "Pause W svc i until caller s = (Inr out, s') \<Longrightarrow> step W horizon (begun W s) (st_db s')"
    and "Resume W svc i caller s = (Inr out, s') \<Longrightarrow> step W horizon (begun W s) (st_db s')"
    and "SkipNext W svc i key caller s = (Inr out, s') \<Longrightarrow> step W horizon (begun W s) (st_db s')"
    and "ArmNext W svc i caller s = (Inr out, s') \<Longrightarrow> step W horizon (begun W s) (st_db s')"
    and "Defer W svc i days key caller s = (Inr out, s') \<Longrightarrow> step W horizon (begun W s) (st_db s')"
    and "ChangeCadence W svc i interval caller s = (Inr out, s') \<Longrightarrow> step W horizon (begun W s) (st_db s')"
    and "Cancel W svc i reason caller s = (Inr out, s') \<Longrightarrow> step W horizon (begun W s) (st_db s')"
  using Pause_commits [OF assms(1,2,4), of i until caller out s']
    Resume_commits [OF assms(1,2,4), of i caller out s']
    SkipNext_commits [OF assms(1,2,4) _ assms(5), of i key caller out s']
    ArmNext_commits [OF assms(1,2,4) _ assms(5), of i caller out s']
    Defer_commits [OF assms(1,2,4) _ assms(5), of i days key caller out s']
    ChangeCadence_commits [OF assms(1,2,4), of i interval caller out s']
    Cancel_commits [OF assms(1,2,4), of i reason caller out s']
  unfolding assms(3)
  by (metis step_pause step_resume step_skip step_arm step_defer step_cadence step_cancel)+

lemma actions_top [go_top]:
  assumes repo: "svc_repo svc = postgres W" and horizon: "m_horizon (svc_mat svc) = horizon"
  shows "top (serves W horizon) (Pause W svc i until caller)"
    and "top (serves W horizon) (Resume W svc i caller)"
    and "top (serves W horizon) (SkipNext W svc i key caller)"
    and "top (serves W horizon) (ArmNext W svc i caller)"
    and "top (serves W horizon) (Defer W svc i days key caller)"
    and "top (serves W horizon) (ChangeCadence W svc i interval caller)"
    and "top (serves W horizon) (Cancel W svc i reason caller)"
  by (rule action_top, rule constraints.actions_stay [OF repo], erule action_shapes,
      rule action_steps [OF _ repo horizon]; assumption)+

section \<open>The nightly job\<close>

definition materialized_to :: "world \<Rightarrow> int \<Rightarrow> string \<Rightarrow> date \<Rightarrow> int \<Rightarrow> db \<Rightarrow> int \<times> int \<Rightarrow> db \<Rightarrow> bool" where
  "materialized_to W horizon sid td t d counts d' =
    (d' = d \<and> counts = (0, 0)
       \<and> (\<forall>u r. w_uuid_in W sid = Some u \<longrightarrow> schedule_at u SystemScope d = Some r \<longrightarrow> sr_status r \<noteq> ScheduleActive)
     \<or> (\<exists>u r ids. w_uuid_in W sid = Some u \<and> schedule_at u SystemScope d = Some r
          \<and> sr_status r = ScheduleActive \<and> stored_ids W (missing u horizon td d) ids
          \<and> counts = (int (missing u horizon td d), 0)
          \<and> d' = topped_up t u (date_of_day (sr_anchor_date r)) (sr_interval_days r) ids td d))"

lemma found_row:
  assumes "canonical W" "w_uuid_in W i = Some u" "schedule_at u sc d = Some r"
  shows "sr_id r = u" "w_uuid_in W u = Some u" "schedule_exists d u"
  using schedule_atD [OF assms(3)] canonicalD [OF assms(1,2)] by auto

lemma materialize_one_commits:
  assumes canon: "canonical W" and repo: "m_repo m = postgres W" and outside: "st_tx s = None"
    and run: "materialize_one W m td sid s = (Inr (counts, None), s')"
  shows "materialized_to W (m_horizon m) sid td (w_dbnow W (st_ticks s)) (begun W s) counts (st_db s')"
proof -
  let ?Q = "\<lambda>t r d. snd r = None \<longrightarrow> materialized_to W (m_horizon m) sid td t (begun W s) (fst r) d"
  have tri: "triple t (\<lambda>d. d = begun W s)
      (bind (attempt (pg_GetScheduleForUpdate W sid SystemScope)) (\<lambda>r. case r of
          Inl e \<Rightarrow> deliver (0, 0) (if err_is e ErrNotFound then None else Some e)
        | Inr current \<Rightarrow> Run W m current td)) (?Q t) any_error" for t
    by (rule triple_pre, rule triple_bind, rule triple_sum, rule triple_deliver,
        rule triple_Run_found [OF repo canon], simp, rule triple_attempt, rule triple_GetScheduleForUpdate)
      (auto simp: materialized_to_def IsActive_def found_row [OF canon] split: option.splits)
  note run' = run [unfolded materialize_one_def repo postgres_sel]
  from in_tx_run_commits [where Q = ?Q, OF run' outside tri]
  show ?thesis by simp
qed

lemma materialized_to_step:
  "materialized_to W horizon sid td t d counts d' \<Longrightarrow> d' = d \<or> step W horizon d d'"
  by (auto simp: materialized_to_def intro: step_materialize)

lemma in_tx_run_no_tx:
  assumes "st_tx s = None" "in_tx_run W zero m s = (r, s')"
  shows "st_tx s' = None"
  using assms by (auto simp: in_tx_run_def in_tx_out_begun Let_def split: prod.splits option.splits sum.splits if_splits)

lemma materialize_one_top [go_top]:
  assumes repo: "m_repo m = postgres W"
  shows "top (serves W (m_horizon m)) (materialize_one W m td sid)"
proof (rule one_step_top [OF constraints.materialize_one_stays [OF repo]])
  fix s r s' assume s: "st_tx s = None" and run: "materialize_one W m td sid s = (r, s')"
  show tx: "st_tx s' = None" using s run unfolding materialize_one_def by (rule in_tx_run_no_tx)
  assume canon: "canonical W"
  obtain counts err where r: "r = Inr (counts, err)"
    using in_tx_run_delivers [OF run[unfolded materialize_one_def]] by blast
  show "st_tx s' = None \<and> (st_db s' = st_db s \<or> st_db s' = begun W s \<or> step W (m_horizon m) (begun W s) (st_db s'))"
  proof (cases err)
    case None
    then show ?thesis
      using materialize_one_commits [OF canon repo s] run r tx materialized_to_step by blast
  next
    case (Some e)
    then show ?thesis
      using in_tx_run_rolls_back [OF run[unfolded materialize_one_def r Some] s] tx by simp
  qed
qed

lemma materialize_each_top [go_top]:
  "m_repo m = postgres W \<Longrightarrow> top (serves W (m_horizon m)) (materialize_each W m td ss res firstErr)"
  by (induction ss arbitrary: res firstErr) (auto intro!: go_top)

lemma RunAll_top [go_top]:
  "m_repo m = postgres W \<Longrightarrow> top (serves W (m_horizon m)) (RunAll W m td)"
  by (auto simp: RunAll_def Let_def intro!: go_top)

section \<open>The sweeps and the dispatcher\<close>

lemma clock_reads_top [go_top]: "top (serves W horizon) (todayFor W sched)" "top (serves W horizon) (run_date W)"
  by (auto simp: todayFor_def run_date_def intro!: go_top)

lemma resume_each_top [go_top]:
  assumes "svc_repo (sw_svc sw) = postgres W" "m_horizon (svc_mat (sw_svc sw)) = horizon"
  shows "top (serves W horizon) (resume_each W sw candidates res firstErr)"
  by (induction candidates arbitrary: res firstErr)
    (auto simp: Let_def assms split: sum.splits intro!: go_top)

lemma arm_each_top [go_top]:
  assumes "svc_repo (sw_svc sw) = postgres W" "m_horizon (svc_mat (sw_svc sw)) = horizon"
    and "sw_repo sw = postgres W"
  shows "top (serves W horizon) (arm_each W sw candidates res firstErr)"
  by (induction candidates arbitrary: res firstErr)
    (auto simp: Let_def assms split: sum.splits intro!: go_top)

lemma sweeps_top [go_top]:
  assumes "svc_repo (sw_svc sw) = postgres W" "m_horizon (svc_mat (sw_svc sw)) = horizon"
    and "sw_repo sw = postgres W"
  shows "top (serves W horizon) (ResumeDue W sw)" and "top (serves W horizon) (ArmDue W sw)"
  by (auto simp: ResumeDue_def ArmDue_def assms intro!: go_top)

text \<open>A single accepted statement of the dispatcher is a step.\<close>

lemma statement_step:
  assumes "\<And>now d a d'. q now d = Inr (a, d') \<Longrightarrow> step W horizon d d' \<and> (db_wf d \<longrightarrow> db_wf d')"
  shows "query_stays (serves W horizon) q"
  using assms served_step [OF served_refl] by (auto simp: query_stays_def serves_def)

lemma notification_statements:
  "query_stays (serves W horizon) (q_claim types timeout limit)"
  "query_stays (serves W horizon) (q_mark_sent n sent_at)"
  "query_stays (serves W horizon) (q_mark_failed n msg cap)"
  by (rule statement_step; blast intro: step_claim step_mark_sent step_mark_failed q_claim_wf statement_update_wf)+

lemma checkAffected_top [go_top]: "top (serves W horizon) (checkAffected n)"
  by (simp add: checkAffected_def serving.ret_top serving.throw_top)

lemma notification_writes_top [go_top]:
  "top (serves W horizon) (pg_ClaimNotifiableEvents W types timeout limit)"
  "top (serves W horizon) (pg_MarkNotificationSent W n sent_at)"
  "top (serves W horizon) (pg_MarkNotificationFailed W n msg cap)"
  unfolding pg_ClaimNotifiableEvents_def pg_MarkNotificationSent_def pg_MarkNotificationFailed_def
  by (intro go_top notification_statements)+

lemma mark_sent_top:
  assumes [simp]: "dp_repo d = postgres W"
  shows "top (serves W horizon) (mark_sent W d what e result)"
  unfolding mark_sent_def by (simp, intro go_top)

lemma armedOccurrence_top:
  assumes [simp]: "dp_repo d = postgres W"
  shows "top (serves W horizon) (armedOccurrence d e)"
  unfolding armedOccurrence_def by (cases "armed_sequence e") (simp_all add: go_top)

lemma deliver_event_top:
  assumes [simp]: "dp_repo d = postgres W"
  shows "top (serves W horizon) (deliver_event W d e s occ)"
proof -
  have recorded: "top (serves W horizon) (case r of
          Inl sendErr \<Rightarrow>
            bind (wrapping ''mark failed: ''
                   (MarkNotificationFailed (dp_repo d) (n_schedule_event_id e) (err_text sendErr) maxAttempts))
              (\<lambda>_. ret outcomeSendFailed)
        | Inr _ \<Rightarrow> mark_sent W d ''mark sent: '' e outcomeSent)" for r :: "go_error + unit"
    by (cases r) (simp_all add: mark_sent_top go_top)
  have rendered: "top (serves W horizon) (case v of
      Inl err \<Rightarrow> throw (Wrapped (''render '' @ event_type_text (n_event_type e) @ '': '') err '''')
    | Inr (subject, body) \<Rightarrow>
        bind (attempt (send_mail W (s_customer_email s, subject, body))) (\<lambda>r. case r of
          Inl sendErr \<Rightarrow>
            bind (wrapping ''mark failed: ''
                   (MarkNotificationFailed (dp_repo d) (n_schedule_event_id e) (err_text sendErr) maxAttempts))
              (\<lambda>_. ret outcomeSendFailed)
        | Inr _ \<Rightarrow> mark_sent W d ''mark sent: '' e outcomeSent))" for v :: "go_error + string \<times> string"
  proof (cases v)
    case (Inr p)
    then show ?thesis by (cases p) (simp, intro go_top, rule recorded [unfolded assms postgres_sel])
  qed (simp add: go_top)
  show ?thesis
    unfolding deliver_event_def
    by (rule serving.bind_top [rotated], rule rendered) (simp add: go_top)
qed

lemma dispatchOne_top [go_top]:
  assumes [simp]: "dp_repo d = postgres W"
  shows "top (serves W horizon) (dispatchOne W d e)"
  unfolding dispatchOne_def
  by (simp, intro go_top impI conjI; simp add: mark_sent_top armedOccurrence_top deliver_event_top go_top)

lemma dispatch_page_top [go_top]:
  assumes [simp]: "dp_repo d = postgres W"
  shows "top (serves W horizon) (dispatch_page W d es acc)"
proof (induction es arbitrary: acc)
  case (Cons e es)
  then show ?case by (cases acc) (auto split: sum.splits intro!: go_top)
qed (auto intro!: go_top)

lemma notify_loop_top [go_top]:
  assumes [simp]: "dp_repo d = postgres W"
  shows "top (serves W horizon) (notify_loop pages W d acc)"
proof (induction pages arbitrary: acc)
  case (Suc pages)
  then show ?case by (cases acc) (auto split: sum.splits intro!: go_top)
qed (auto intro!: go_top)

text \<open>What a program at the top level leaves behind.\<close>

lemma serving_outcome:
  assumes "top (serves W horizon) m" and "lawful W horizon" "canonical W"
    and "invariant W (st_db s)" and "st_tx s = None" and "m s = (r, s')"
  shows "invariant W (st_db s') \<and> st_tx s' = None \<and> served W horizon (st_db s) (st_db s')
     \<and> keeps_settled (st_db s) (st_db s') \<and> keeps_canceled (st_db s) (st_db s')"
proof -
  have "st_tx s' = None" "served W horizon (st_db s) (st_db s')"
    using topD [OF assms(1,5,6)] assms(2-4) by (simp_all add: serves_def)
  then show ?thesis
    using served_invariant served_settled served_canceled assms(4) by (auto simp: invariant_def)
qed

end
