(* ===== verification/Auth.thy ===== *)
theory Auth
  imports Decode
begin

text \<open>
  \<open>internal/auth\<close>: principals, the service key, bearer headers and customer tokens. The hash
  function of the key comparison and the JWT parser are parameters; the options the parser is
  given are part of the verifier. A text is its bytes.
\<close>

section \<open>Principals\<close>

datatype kind = KindCustomer | KindService | KindOther string

record principal =
  p_kind :: kind
  p_customer :: string

definition Actor :: "principal \<Rightarrow> event_actor" where
  "Actor p = (if p_kind p = KindCustomer then ActorCustomer else ActorSystem)"

definition OwnsCustomer :: "principal \<Rightarrow> string \<Rightarrow> bool" where
  "OwnsCustomer p customerID =
    (case p_kind p of
       KindService \<Rightarrow> True
     | KindCustomer \<Rightarrow> p_customer p \<noteq> '''' \<and> p_customer p = customerID
     | KindOther _ \<Rightarrow> False)"

section \<open>The service key\<close>

record service_key =
  sk_digest :: string

definition NewServiceKeyVerifier :: "(string \<Rightarrow> string) \<Rightarrow> string \<Rightarrow> service_key" where
  "NewServiceKeyVerifier sha256 key = \<lparr>sk_digest = sha256 key\<rparr>"

definition VerifyKey :: "(string \<Rightarrow> string) \<Rightarrow> service_key \<Rightarrow> string \<Rightarrow> go_error + principal" where
  "VerifyKey sha256 v presented =
    (if sha256 presented \<noteq> sk_digest v then Inl ErrUnauthenticated
     else Inr \<lparr>p_kind = KindService, p_customer = ''''\<rparr>)"

section \<open>Bearer headers\<close>

text \<open>The UTF-8 forms of the white space of \<open>unicode.IsSpace\<close>, and \<open>strings.TrimSpace\<close>.\<close>

definition white_space :: "string list" where
  "white_space =
    [[CHR 0x20], [CHR 0x09], [CHR 0x0A], [CHR 0x0B], [CHR 0x0C], [CHR 0x0D],
     [CHR 0xC2, CHR 0x85], [CHR 0xC2, CHR 0xA0], [CHR 0xE1, CHR 0x9A, CHR 0x80]]
    @ map (\<lambda>b. [CHR 0xE2, CHR 0x80, b])
        [CHR 0x80, CHR 0x81, CHR 0x82, CHR 0x83, CHR 0x84, CHR 0x85, CHR 0x86, CHR 0x87, CHR 0x88,
         CHR 0x89, CHR 0x8A, CHR 0xA8, CHR 0xA9, CHR 0xAF]
    @ [[CHR 0xE2, CHR 0x81, CHR 0x9F], [CHR 0xE3, CHR 0x80, CHR 0x80]]"

function trim_front :: "string list \<Rightarrow> string \<Rightarrow> string" where
  "trim_front ws s =
    (case find (\<lambda>w. w \<noteq> [] \<and> take (length w) s = w) ws of
       None \<Rightarrow> s | Some w \<Rightarrow> trim_front ws (drop (length w) s))"
  by pat_completeness auto

termination
proof (relation "measure (\<lambda>(ws, s). length s)")
  fix ws :: "string list" and s w
  assume "find (\<lambda>w. w \<noteq> [] \<and> take (length w) s = w) ws = Some w"
  then have "w \<noteq> [] \<and> take (length w) s = w" by (auto dest: find_SomeD)
  then show "((ws, drop (length w) s), ws, s) \<in> measure (\<lambda>(ws, s). length s)" by (cases s) auto
qed simp

declare trim_front.simps [simp del]

definition TrimSpace :: "string \<Rightarrow> string" where
  "TrimSpace s = rev (trim_front (map rev white_space) (rev (trim_front white_space s)))"

text \<open>\<open>strings.EqualFold\<close> against a text without letters that fold outside ASCII.\<close>

definition equal_fold :: "string \<Rightarrow> string \<Rightarrow> bool" where
  "equal_fold s t = (map lower_char s = map lower_char t)"

definition ParseBearer :: "string \<Rightarrow> go_error + string" where
  "ParseBearer header =
    (let scheme = ''bearer '' in
     if length header < length scheme \<or> \<not> equal_fold (take (length scheme) header) scheme
     then Inl ErrUnauthenticated
     else (let credential = TrimSpace (drop (length scheme) header) in
           if credential = '''' then Inl ErrUnauthenticated else Inr credential))"

section \<open>Customer tokens\<close>

definition signingMethod :: string where "signingMethod = ''HS256''"
definition leeway :: int where "leeway = 30"

text \<open>What the parser is told to insist on.\<close>

record jwt_options =
  jo_valid_methods :: "string list"
  jo_issuer :: string
  jo_audience :: string
  jo_expiration_required :: bool
  jo_leeway :: int

record token_config =
  tc_secret :: string
  tc_issuer :: string
  tc_audience :: string

record token_verifier =
  tv_options :: jwt_options
  tv_secret :: string

definition NewTokenVerifier :: "token_config \<Rightarrow> token_verifier" where
  "NewTokenVerifier cfg =
    \<lparr>tv_options = \<lparr>jo_valid_methods = [signingMethod], jo_issuer = tc_issuer cfg,
        jo_audience = tc_audience cfg, jo_expiration_required = True, jo_leeway = leeway\<rparr>,
     tv_secret = tc_secret cfg\<rparr>"

text \<open>The JWT library: options, key, the time, and a token give an error, or whether the token is
  valid and its subject.\<close>

type_synonym jwt_parser = "jwt_options \<Rightarrow> string \<Rightarrow> int \<Rightarrow> string \<Rightarrow> go_error + (bool \<times> string)"

definition VerifyToken :: "jwt_parser \<Rightarrow> token_verifier \<Rightarrow> int \<Rightarrow> string \<Rightarrow> go_error + principal" where
  "VerifyToken parse v now token =
    (case parse (tv_options v) (tv_secret v) now token of
       Inl err \<Rightarrow> Inl (Wrapped '''' ErrUnauthenticated ('': '' @ err_text err))
     | Inr (valid, subject) \<Rightarrow>
         if \<not> valid then Inl ErrUnauthenticated
         else if subject = '''' then Inl (Wrapped '''' ErrUnauthenticated '': token has no subject'')
         else Inr \<lparr>p_kind = KindCustomer, p_customer = subject\<rparr>)"

section \<open>What a verified caller is\<close>

lemma trim_front_no_space:
  "w \<in> set ws \<Longrightarrow> w \<noteq> [] \<Longrightarrow> take (length w) (trim_front ws s) \<noteq> w"
proof (induction ws s rule: trim_front.induct)
  case (1 ws s)
  show ?case
  proof (cases "find (\<lambda>w. w \<noteq> [] \<and> take (length w) s = w) ws")
    case None
    then have "trim_front ws s = s" by (simp add: trim_front.simps [of ws s])
    with None "1.prems" show ?thesis by (auto simp: find_None_iff)
  next
    case (Some v)
    then have "trim_front ws s = trim_front ws (drop (length v) s)" by (simp add: trim_front.simps [of ws s])
    with "1.IH" [OF Some] "1.prems" show ?thesis by simp
  qed
qed

text \<open>Trimming a text that neither begins nor ends with white space.\<close>

lemma trim_front_id: "(\<And>w. w \<in> set ws \<Longrightarrow> w \<noteq> [] \<Longrightarrow> take (length w) s \<noteq> w) \<Longrightarrow> trim_front ws s = s"
proof -
  assume "\<And>w. w \<in> set ws \<Longrightarrow> w \<noteq> [] \<Longrightarrow> take (length w) s \<noteq> w"
  then have "find (\<lambda>w. w \<noteq> [] \<and> take (length w) s = w) ws = None" by (auto simp: find_None_iff)
  then show ?thesis by (simp add: trim_front.simps [of ws s])
qed

lemma VerifyKey_Inr:
  "VerifyKey sha256 v presented = Inr p \<longleftrightarrow>
     sha256 presented = sk_digest v \<and> p = \<lparr>p_kind = KindService, p_customer = ''''\<rparr>"
  by (auto simp: VerifyKey_def)

lemma VerifyToken_Inr:
  "VerifyToken parse v now token = Inr p \<longleftrightarrow>
     (\<exists>subject. parse (tv_options v) (tv_secret v) now token = Inr (True, subject) \<and> subject \<noteq> ''''
        \<and> p = \<lparr>p_kind = KindCustomer, p_customer = subject\<rparr>)"
  by (auto simp: VerifyToken_def split: sum.splits prod.splits)

lemma verification_errors:
  "VerifyKey sha256 v presented = Inl e \<Longrightarrow> err_is e ErrUnauthenticated"
  "VerifyToken parse tv now token = Inl e \<Longrightarrow> err_is e ErrUnauthenticated"
  "ParseBearer header = Inl e \<Longrightarrow> err_is e ErrUnauthenticated"
  by (auto simp: VerifyKey_def VerifyToken_def ParseBearer_def Let_def split: sum.splits prod.splits if_splits)

end
