(* ===== verification/HttpApi.thy ===== *)
theory HttpApi
  imports Service Auth
begin

text \<open>
  \<open>internal/httpapi\<close>: requests and responses as values, the handlers as programs that always
  answer, the authentication in front of them and the router. The body of a request arrives as
  what the JSON tokenizer makes of it: the first value or its error, and what follows. A path is
  the list of its segments. The embedded console pages are a parameter.
\<close>

section \<open>Requests and responses\<close>

datatype rest = AtEOF | AnotherValue | Garbage go_error

record request =
  rq_method :: string
  rq_path :: "string list"
  rq_authorization :: string
  rq_content_length :: int
  rq_first :: "go_error + json"
  rq_rest :: rest

record response =
  rs_code :: nat
  rs_headers :: "(string \<times> string) list"
  rs_body :: json

definition writeJSON :: "nat \<Rightarrow> json \<Rightarrow> response" where
  "writeJSON code body =
    \<lparr>rs_code = code, rs_headers = [(''Content-Type'', ''application/json'')], rs_body = body\<rparr>"

definition writeError :: "nat \<Rightarrow> string \<Rightarrow> response" where
  "writeError code message = writeJSON code (JObj [(''error'', JStr message)])"

definition reject :: "nat \<Rightarrow> string \<Rightarrow> response go" where
  "reject code message = ret (writeError code message)"

definition decodeJSON :: "(string \<times> 'r setter) list \<Rightarrow> 'r \<Rightarrow> request \<Rightarrow> go_error + 'r" where
  "decodeJSON fs zero r =
    (case rq_first r of
       Inl e \<Rightarrow> Inl e
     | Inr v \<Rightarrow>
        (case decode_struct True fs zero v of
           Inl e \<Rightarrow> Inl e
         | Inr dst \<Rightarrow>
            (case rq_rest r of
               AtEOF \<Rightarrow> Inr dst
             | AnotherValue \<Rightarrow> Inl (ErrText ''request body must contain one JSON value'')
             | Garbage e \<Rightarrow> Inl (Wrapped ''request body must contain one JSON value: '' e ''''))))"

text \<open>A body that may be absent.\<close>

definition decode_optional :: "(string \<times> 'r setter) list \<Rightarrow> 'r \<Rightarrow> request \<Rightarrow> go_error + 'r" where
  "decode_optional fs zero r =
    (if rq_content_length r = 0 then Inr zero else decodeJSON fs zero r)"

definition bad_body :: "go_error \<Rightarrow> response go" where
  "bad_body e = reject 400 (''invalid request body: '' @ err_text e)"

definition parseDate :: "string \<Rightarrow> date option" where
  "parseDate s = map_option (\<lambda>d. DateOf utc (86400 * day_of d)) (time_parse s)"

definition date_json :: "date option \<Rightarrow> json" where
  "date_json d = (case d of None \<Rightarrow> JNull | Some d \<Rightarrow> JStr (String d))"

definition item_json :: "schedule_item \<Rightarrow> json" where
  "item_json it = JObj [(''sku'', JStr (i_sku it)), (''quantity'', JNum (i_quantity it))]"

definition toResponse :: "schedule \<Rightarrow> schedule_item list \<Rightarrow> json" where
  "toResponse s items = JObj
    [(''id'', JStr (s_id s)), (''customer_id'', JStr (s_customer_id s)),
     (''origin_order_id'', JStr (s_origin_order_id s)), (''status'', JStr (schedule_status_text (s_status s))),
     (''interval_days'', JNum (s_interval_days s)), (''anchor_date'', JStr (String (s_anchor_date s))),
     (''next_run_date'', date_json (s_next_run_date s)), (''timezone'', JStr (s_timezone s)),
     (''discount_pct'', JFloat (s_discount_pct s)), (''paused_until'', date_json (s_paused_until s)),
     (''items'', JArr (map item_json items))]"

section \<open>Identity\<close>

definition scopeFor :: "principal option \<Rightarrow> scope \<times> bool" where
  "scopeFor p = (case p of
      None \<Rightarrow> (CustomerScope '''', False)
    | Some p \<Rightarrow> if p_kind p = KindService then (SystemScope, True) else (CustomerScope (p_customer p), True))"

definition caller_of :: "principal option \<Rightarrow> caller option" where
  "caller_of p = (case p of
      None \<Rightarrow> None
    | Some pr \<Rightarrow> (case scopeFor p of (sc, ok) \<Rightarrow>
        if ok then Some \<lparr>c_actor = Actor pr, c_scope = sc\<rparr> else None))"

section \<open>Creation\<close>

record create_item =
  ci_sku :: string
  ci_quantity :: int

record create_request =
  cr_customer_id :: string
  cr_customer_email :: string
  cr_origin_order_id :: string
  cr_interval_days :: int
  cr_anchor_date :: string
  cr_timezone :: string
  cr_payment_token_ref :: string
  cr_shipping_address_id :: string
  cr_discount_pct :: float64
  cr_items :: "create_item list"

definition create_zero :: create_request where
  "create_zero = \<lparr>cr_customer_id = '''', cr_customer_email = '''', cr_origin_order_id = '''',
     cr_interval_days = 0, cr_anchor_date = '''', cr_timezone = '''', cr_payment_token_ref = '''',
     cr_shipping_address_id = '''', cr_discount_pct = Fin 0, cr_items = []\<rparr>"

definition item_fields :: "(string \<times> create_item setter) list" where
  "item_fields = [(''sku'', string_field (\<lambda>v r. r\<lparr>ci_sku := v\<rparr>)),
     (''quantity'', int_field (\<lambda>v r. r\<lparr>ci_quantity := v\<rparr>))]"

definition create_fields :: "(string \<times> create_request setter) list" where
  "create_fields =
    [(''customer_id'', string_field (\<lambda>v r. r\<lparr>cr_customer_id := v\<rparr>)),
     (''customer_email'', string_field (\<lambda>v r. r\<lparr>cr_customer_email := v\<rparr>)),
     (''origin_order_id'', string_field (\<lambda>v r. r\<lparr>cr_origin_order_id := v\<rparr>)),
     (''interval_days'', int_field (\<lambda>v r. r\<lparr>cr_interval_days := v\<rparr>)),
     (''anchor_date'', string_field (\<lambda>v r. r\<lparr>cr_anchor_date := v\<rparr>)),
     (''timezone'', string_field (\<lambda>v r. r\<lparr>cr_timezone := v\<rparr>)),
     (''payment_token_ref'', string_field (\<lambda>v r. r\<lparr>cr_payment_token_ref := v\<rparr>)),
     (''shipping_address_id'', string_field (\<lambda>v r. r\<lparr>cr_shipping_address_id := v\<rparr>)),
     (''discount_pct'', float_field (\<lambda>v r. r\<lparr>cr_discount_pct := v\<rparr>)),
     (''items'', slice_field True item_fields \<lparr>ci_sku = '''', ci_quantity = 0\<rparr> (\<lambda>v r. r\<lparr>cr_items := v\<rparr>))]"

fun create_items :: "world \<Rightarrow> string \<Rightarrow> create_item list \<Rightarrow> schedule_item list option go" where
  "create_items W sid [] = ret (Some [])"
| "create_items W sid (it # its) =
    (if ci_sku it = '''' \<or> ci_quantity it < 1 then ret None
     else bind (new_id W) (\<lambda>i. bind (create_items W sid its) (\<lambda>rest.
       ret (map_option (\<lambda>items. \<lparr>i_id = i, i_schedule_id = sid, i_sku = ci_sku it,
         i_quantity = ci_quantity it, i_created_at = 0\<rparr> # items) rest))))"

definition created_schedule :: "string \<Rightarrow> create_request \<Rightarrow> date \<Rightarrow> float64 \<Rightarrow> schedule" where
  "created_schedule sid r anchor discountPct =
    \<lparr>s_id = sid, s_customer_id = cr_customer_id r, s_status = ScheduleActive,
     s_customer_email = cr_customer_email r, s_origin_order_id = cr_origin_order_id r,
     s_interval_days = cr_interval_days r, s_anchor_date = anchor, s_next_run_date = None,
     s_timezone = cr_timezone r, s_payment_token_ref = cr_payment_token_ref r,
     s_shipping_address_id = cr_shipping_address_id r, s_discount_pct = discountPct,
     s_paused_until = None, s_created_at = 0, s_updated_at = 0\<rparr>"

definition creation_event :: "schedule \<Rightarrow> schedule_event" where
  "creation_event s =
    \<lparr>e_id = 0, e_schedule_id = s_id s, e_event_type = EventScheduleCreated, e_actor = ActorSystem,
     e_reason_code = None,
     e_payload = Some (JObj [(''anchor_date'', JStr (String (s_anchor_date s))),
       (''interval_days'', JNum (s_interval_days s)), (''next_order_date'', JStr '''')]),
     e_idempotency_key = None, e_created_at = 0\<rparr>"

text \<open>From the validated schedule on: one transaction, then the answer. A second request for the
  same origin order is answered with the schedule the first one created.\<close>

definition insert_created :: "world \<Rightarrow> repository \<Rightarrow> schedule \<Rightarrow> schedule_item list \<Rightarrow> unit go" where
  "insert_created W repo s items = in_tx W (bind (CreateSchedule repo s items) (\<lambda>_. AppendEvent repo (creation_event s)))"

definition store_created :: "world \<Rightarrow> repository \<Rightarrow> schedule \<Rightarrow> schedule_item list \<Rightarrow> response go" where
  "store_created W repo s items =
    bind (attempt (insert_created W repo s items)) (\<lambda>r. case r of
      Inr _ \<Rightarrow> ret (writeJSON 201 (toResponse s items))
    | Inl e \<Rightarrow>
        if \<not> err_is e ErrDuplicateSchedule then reject 500 ''could not create schedule''
        else bind (attempt (GetScheduleByOriginOrderID repo (s_origin_order_id s))) (\<lambda>found. case found of
          Inl _ \<Rightarrow> reject 500 ''could not create schedule''
        | Inr existing \<Rightarrow>
            bind (attempt (ListScheduleItems repo (s_id existing) SystemScope)) (\<lambda>listed. case listed of
              Inl _ \<Rightarrow> reject 500 ''could not create schedule''
            | Inr existingItems \<Rightarrow> ret (writeJSON 200 (toResponse existing existingItems)))))"

definition Create :: "world \<Rightarrow> repository \<Rightarrow> request \<Rightarrow> response go" where
  "Create W repo r =
    (case decodeJSON create_fields create_zero r of
       Inl e \<Rightarrow> bad_body e
     | Inr req \<Rightarrow>
       if cr_customer_id req = '''' then reject 400 ''customer_id is required'' else
       (case ValidateEmail (w_parse_address W) (cr_customer_email req) of
          Some e \<Rightarrow> reject 400 (err_text e)
        | None \<Rightarrow>
       if cr_origin_order_id req = '''' then reject 400 ''origin_order_id is required'' else
       (case ValidateInterval (cr_interval_days req) of
          Some e \<Rightarrow> reject 400 (err_text e)
        | None \<Rightarrow>
       (case parseDate (cr_anchor_date req) of
          None \<Rightarrow> reject 400 ''anchor_date must be YYYY-MM-DD''
        | Some anchor \<Rightarrow>
       if cr_timezone req = '''' then reject 400 ''timezone is required'' else
       (case w_load_location W (cr_timezone req) of
          None \<Rightarrow> reject 400 ''timezone must be a valid IANA name''
        | Some _ \<Rightarrow>
       if cr_items req = [] then reject 400 ''at least one item is required'' else
       (case NormalizeDiscountPct (cr_discount_pct req) of
          Inl e \<Rightarrow> reject 400 (err_text e)
        | Inr discountPct \<Rightarrow>
            bind (new_id W) (\<lambda>sid.
            bind (create_items W sid (cr_items req)) (\<lambda>items. case items of
              None \<Rightarrow> reject 400 ''each item needs a sku and a quantity of at least 1''
            | Some items \<Rightarrow> store_created W repo (created_schedule sid req anchor discountPct) items))))))))"

section \<open>Reading\<close>

text \<open>\<open>GetSchedule\<close> under the caller's scope, and the two ways it ends.\<close>

definition with_schedule :: "repository \<Rightarrow> string \<Rightarrow> principal option \<Rightarrow> (schedule \<Rightarrow> scope \<Rightarrow> response go) \<Rightarrow> response go" where
  "with_schedule repo i p k =
    (case scopeFor p of (sc, ok) \<Rightarrow>
     if \<not> ok then reject 500 ''could not read schedule''
     else bind (attempt (GetSchedule repo i sc)) (\<lambda>r. case r of
       Inl e \<Rightarrow> if err_is e ErrNotFound then reject 404 ''schedule not found''
                else reject 500 ''could not read schedule''
     | Inr s \<Rightarrow> k s sc))"

definition Get :: "repository \<Rightarrow> string \<Rightarrow> principal option \<Rightarrow> response go" where
  "Get repo i p = with_schedule repo i p (\<lambda>s sc.
     bind (attempt (ListScheduleItems repo i sc)) (\<lambda>r. case r of
       Inl _ \<Rightarrow> reject 500 ''could not read schedule items''
     | Inr items \<Rightarrow> ret (writeJSON 200 (toResponse s items))))"

definition occurrence_json :: "occurrence \<Rightarrow> json" where
  "occurrence_json oc = JObj
    [(''sequence_no'', JNum (o_sequence_no oc)), (''scheduled_for'', JStr (String (o_scheduled_for oc))),
     (''status'', JStr (occurrence_status_text (o_status oc))),
     (''order_id'', case o_order_id oc of None \<Rightarrow> JNull | Some i \<Rightarrow> JStr i)]"

definition Upcoming :: "repository \<Rightarrow> string \<Rightarrow> principal option \<Rightarrow> response go" where
  "Upcoming repo i p = with_schedule repo i p (\<lambda>s sc.
     bind (attempt (ListOccurrences repo i sc)) (\<lambda>r. case r of
       Inl _ \<Rightarrow> reject 500 ''could not read upcoming orders''
     | Inr occurrences \<Rightarrow>
         ret (writeJSON 200 (JObj [(''occurrences'', JArr (map occurrence_json occurrences))]))))"

fun list_responses :: "repository \<Rightarrow> scope \<Rightarrow> schedule list \<Rightarrow> json list \<Rightarrow> response go" where
  "list_responses repo sc [] out = ret (writeJSON 200 (JObj [(''schedules'', JArr out)]))"
| "list_responses repo sc (s # ss) out =
    bind (attempt (ListScheduleItems repo (s_id s) sc)) (\<lambda>r. case r of
      Inl _ \<Rightarrow> reject 500 ''could not read schedule items''
    | Inr items \<Rightarrow> list_responses repo sc ss (out @ [toResponse s items]))"

definition ListByCustomer :: "repository \<Rightarrow> string \<Rightarrow> principal option \<Rightarrow> response go" where
  "ListByCustomer repo customerID p =
    (case p of
       None \<Rightarrow> reject 500 ''could not read schedules''
     | Some pr \<Rightarrow>
        if \<not> OwnsCustomer pr customerID then reject 404 ''customer not found''
        else (case scopeFor p of (sc, ok) \<Rightarrow>
          if \<not> ok then reject 500 ''could not read schedules''
          else bind (attempt (ListSchedulesByCustomer repo customerID)) (\<lambda>r. case r of
            Inl _ \<Rightarrow> reject 500 ''could not read schedules''
          | Inr schedules \<Rightarrow> list_responses repo sc schedules [])))"

section \<open>Transitions\<close>

definition respond :: "repository \<Rightarrow> go_error + schedule \<Rightarrow> caller \<Rightarrow> response go" where
  "respond repo r c =
    (case r of
       Inl e \<Rightarrow>
         if err_is e ErrNotFound then reject 404 ''schedule not found''
         else (case as_transition_error e of
             Some (_, _, message) \<Rightarrow> reject 409 message
           | None \<Rightarrow> reject 500 ''could not update this schedule'')
     | Inr s \<Rightarrow> bind (attempt (ListScheduleItems repo (s_id s) (c_scope c))) (\<lambda>listed. case listed of
           Inl _ \<Rightarrow> reject 500 ''could not read schedule items''
         | Inr items \<Rightarrow> ret (writeJSON 200 (toResponse s items))))"

definition act_as :: "repository \<Rightarrow> principal option \<Rightarrow> (caller \<Rightarrow> schedule go) \<Rightarrow> response go" where
  "act_as repo p action =
    (case caller_of p of
       None \<Rightarrow> reject 500 ''could not update this schedule''
     | Some c \<Rightarrow> bind (attempt (action c)) (\<lambda>r. respond repo r c))"

definition HandlePause :: "world \<Rightarrow> service \<Rightarrow> repository \<Rightarrow> string \<Rightarrow> principal option \<Rightarrow> request \<Rightarrow> response go" where
  "HandlePause W svc repo i p r =
    (case decode_optional [(''paused_until'', string_field (\<lambda>v _. v))] '''' r of
       Inl e \<Rightarrow> bad_body e
     | Inr text \<Rightarrow>
         if text = '''' then act_as repo p (Pause W svc i None)
         else (case parseDate text of
             None \<Rightarrow> reject 400 ''paused_until must be YYYY-MM-DD''
           | Some d \<Rightarrow> act_as repo p (Pause W svc i (Some d))))"

definition HandleResume :: "world \<Rightarrow> service \<Rightarrow> repository \<Rightarrow> string \<Rightarrow> principal option \<Rightarrow> response go" where
  "HandleResume W svc repo i p = act_as repo p (Resume W svc i)"

definition HandleSkip :: "world \<Rightarrow> service \<Rightarrow> repository \<Rightarrow> string \<Rightarrow> principal option \<Rightarrow> request \<Rightarrow> response go" where
  "HandleSkip W svc repo i p r =
    (case decode_optional [(''idempotency_key'', string_field (\<lambda>v _. v))] '''' r of
       Inl e \<Rightarrow> bad_body e
     | Inr key \<Rightarrow>
        (case ValidateIdempotencyKey key of
           Some e \<Rightarrow> reject 400 (err_text e)
         | None \<Rightarrow> act_as repo p (SkipNext W svc i key)))"

definition HandleDefer :: "world \<Rightarrow> service \<Rightarrow> repository \<Rightarrow> string \<Rightarrow> principal option \<Rightarrow> request \<Rightarrow> response go" where
  "HandleDefer W svc repo i p r =
    (case decode_optional [(''days'', int_field (\<lambda>v d. (v, snd d))),
             (''idempotency_key'', string_field (\<lambda>v d. (fst d, v)))] (0, '''') r of
       Inl e \<Rightarrow> bad_body e
     | Inr (days, key) \<Rightarrow>
        (case ValidateDeferDays days of
           Some e \<Rightarrow> reject 400 (err_text e)
         | None \<Rightarrow>
            (case ValidateIdempotencyKey key of
               Some e \<Rightarrow> reject 400 (err_text e)
             | None \<Rightarrow> act_as repo p (Defer W svc i days key))))"

definition HandleCadence :: "world \<Rightarrow> service \<Rightarrow> repository \<Rightarrow> string \<Rightarrow> principal option \<Rightarrow> request \<Rightarrow> response go" where
  "HandleCadence W svc repo i p r =
    (case decode_optional [(''interval_days'', int_field (\<lambda>v _. v))] 0 r of
       Inl e \<Rightarrow> bad_body e
     | Inr days \<Rightarrow>
        (case ValidateInterval days of
           Some e \<Rightarrow> reject 400 (err_text e)
         | None \<Rightarrow> act_as repo p (ChangeCadence W svc i days)))"

definition HandleCancel :: "world \<Rightarrow> service \<Rightarrow> repository \<Rightarrow> string \<Rightarrow> principal option \<Rightarrow> request \<Rightarrow> response go" where
  "HandleCancel W svc repo i p r =
    (case decode_optional [(''reason_code'', string_field (\<lambda>v _. v))] '''' r of
       Inl e \<Rightarrow> bad_body e
     | Inr reason \<Rightarrow>
        (case ValidateCancellationReason reason of
           Some e \<Rightarrow> reject 400 (err_text e)
         | None \<Rightarrow> act_as repo p (Cancel W svc i reason)))"

end
