(* ===== verification/Router.thy ===== *)
theory Router
  imports HttpApi
begin

text \<open>
  \<open>internal/httpapi\<close>: \<open>middleware.go\<close>, \<open>health.go\<close> and \<open>router.go\<close>. \<open>route\<close> is what \<open>ServeMux\<close>
  answers for the patterns of \<open>NewServiceRouter\<close>; every pattern but the public ones goes through
  the middleware of its group before its handler runs.
\<close>

section \<open>Health\<close>

text \<open>What the probe observes: whether the database answers, and the migration status if one is
  wired: an error, or whether all are applied and how many are pending.\<close>

record health =
  hc_ping :: bool
  hc_migrations :: "(go_error + bool \<times> int) option"
  hc_build :: string

definition health_body :: "string \<Rightarrow> string \<Rightarrow> string \<Rightarrow> string \<Rightarrow> int \<Rightarrow> string \<Rightarrow> json" where
  "health_body status build database migrations pending detail = JObj
    ([(''status'', JStr status), (''build_sha'', JStr build), (''database'', JStr database),
      (''migrations'', JStr migrations)]
     @ (if pending = 0 then [] else [(''pending_migrations'', JNum pending)])
     @ (if detail = '''' then [] else [(''detail'', JStr detail)]))"

definition Health :: "health \<Rightarrow> response" where
  "Health h =
    (let answer = (\<lambda>code body. \<lparr>rs_code = code,
           rs_headers = [(''Content-Type'', ''application/json''), (''Cache-Control'', ''no-store'')], rs_body = body\<rparr>) in
     if \<not> hc_ping h
     then answer 503 (health_body ''unhealthy'' (hc_build h) ''unreachable'' ''unknown'' 0 ''database unreachable'')
     else (case hc_migrations h of
         Some (Inl e) \<Rightarrow> answer 503 (health_body ''unhealthy'' (hc_build h) ''ok'' ''unknown'' 0 (err_text e))
       | Some (Inr (applied, pending)) \<Rightarrow>
           if \<not> applied then answer 503 (health_body ''unhealthy'' (hc_build h) ''ok'' ''pending'' pending '''')
           else answer 200 (health_body ''ok'' (hc_build h) ''ok'' ''applied'' 0 '''')
       | None \<Rightarrow> answer 200 (health_body ''ok'' (hc_build h) ''ok'' ''applied'' 0 '''')))"

section \<open>The server\<close>

record server =
  sv_repo :: repository
  sv_service :: service
  sv_tokens :: token_verifier
  sv_key :: service_key
  sv_health :: health
  sv_sha256 :: "string \<Rightarrow> string"
  sv_jwt :: jwt_parser
  sv_console :: "request \<Rightarrow> response"

definition unauthorized :: response where
  "unauthorized =
    (let r = writeError 401 ''valid credentials are required'' in
     r\<lparr>rs_headers := (''WWW-Authenticate'', ''Bearer realm='' @ [CHR 0x22] @ ''cadenceos'' @ [CHR 0x22]) # rs_headers r\<rparr>)"

definition authenticate :: "(principal \<Rightarrow> response go) \<Rightarrow> (string \<Rightarrow> principal go) \<Rightarrow> request \<Rightarrow> response go" where
  "authenticate next_handler verify r =
    (case ParseBearer (rq_authorization r) of
       Inl _ \<Rightarrow> ret unauthorized
     | Inr credential \<Rightarrow>
         bind (attempt (verify credential)) (\<lambda>v. case v of
           Inl _ \<Rightarrow> ret unauthorized
         | Inr p \<Rightarrow> next_handler p))"

definition from_sum :: "go_error + 'a \<Rightarrow> 'a go" where
  "from_sum v = (case v of Inl e \<Rightarrow> throw e | Inr a \<Rightarrow> ret a)"

definition RequireCustomer :: "world \<Rightarrow> server \<Rightarrow> request \<Rightarrow> (principal option \<Rightarrow> response go) \<Rightarrow> response go" where
  "RequireCustomer W sv r handler = authenticate (\<lambda>p. handler (Some p))
     (\<lambda>credential. bind (clock W) (\<lambda>now. from_sum (VerifyToken (sv_jwt sv) (sv_tokens sv) now credential))) r"

definition RequireService :: "server \<Rightarrow> request \<Rightarrow> (principal option \<Rightarrow> response go) \<Rightarrow> response go" where
  "RequireService sv r handler = authenticate (\<lambda>p. handler (Some p))
     (\<lambda>credential. from_sum (VerifyKey (sv_sha256 sv) (sv_key sv) credential)) r"

section \<open>Routing\<close>

datatype transition_kind = TPause | TResume | TSkip | TDefer | TCadence | TCancel

datatype endpoint =
  EHealth | EConsoleRedirect | EConsole | ECreate | EGet string | EUpcoming string
| EListByCustomer string | ETransition transition_kind string

definition transition_named :: "string \<Rightarrow> transition_kind option" where
  "transition_named s = map_of
    [(''pause'', TPause), (''resume'', TResume), (''skip'', TSkip), (''defer'', TDefer),
     (''cadence'', TCadence), (''cancel'', TCancel)] s"

text \<open>The pattern a path matches, with its method; a wildcard takes one nonempty segment.\<close>

definition pattern_of :: "string list \<Rightarrow> (string \<times> endpoint) option" where
  "pattern_of path =
    (if path = [''healthz''] then Some (''GET'', EHealth)
     else if path = [''console''] then Some (''GET'', EConsoleRedirect)
     else if path = [''schedules''] then Some (''POST'', ECreate)
     else (case path of
         [a, b] \<Rightarrow>
           if a = ''schedules'' \<and> b \<noteq> '''' then Some (''GET'', EGet b)
           else if a = ''console'' then Some (''GET'', EConsole) else None
       | [a, b, c] \<Rightarrow>
           if a = ''schedules'' \<and> b \<noteq> '''' \<and> c = ''occurrences'' then Some (''GET'', EUpcoming b)
           else if a = ''schedules'' \<and> b \<noteq> '''' \<and> transition_named c \<noteq> None
             then Some (''POST'', ETransition (the (transition_named c)) b)
           else if a = ''customers'' \<and> b \<noteq> '''' \<and> c = ''schedules'' then Some (''GET'', EListByCustomer b)
           else if a = ''console'' then Some (''GET'', EConsole) else None
       | a # b # c # d # _ \<Rightarrow> if a = ''console'' then Some (''GET'', EConsole) else None
       | _ \<Rightarrow> None))"

datatype routed = NotFound | MethodNotAllowed | Routed endpoint

text \<open>A \<open>GET\<close> pattern also serves \<open>HEAD\<close>.\<close>

definition route :: "string \<Rightarrow> string list \<Rightarrow> routed" where
  "route http_method path =
    (case pattern_of path of
       None \<Rightarrow> NotFound
     | Some (m, e) \<Rightarrow>
         if http_method = m \<or> m = ''GET'' \<and> http_method = ''HEAD'' then Routed e else MethodNotAllowed)"

definition plain :: "nat \<Rightarrow> string \<Rightarrow> response" where
  "plain code message = \<lparr>rs_code = code, rs_headers = [(''Content-Type'', ''text/plain; charset=utf-8'')],
     rs_body = JStr message\<rparr>"

definition handle_transition ::
    "world \<Rightarrow> server \<Rightarrow> transition_kind \<Rightarrow> string \<Rightarrow> request \<Rightarrow> principal option \<Rightarrow> response go" where
  "handle_transition W sv k i r p =
    (case k of
       TPause \<Rightarrow> HandlePause W (sv_service sv) (sv_repo sv) i p r
     | TResume \<Rightarrow> HandleResume W (sv_service sv) (sv_repo sv) i p
     | TSkip \<Rightarrow> HandleSkip W (sv_service sv) (sv_repo sv) i p r
     | TDefer \<Rightarrow> HandleDefer W (sv_service sv) (sv_repo sv) i p r
     | TCadence \<Rightarrow> HandleCadence W (sv_service sv) (sv_repo sv) i p r
     | TCancel \<Rightarrow> HandleCancel W (sv_service sv) (sv_repo sv) i p r)"

definition serve :: "world \<Rightarrow> server \<Rightarrow> request \<Rightarrow> response go" where
  "serve W sv r =
    (case route (rq_method r) (rq_path r) of
       NotFound \<Rightarrow> ret (plain 404 ''404 page not found'')
     | MethodNotAllowed \<Rightarrow> ret (plain 405 ''Method Not Allowed'')
     | Routed e \<Rightarrow>
        (case e of
           EHealth \<Rightarrow> ret (Health (sv_health sv))
         | EConsoleRedirect \<Rightarrow> ret \<lparr>rs_code = 307, rs_headers = [(''Location'', ''/console/'')], rs_body = JNull\<rparr>
         | EConsole \<Rightarrow> ret (sv_console sv r)
         | ECreate \<Rightarrow> RequireService sv r (\<lambda>p. Create W (sv_repo sv) r)
         | EGet i \<Rightarrow> RequireCustomer W sv r (Get (sv_repo sv) i)
         | EUpcoming i \<Rightarrow> RequireCustomer W sv r (Upcoming (sv_repo sv) i)
         | EListByCustomer c \<Rightarrow> RequireCustomer W sv r (ListByCustomer (sv_repo sv) c)
         | ETransition k i \<Rightarrow> RequireCustomer W sv r (handle_transition W sv k i r)))"

text \<open>\<open>NewRouter\<close>, the routes without the service: the same answers on the public endpoints, and a 404
  or 405 for everything else.\<close>

definition NewRouter :: "health \<Rightarrow> (request \<Rightarrow> response) \<Rightarrow> request \<Rightarrow> response" where
  "NewRouter h console r =
    (let get = rq_method r \<in> {''GET'', ''HEAD''} in
     case rq_path r of
       [] \<Rightarrow> plain 404 ''404 page not found''
     | a # rest \<Rightarrow>
        if a = ''healthz'' \<and> rest = [] then if get then Health h else plain 405 ''Method Not Allowed''
        else if a = ''console'' then
          if \<not> get then plain 405 ''Method Not Allowed''
          else if rest = [] then \<lparr>rs_code = 307, rs_headers = [(''Location'', ''/console/'')], rs_body = JNull\<rparr>
          else console r
        else plain 404 ''404 page not found'')"

lemma public_endpoints_agree:
  assumes "case rq_path r of [] \<Rightarrow> True | a # rest \<Rightarrow> a = ''console'' \<or> a = ''healthz'' \<and> rest = []"
  shows "serve W sv r s = (Inr (NewRouter (sv_health sv) (sv_console sv) r), s)"
  using assms
  by (auto simp: serve_def NewRouter_def route_def pattern_of_def ret_def Let_def split: list.splits)

section \<open>Handlers always answer\<close>

text \<open>\<open>answers m\<close>: the program ends in a value, never in an error of its own.\<close>

definition answers :: "'a go \<Rightarrow> bool" where
  "answers m = (\<forall>s. \<not> isl (fst (m s)))"

named_theorems go_answers \<open>programs that always answer\<close>

lemma answers_ret [go_answers]: "answers (ret a)" "answers (reject code msg)"
  by (simp_all add: answers_def ret_def reject_def)

lemma answers_attempt: "answers (attempt m)"
  by (simp add: answers_def attempt_def split: prod.splits)

lemma answers_bind [go_answers]: "answers m \<Longrightarrow> (\<And>a. answers (f a)) \<Longrightarrow> answers (bind m f)"
  unfolding answers_def bind_def by (auto split: prod.splits sum.splits) (metis fst_conv isl_def)+

lemma answers_attempt_bind [go_answers]: "(\<And>r. answers (f r)) \<Longrightarrow> answers (bind (attempt m) f)"
  by (rule answers_bind [OF answers_attempt])

lemma answers_draws [go_answers]: "answers (new_id W)" "answers (clock W)"
  by (simp_all add: answers_def new_id_def clock_def gets_def)

lemma answers_cases [go_answers]:
  "answers m \<Longrightarrow> answers m' \<Longrightarrow> answers (if b then m else m')"
  "answers m \<Longrightarrow> (\<And>a. answers (f a)) \<Longrightarrow> answers (case v of None \<Rightarrow> m | Some a \<Rightarrow> f a)"
  "(\<And>e. answers (g e)) \<Longrightarrow> (\<And>a. answers (f a)) \<Longrightarrow> answers (case w of Inl e \<Rightarrow> g e | Inr a \<Rightarrow> f a)"
  "(\<And>x y. answers (h x y)) \<Longrightarrow> answers (case p of (x, y) \<Rightarrow> h x y)"
  by (auto split: option.splits sum.splits prod.splits)

lemma answers_create_items [go_answers]: "answers (create_items W sid its)"
  by (induction its) (auto intro!: answers_ret answers_bind answers_draws)

lemma answers_list_responses [go_answers]: "answers (list_responses repo sc ss out)"
  by (induction ss arbitrary: out) (auto intro!: answers_ret answers_attempt_bind split: sum.splits)

lemma answers_respond [go_answers]: "answers (respond repo r c)"
  unfolding respond_def by (intro go_answers)

lemma answers_act_as [go_answers]: "answers (act_as repo p action)"
  unfolding act_as_def by (intro go_answers)

lemma answers_with_schedule: "(\<And>s sc. answers (k s sc)) \<Longrightarrow> answers (with_schedule repo i p k)"
  unfolding with_schedule_def by (intro go_answers)

lemma answers_handlers [go_answers]:
  "answers (Create W repo r)" "answers (Get repo i p)" "answers (Upcoming repo i p)" "answers (ListByCustomer repo c p)"
  unfolding Create_def store_created_def bad_body_def Get_def Upcoming_def ListByCustomer_def
  by (intro go_answers answers_with_schedule)+

lemma answers_transitions [go_answers]: "answers (handle_transition W sv k i r p)"
  unfolding handle_transition_def HandlePause_def HandleResume_def HandleSkip_def HandleDefer_def HandleCadence_def
    HandleCancel_def bad_body_def
  by (cases k; simp; intro go_answers)

lemma answers_authenticate [go_answers]: "(\<And>p. answers (h p)) \<Longrightarrow> answers (authenticate h verify r)"
  unfolding authenticate_def by (intro go_answers)

lemma answers_serve: "answers (serve W sv r)"
proof (cases "route (rq_method r) (rq_path r)")
  case (Routed e)
  then show ?thesis
    unfolding serve_def RequireCustomer_def RequireService_def
    by (cases e; simp; intro go_answers)
qed (simp_all add: serve_def answers_ret)

section \<open>Whose request it is\<close>

lemma authenticate_run:
  assumes "\<And>c. verify c s = (v c, s)"
  shows "authenticate h verify r s =
    (case ParseBearer (rq_authorization r) of
       Inl _ \<Rightarrow> (Inr unauthorized, s)
     | Inr c \<Rightarrow> (case v c of Inl _ \<Rightarrow> (Inr unauthorized, s) | Inr p \<Rightarrow> h p s))"
  by (simp add: authenticate_def bind_def attempt_def ret_def assms split: sum.splits)

text \<open>A middleware either refuses without touching anything or runs the handler for the principal
  its verifier returned.\<close>

lemma RequireCustomer_run:
  "RequireCustomer W sv r handler s =
    (case ParseBearer (rq_authorization r) of
       Inl _ \<Rightarrow> (Inr unauthorized, s)
     | Inr c \<Rightarrow> (case VerifyToken (sv_jwt sv) (sv_tokens sv) (w_now W (st_ticks s)) c of
         Inl _ \<Rightarrow> (Inr unauthorized, s) | Inr p \<Rightarrow> handler (Some p) s))"
  unfolding RequireCustomer_def
  by (rule authenticate_run) (simp add: bind_def clock_def gets_def from_sum_def throw_def ret_def split: sum.splits)

lemma RequireService_run:
  "RequireService sv r handler s =
    (case ParseBearer (rq_authorization r) of
       Inl _ \<Rightarrow> (Inr unauthorized, s)
     | Inr c \<Rightarrow> (case VerifyKey (sv_sha256 sv) (sv_key sv) c of
         Inl _ \<Rightarrow> (Inr unauthorized, s) | Inr p \<Rightarrow> handler (Some p) s))"
  unfolding RequireService_def
  by (rule authenticate_run) (simp add: from_sum_def throw_def ret_def split: sum.splits)

end
