(* ===== verification/Creation.thy ===== *)
theory Creation
  imports System Router
begin

text \<open>
  \<open>POST /schedules\<close> against the step relation: what a committed creation adds to the database, and
  the whole HTTP surface as programs that take the database through steps.
\<close>

section \<open>The transaction\<close>

definition schedule_row_of :: "int \<Rightarrow> string \<Rightarrow> rat \<Rightarrow> schedule \<Rightarrow> schedule_row" where
  "schedule_row_of t u x s =
    \<lparr>sr_id = u, sr_customer_id = s_customer_id s, sr_customer_email = s_customer_email s,
     sr_status = s_status s, sr_interval_days = s_interval_days s,
     sr_anchor_date = ToTime (s_anchor_date s), sr_next_run_date = datePtr (s_next_run_date s),
     sr_timezone = s_timezone s, sr_payment_token_ref = nullStr (s_payment_token_ref s),
     sr_shipping_address_id = nullStr (s_shipping_address_id s),
     sr_discount_pct = numeric_of x, sr_paused_until = datePtr (s_paused_until s),
     sr_origin_order_id = s_origin_order_id s, sr_created_at = t, sr_updated_at = t\<rparr>"

definition add_schedule :: "schedule_row \<Rightarrow> item_row list \<Rightarrow> db \<Rightarrow> db" where
  "add_schedule r items d = d\<lparr>db_schedules := db_schedules d @ [r], db_items := db_items d @ items\<rparr>"

lemma insert_schedule_fresh:
  "insert_schedule r d = Inr d' \<Longrightarrow> \<not> schedule_exists d (sr_id r)
     \<and> sr_origin_order_id r \<notin> set (map sr_origin_order_id (db_schedules d)) \<and> d' = add_schedule r [] d"
  by (auto simp: insert_schedule_def broken_None checks_hold_def schedule_exists_def add_schedule_def
      split: option.splits)

lemma q_insert_schedule_Inr:
  assumes "q_insert_schedule W s t d = Inr (a, d')"
  shows "\<exists>u x. w_uuid_in W (s_id s) = Some u \<and> s_discount_pct s = Fin x \<and> \<not> schedule_exists d u
      \<and> s_origin_order_id s \<notin> set (map sr_origin_order_id (db_schedules d))
      \<and> d' = add_schedule (schedule_row_of t u x s) [] d"
proof -
  from assms obtain u x where u: "w_uuid_in W (s_id s) = Some u" "s_discount_pct s = Fin x"
    and ins: "insert_schedule (schedule_row_of t u x s) d = Inr d'"
    by (auto simp: q_insert_schedule_def schedule_row_of_def split: option.splits sum.splits float64.splits)
  show ?thesis using u insert_schedule_fresh [OF ins] by (auto simp: schedule_row_of_def)
qed

lemma q_insert_item_Inr:
  "q_insert_item W sid it t d = Inr (a, d') \<Longrightarrow> \<exists>ir. d' = d\<lparr>db_items := db_items d @ [ir]\<rparr>"
  by (auto simp: q_insert_item_def insert_item_def split: option.splits sum.splits)

lemma triple_insert_items:
  "triple t (\<lambda>d. \<forall>its. Q () (d\<lparr>db_items := db_items d @ its\<rparr>))
     (for_each items (\<lambda>it. wrapping (what it) (stmt W (q_insert_item W sid it)))) Q any_error"
proof (induction items)
  case (Cons it items)
  show ?case
    unfolding for_each.simps
  proof (rule triple_bind)
    show "triple t (\<lambda>d. \<forall>its. Q () (d\<lparr>db_items := db_items d @ its\<rparr>))
        (for_each items (\<lambda>it. wrapping (what it) (stmt W (q_insert_item W sid it)))) Q any_error" for a :: unit
      by (rule Cons.IH)
  qed (rule triple_wrapping, rule triple_pre [OF triple_stmt], auto dest!: q_insert_item_Inr)
qed (simp, rule triple_pre [OF triple_ret], drule spec [of _ "[]"], simp)

lemma triple_CreateSchedule:
  "triple t (\<lambda>d. \<forall>u x its. w_uuid_in W (s_id s) = Some u \<longrightarrow>
        NormalizeDiscountPct (s_discount_pct s) = Inr (Fin x) \<longrightarrow> \<not> schedule_exists d u \<longrightarrow>
        s_origin_order_id s \<notin> set (map sr_origin_order_id (db_schedules d)) \<longrightarrow>
        Q () (add_schedule (schedule_row_of t u x s) its d))
     (pg_CreateSchedule W s items) Q any_error"
proof (cases "NormalizeDiscountPct (s_discount_pct s)")
  case (Inl e)
  then show ?thesis unfolding pg_CreateSchedule_def
    by (auto intro!: triple_pre [OF triple_bind [OF triple_throw triple_check]] split: option.splits)
next
  case (Inr pct)
  let ?s = "s\<lparr>s_discount_pct := pct\<rparr>"
  let ?mid = "\<lambda>d. \<forall>its. Q () (d\<lparr>db_items := db_items d @ its\<rparr>)"
  have rest: "triple t (case r of Inl _ \<Rightarrow> (\<lambda>_. True) | Inr _ \<Rightarrow> ?mid) (case r of
       Inl e \<Rightarrow> if isUniqueViolation e ''schedules_origin_order_id_unique'' then throw ErrDuplicateSchedule
                else throw (Wrapped ''insert schedule: '' e '''')
     | Inr _ \<Rightarrow> for_each items (\<lambda>it.
         wrapping (''insert schedule item '' @ i_sku it @ '': '') (stmt W (q_insert_item W (s_id s) it)))) Q any_error"
    for r :: "go_error + unit"
    by (cases r) (auto intro: triple_insert_items triple_pre [OF triple_throw])
  have body: "triple t
      (\<lambda>d. \<forall>u x. w_uuid_in W (s_id s) = Some u \<longrightarrow> pct = Fin x \<longrightarrow> \<not> schedule_exists d u \<longrightarrow>
        s_origin_order_id s \<notin> set (map sr_origin_order_id (db_schedules d)) \<longrightarrow>
        ?mid (add_schedule (schedule_row_of t u x s) [] d))
      (bind (attempt (stmt W (q_insert_schedule W ?s))) (\<lambda>r. case r of
         Inl e \<Rightarrow> if isUniqueViolation e ''schedules_origin_order_id_unique'' then throw ErrDuplicateSchedule
                  else throw (Wrapped ''insert schedule: '' e '''')
       | Inr _ \<Rightarrow> for_each items (\<lambda>it.
           wrapping (''insert schedule item '' @ i_sku it @ '': '') (stmt W (q_insert_item W (s_id s) it))))) Q any_error"
    by (rule triple_bind, rule rest, rule triple_attempt, rule triple_pre [OF triple_stmt])
      (auto simp: schedule_row_of_def dest!: q_insert_schedule_Inr)
  show ?thesis
    unfolding pg_CreateSchedule_def Inr sum.case
    by (rule triple_pre, rule triple_bind, rule triple_option, rule triple_throw, rule triple_in_tx, rule body,
        rule triple_check)
      (auto simp: Inr add_schedule_def split: option.splits)
qed

text \<open>A committed creation: the new row, its items and its event, and nothing else.\<close>

definition created_to :: "world \<Rightarrow> int \<Rightarrow> schedule \<Rightarrow> db \<Rightarrow> db \<Rightarrow> bool" where
  "created_to W t s d d' =
    (\<exists>u x its. w_uuid_in W (s_id s) = Some u \<and> NormalizeDiscountPct (s_discount_pct s) = Inr (Fin x)
       \<and> \<not> schedule_exists d u \<and> s_origin_order_id s \<notin> set (map sr_origin_order_id (db_schedules d))
       \<and> d' = log_event (event_of t u (creation_event s)) (add_schedule (schedule_row_of t u x s) its d))"

lemma insert_created_commits:
  assumes "insert_created W (postgres W) s items ss = (Inr out, ss')" and "st_tx ss = None"
  shows "created_to W (w_dbnow W (st_ticks ss)) s (begun W ss) (st_db ss')"
proof -
  have tri: "triple t (\<lambda>d. d = begun W ss)
      (bind (pg_CreateSchedule W s items) (\<lambda>_. pg_AppendEvent W (creation_event s)))
      (\<lambda>_. created_to W t s (begun W ss)) any_error" for t
    by (rule triple_pre, rule triple_bind, rule triple_AppendEvent, rule triple_CreateSchedule)
      (auto simp: created_to_def creation_event_def add_schedule_def schedule_exists_def)
  have "in_tx W (bind (pg_CreateSchedule W s items) (\<lambda>_. pg_AppendEvent W (creation_event s))) ss = (Inr out, ss')"
    using assms(1) by (simp add: insert_created_def)
  from in_tx_commits [where Q = "\<lambda>t _. created_to W t s (begun W ss)", OF this assms(2) tri refl]
  show ?thesis by simp
qed

lemma created_to_step:
  assumes "created_to W t s d d'" and "s_status s = ScheduleActive"
  shows "step W horizon d d'"
proof -
  from assms(1) obtain u x its where r: "\<not> schedule_exists d u"
    and d': "d' = log_event (event_of t u (creation_event s)) (add_schedule (schedule_row_of t u x s) its d)"
    by (auto simp: created_to_def)
  have "d' = created_db t (schedule_row_of t u x s) its (er_payload (event_of t u (creation_event s))) d"
    unfolding d' by (simp add: created_db_def created_event_def add_schedule_def event_of_def creation_event_def
        schedule_row_of_def)
  moreover have "sr_status (schedule_row_of t u x s) = ScheduleActive" "\<not> schedule_exists d (sr_id (schedule_row_of t u x s))"
    using r assms(2) by (simp_all add: schedule_row_of_def)
  ultimately show ?thesis by (auto intro: step_create)
qed

lemma insert_created_top:
  assumes "s_status s = ScheduleActive"
  shows "top (serves W horizon) (insert_created W (postgres W) s items)"
proof (rule one_step_top)
  show "stays (under W keeps_constraints) (insert_created W (postgres W) s items)"
    unfolding insert_created_def
    by (intro constraints.in_tx_stays constraints.bind_stays constraints.CreateSchedule_stays
        constraints.AppendEvent_stays)
  show tx: "st_tx ss' = None" if "st_tx ss = None" "insert_created W (postgres W) s items ss = (r, ss')" for ss r ss'
    using that unfolding insert_created_def by (rule in_tx_no_tx)
  fix ss r ss'
  assume run: "st_tx ss = None" "insert_created W (postgres W) s items ss = (r, ss')"
  show "st_tx ss' = None \<and> (st_db ss' = st_db ss \<or> st_db ss' = begun W ss \<or> step W horizon (begun W ss) (st_db ss'))"
  proof (cases r)
    case (Inl e)
    then show ?thesis using in_tx_rolls_back run unfolding insert_created_def by blast
  next
    case (Inr out)
    then show ?thesis
      using tx [OF run] insert_created_commits [OF _ run(1)] run(2) created_to_step assms by blast
  qed
qed

section \<open>The HTTP surface\<close>

context rely
begin

lemma more_reads_top [go_top]:
  "top R (pg_GetScheduleByOriginOrderID W i)" "top R (pg_ListOccurrences W i sc)"
  "top R (pg_ListSchedulesByCustomer W c)"
  by (auto simp: pg_GetScheduleByOriginOrderID_def one_row_def querySchedules_def pg_ListSchedulesByCustomer_def
      pg_ListOccurrences_def queryOccurrences_def split: option.splits intro!: go_top read_top)

lemma cases_top [go_top]:
  "top R m \<Longrightarrow> top R m' \<Longrightarrow> top R (if b then m else m')"
  "top R m \<Longrightarrow> (\<And>a. top R (f a)) \<Longrightarrow> top R (case v of None \<Rightarrow> m | Some a \<Rightarrow> f a)"
  "(\<And>e. top R (g e)) \<Longrightarrow> (\<And>a. top R (f a)) \<Longrightarrow> top R (case w of Inl e \<Rightarrow> g e | Inr a \<Rightarrow> f a)"
  "(\<And>x y. top R (h x y)) \<Longrightarrow> top R (case p of (x, y) \<Rightarrow> h x y)"
  by (auto split: option.splits sum.splits prod.splits)

lemma reject_top [go_top]: "top R (reject code msg)"
  by (simp add: reject_def ret_top)

lemma create_items_top [go_top]: "top R (create_items W sid its)"
  by (induction its) (auto intro!: go_top)

lemma list_responses_top [go_top]: "top R (list_responses (postgres W) sc ss out)"
  by (induction ss arbitrary: out) (auto intro!: go_top split: sum.splits)

lemma reading_top [go_top]:
  "top R (Get (postgres W) i p)" "top R (Upcoming (postgres W) i p)" "top R (ListByCustomer (postgres W) c p)"
  unfolding Get_def Upcoming_def ListByCustomer_def with_schedule_def postgres_sel by (intro go_top)+

lemma respond_top [go_top]: "top R (respond (postgres W) r c)"
  unfolding respond_def postgres_sel by (intro go_top)

lemma act_as_top [go_top]: "(\<And>c. top R (action c)) \<Longrightarrow> top R (act_as (postgres W) p action)"
  unfolding act_as_def by (intro go_top)

lemma RequireCustomer_top: "(\<And>p. top R (handler p)) \<Longrightarrow> top R (RequireCustomer W sv r handler)"
  unfolding top_def RequireCustomer_run using R_refl by (auto split: sum.splits)

lemma RequireService_top: "(\<And>p. top R (handler p)) \<Longrightarrow> top R (RequireService sv r handler)"
  unfolding top_def RequireService_run using R_refl by (auto split: sum.splits)

end

lemma store_created_top [go_top]:
  "s_status s = ScheduleActive \<Longrightarrow> top (serves W horizon) (store_created W (postgres W) s items)"
  unfolding store_created_def postgres_sel by (intro go_top insert_created_top)

lemma Create_top [go_top]: "top (serves W horizon) (Create W (postgres W) r)"
  unfolding Create_def bad_body_def by (intro go_top) (simp add: created_schedule_def)

lemma transitions_top [go_top]:
  assumes "sv_repo sv = postgres W" "svc_repo (sv_service sv) = postgres W"
    and "m_horizon (svc_mat (sv_service sv)) = horizon"
  shows "top (serves W horizon) (handle_transition W sv k i r p)"
  unfolding handle_transition_def HandlePause_def HandleResume_def HandleSkip_def HandleDefer_def HandleCadence_def
    HandleCancel_def bad_body_def assms(1)
  by (cases k; simp; intro go_top assms)

lemma serve_top:
  assumes "sv_repo sv = postgres W" "svc_repo (sv_service sv) = postgres W"
    and "m_horizon (svc_mat (sv_service sv)) = horizon"
  shows "top (serves W horizon) (serve W sv r)"
proof (cases "route (rq_method r) (rq_path r)")
  case (Routed e)
  then show ?thesis
    unfolding serve_def assms(1)
    by (cases e; simp; intro go_top serving.RequireCustomer_top serving.RequireService_top assms)
qed (simp_all add: serve_def serving.ret_top)

end
