(* ===== verification/Hosting.thy ===== *)
theory Hosting
  imports HttpApi
begin

text \<open>
  What the service binary brings with it: the schema migrations (\<open>internal/store/migrate.go\<close>, with the
  goose library as a parameter) and the development console (\<open>internal/httpapi/console.go\<close>, with the
  file server of its embedded assets as a parameter).
\<close>

section \<open>Migrations\<close>

text \<open>What goose answers: to the dialect, to the request to migrate, for the versions of the embedded
  migrations, and for the version of the database.\<close>

record goose =
  gs_dialect :: "go_error option"
  gs_up :: "go_error option"
  gs_collect :: "go_error + int list"
  gs_version :: "go_error + int"

definition Migrate :: "goose \<Rightarrow> go_error option" where
  "Migrate g =
    (case gs_dialect g of
       Some e \<Rightarrow> Some (Wrapped ''set dialect: '' e '''')
     | None \<Rightarrow> (case gs_up g of Some e \<Rightarrow> Some (Wrapped ''apply migrations: '' e '''') | None \<Rightarrow> None))"

definition MigrationStatus :: "goose \<Rightarrow> go_error + bool \<times> int" where
  "MigrationStatus g =
    (case gs_dialect g of
       Some e \<Rightarrow> Inl (Wrapped ''set dialect: '' e '''')
     | None \<Rightarrow>
        (case gs_collect g of
           Inl e \<Rightarrow> Inl (Wrapped ''collect migrations: '' e '''')
         | Inr records \<Rightarrow>
            (case gs_version g of
               Inl e \<Rightarrow> Inl (Wrapped ''read schema version: '' e '''')
             | Inr current \<Rightarrow>
                (let pending = int (length (filter (\<lambda>v. current < v) records)) in Inr (pending = 0, pending)))))"

lemma migrated_iff_nothing_newer:
  "MigrationStatus g = Inr (True, n) \<longleftrightarrow> gs_dialect g = None \<and> n = 0
     \<and> (\<exists>records current. gs_collect g = Inr records \<and> gs_version g = Inr current \<and> (\<forall>v \<in> set records. v \<le> current))"
  by (auto simp: MigrationStatus_def Let_def filter_empty_conv not_less split: option.splits sum.splits)

section \<open>The console\<close>

definition console_headers :: "(string \<times> string) list" where
  "console_headers =
    (let self = [CHR 0x27] @ ''self'' @ [CHR 0x27]; none = [CHR 0x27] @ ''none'' @ [CHR 0x27] in
     [(''Content-Security-Policy'', ''default-src '' @ self @ ''; connect-src '' @ self @ ''; img-src '' @ self @ '' data:; script-src ''
         @ self @ ''; style-src '' @ self @ ''; base-uri '' @ none @ ''; frame-ancestors '' @ none),
      (''Referrer-Policy'', ''no-referrer''), (''X-Content-Type-Options'', ''nosniff'')])"

text \<open>\<open>path.Base\<close>: the last segment that is not empty.\<close>

definition base_segment :: "string list \<Rightarrow> string" where
  "base_segment segments = (case rev (filter (\<lambda>x. x \<noteq> '''') segments) of [] \<Rightarrow> '''' | b # _ \<Rightarrow> b)"

text \<open>A path below \<open>/console/\<close>, without its first segment: application routes get the start page.\<close>

definition console_path :: "string list \<Rightarrow> string list" where
  "console_path rel =
    (if rel = [''''] \<or> CHR ''.'' \<notin> set (base_segment rel) \<and> (case rel of a # _ # _ \<Rightarrow> a = ''schedules'' | _ \<Rightarrow> False)
     then [''''] else rel)"

definition NewConsoleHandler :: "(request \<Rightarrow> response) \<Rightarrow> request \<Rightarrow> response" where
  "NewConsoleHandler files r =
    (let resp = files (r\<lparr>rq_path := console_path (tl (rq_path r))\<rparr>) in
     resp\<lparr>rs_headers := console_headers @ rs_headers resp\<rparr>)"

lemma schedule_pages_start_the_console:
  "CHR ''.'' \<notin> set i \<Longrightarrow> i \<noteq> '''' \<Longrightarrow> console_path [''schedules'', i] = ['''']"
  by (simp add: console_path_def base_segment_def)

end
