(* ===== verification/Commands.thy ===== *)
theory Commands
  imports Config Creation Hosting
begin

text \<open>
  The binaries under \<open>cmd/\<close>, as far as they decide something: which configuration they insist on,
  how they wire the packages together, in which order they run the passes and with which status
  they exit. \<open>sql.Open\<close>, the ping, the RFC 3339 parser, the hash and the token parser, the files
  of the console and goose are the platform. Signals, time limits and the log are left out.
\<close>

record platform =
  pf_open :: "string \<Rightarrow> go_error option"
  pf_ping :: "go_error option"
  pf_rfc3339 :: "string \<Rightarrow> int option"
  pf_sha256 :: "string \<Rightarrow> string"
  pf_jwt :: jwt_parser
  pf_console :: "request \<Rightarrow> response"
  pf_alive :: bool
  pf_goose :: goose

text \<open>What a command has to report, if it came to run, and the status it exits with.\<close>

type_synonym 'a command = "('a option \<times> nat) go"

definition fatal :: "'a command" where
  "fatal = ret (None, 1)"

definition exit_status :: "go_error option \<Rightarrow> nat" where
  "exit_status err = (case err of None \<Rightarrow> 0 | Some _ \<Rightarrow> 1)"

section \<open>The jobs\<close>

definition cmd_materialize :: "platform \<Rightarrow> world \<Rightarrow> env \<Rightarrow> string \<Rightarrow> mat_result command" where
  "cmd_materialize P W env today_flag =
    (case Load env of
       Inl _ \<Rightarrow> fatal
     | Inr cfg \<Rightarrow>
        bind (clock W) (\<lambda>now.
        (case (if today_flag = '''' then Some (DateOf utc now) else parseDate today_flag) of
           None \<Rightarrow> fatal
         | Some run_day \<Rightarrow>
            (case pf_open P (DatabaseURL cfg) of
               Some _ \<Rightarrow> fatal
             | None \<Rightarrow>
                bind (RunAll W (New_materializer (postgres W) (MaterializeHorizon cfg)) run_day) (\<lambda>(res, err).
                ret (Some res, exit_status err))))))"

text \<open>One clock for the sweeper and the service; the flag replaces it.\<close>

definition with_clock :: "world \<Rightarrow> int option \<Rightarrow> world" where
  "with_clock W instant = (case instant of None \<Rightarrow> W | Some t \<Rightarrow> W\<lparr>w_now := (\<lambda>_. t)\<rparr>)"

definition wired_sweeper :: "world \<Rightarrow> config \<Rightarrow> sweeper" where
  "wired_sweeper W cfg =
    New_sweeper (postgres W) (New_service (postgres W) (New_materializer (postgres W) (MaterializeHorizon cfg)))"

definition cmd_sweep :: "platform \<Rightarrow> world \<Rightarrow> env \<Rightarrow> string \<Rightarrow> (resume_result \<times> arm_result) command" where
  "cmd_sweep P W env now_flag =
    (case Load env of
       Inl _ \<Rightarrow> fatal
     | Inr cfg \<Rightarrow>
        (case (if now_flag = '''' then Some None else map_option Some (pf_rfc3339 P now_flag)) of
           None \<Rightarrow> fatal
         | Some instant \<Rightarrow>
            (case pf_open P (DatabaseURL cfg) of
               Some _ \<Rightarrow> fatal
             | None \<Rightarrow>
                (let W = with_clock W instant; swp = wired_sweeper W cfg in
                 bind (ResumeDue W swp) (\<lambda>(resumeRes, resumeErr).
                 bind (ArmDue W swp) (\<lambda>(armRes, armErr).
                 ret (Some (resumeRes, armRes), if resumeErr = None \<and> armErr = None then 0 else 1)))))))"

definition cmd_notify :: "platform \<Rightarrow> nat \<Rightarrow> world \<Rightarrow> env \<Rightarrow> notify_result option command" where
  "cmd_notify P pages W env =
    (case Load env of
       Inl _ \<Rightarrow> fatal
     | Inr cfg \<Rightarrow>
        (case RequireNotifications (w_parse_address W) cfg of
           Some _ \<Rightarrow> fatal
         | None \<Rightarrow>
            (case pf_open P (DatabaseURL cfg) of
               Some _ \<Rightarrow> fatal
             | None \<Rightarrow>
                bind (notify_RunAll pages W
                  \<lparr>dp_repo = postgres W, dp_supportContact = NotificationSupportContact cfg\<rparr>) (\<lambda>run. case run of
                  None \<Rightarrow> ret (Some None, 1)
                | Some (res, errs) \<Rightarrow> ret (Some (Some res), if errs = [] then 0 else 1)))))"

section \<open>The service\<close>

text \<open>\<open>run()\<close> of \<open>cmd/cadenceos\<close> up to the listener: the server it would serve with, or why it stops.\<close>

definition wired_server :: "platform \<Rightarrow> world \<Rightarrow> config \<Rightarrow> server" where
  "wired_server P W cfg =
    \<lparr>sv_repo = postgres W,
     sv_service = New_service (postgres W) (New_materializer (postgres W) (MaterializeHorizon cfg)),
     sv_tokens = NewTokenVerifier \<lparr>tc_secret = PortalJWTSecret cfg, tc_issuer = PortalJWTIssuer cfg,
                                   tc_audience = PortalJWTAudience cfg\<rparr>,
     sv_key = NewServiceKeyVerifier (pf_sha256 P) (ServiceAPIKey cfg),
     sv_health = \<lparr>hc_ping = pf_alive P, hc_migrations = Some (MigrationStatus (pf_goose P)), hc_build = BuildSHA cfg\<rparr>,
     sv_sha256 = pf_sha256 P, sv_jwt = pf_jwt P, sv_console = NewConsoleHandler (pf_console P)\<rparr>"

definition start_server :: "platform \<Rightarrow> world \<Rightarrow> env \<Rightarrow> go_error + server" where
  "start_server P W env =
    (case Load env of
       Inl e \<Rightarrow> Inl (Wrapped ''load config: '' e '''')
     | Inr cfg \<Rightarrow>
        (case RequireAuth cfg of
           Some e \<Rightarrow> Inl (Wrapped ''load config: '' e '''')
         | None \<Rightarrow>
            (case pf_open P (DatabaseURL cfg) of
               Some e \<Rightarrow> Inl (Wrapped ''open database: '' e '''')
             | None \<Rightarrow>
                (case pf_ping P of
                   Some e \<Rightarrow> Inl (Wrapped ''connect to database: '' e '''')
                 | None \<Rightarrow> Inr (wired_server P W cfg)))))"

text \<open>The rest of \<open>run()\<close> and \<open>main\<close>: the listener fails, or a signal stops the service and the requests in
  flight are drained, in time or not.\<close>

datatype served_until = ListenerFailed go_error | Signalled "go_error option"

definition run_service :: "platform \<Rightarrow> world \<Rightarrow> env \<Rightarrow> served_until \<Rightarrow> go_error option" where
  "run_service P W env ending =
    (case start_server P W env of
       Inl e \<Rightarrow> Some e
     | Inr _ \<Rightarrow>
        (case ending of
           ListenerFailed e \<Rightarrow> Some (Wrapped ''http server: '' e '''')
         | Signalled (Some e) \<Rightarrow> Some (Wrapped ''graceful shutdown: '' e '''')
         | Signalled None \<Rightarrow> None))"

definition cmd_cadenceos :: "platform \<Rightarrow> world \<Rightarrow> env \<Rightarrow> served_until \<Rightarrow> nat" where
  "cmd_cadenceos P W env ending = exit_status (run_service P W env ending)"

lemma clean_exit_served:
  "cmd_cadenceos P W env ending = 0 \<longleftrightarrow> (\<exists>sv. start_server P W env = Inr sv) \<and> ending = Signalled None"
  by (auto simp: cmd_cadenceos_def run_service_def exit_status_def split: sum.splits served_until.splits option.splits)

text \<open>\<open>cmd/migrate\<close>.\<close>

definition cmd_migrate :: "platform \<Rightarrow> env \<Rightarrow> nat" where
  "cmd_migrate P env =
    (if env ''DATABASE_URL'' = '''' then 1
     else (case pf_open P (env ''DATABASE_URL'') of
         Some _ \<Rightarrow> 1 | None \<Rightarrow> exit_status (Migrate (pf_goose P))))"

section \<open>A deployment\<close>

text \<open>Everything that runs against one database under one configuration; a request reaches a server
  only once one has started.\<close>

datatype job = Nightly string | Sweep | Notify nat | Request request

definition run_job :: "platform \<Rightarrow> world \<Rightarrow> env \<Rightarrow> job \<Rightarrow> session \<Rightarrow> session" where
  "run_job P W env j s =
    (case j of
       Nightly today_flag \<Rightarrow> snd (cmd_materialize P W env today_flag s)
     | Sweep \<Rightarrow> snd (cmd_sweep P W env '''' s)
     | Notify pages \<Rightarrow> snd (cmd_notify P pages W env s)
     | Request r \<Rightarrow> (case start_server P W env of Inl _ \<Rightarrow> s | Inr sv \<Rightarrow> snd (serve W sv r s)))"

definition run_jobs :: "platform \<Rightarrow> world \<Rightarrow> env \<Rightarrow> job list \<Rightarrow> session \<Rightarrow> session" where
  "run_jobs P W env js s = fold (run_job P W env) js s"

definition horizon_of :: "env \<Rightarrow> int" where
  "horizon_of env = (case Load env of Inl _ \<Rightarrow> 0 | Inr cfg \<Rightarrow> MaterializeHorizon cfg)"

section \<open>The commands run between transactions\<close>

lemma fatal_top [go_top]: "top (serves W horizon) fatal"
  by (simp add: fatal_def serving.ret_top)

lemma wired_sel [simp]:
  "m_repo (New_materializer repo h) = repo" "1 \<le> h \<Longrightarrow> m_horizon (New_materializer repo h) = h"
  "svc_repo (New_service repo mat) = repo" "svc_mat (New_service repo mat) = mat"
  "sw_repo (wired_sweeper W cfg) = postgres W" "svc_repo (sw_svc (wired_sweeper W cfg)) = postgres W"
  "1 \<le> MaterializeHorizon cfg \<Longrightarrow> m_horizon (svc_mat (sw_svc (wired_sweeper W cfg))) = MaterializeHorizon cfg"
  "sv_repo (wired_server P W cfg) = postgres W" "svc_repo (sv_service (wired_server P W cfg)) = postgres W"
  "1 \<le> MaterializeHorizon cfg \<Longrightarrow> m_horizon (svc_mat (sv_service (wired_server P W cfg))) = MaterializeHorizon cfg"
  by (simp_all add: New_materializer_def New_service_def New_sweeper_def wired_sweeper_def wired_server_def)

lemma RunAll_wired [go_top]: "1 \<le> h \<Longrightarrow> top (serves W h) (RunAll W (New_materializer (postgres W) h) td)"
  using RunAll_top [of "New_materializer (postgres W) h" W td] by simp

lemma notify_RunAll_top [go_top]: "dp_repo d = postgres W \<Longrightarrow> top (serves W horizon) (notify_RunAll pages W d)"
  by (simp add: notify_RunAll_def notify_loop_top)

lemma commands_top:
  "top (serves W (horizon_of env)) (cmd_materialize P W env today_flag)"
  "top (serves W (horizon_of env)) (cmd_sweep P W env '''')"
  "top (serves W (horizon_of env)) (cmd_notify P pages W env)"
proof -
  have loaded: "horizon_of env = MaterializeHorizon cfg" "1 \<le> MaterializeHorizon cfg" if "Load env = Inr cfg" for cfg
    using that loaded_config by (simp_all add: horizon_of_def)
  show "top (serves W (horizon_of env)) (cmd_materialize P W env today_flag)"
    unfolding cmd_materialize_def
    by (cases "Load env"; simp add: loaded; intro go_top; simp add: loaded)
  show "top (serves W (horizon_of env)) (cmd_sweep P W env '''')"
  proof (cases "Load env")
    case (Inr cfg)
    note sweeps = sweeps_top [of "wired_sweeper W cfg" W "MaterializeHorizon cfg"]
    show ?thesis
      by (cases "pf_open P (DatabaseURL cfg)"; simp add: cmd_sweep_def Inr loaded [OF Inr] with_clock_def Let_def;
          intro go_top sweeps; simp add: loaded [OF Inr])
  qed (simp add: cmd_sweep_def fatal_top)
  show "top (serves W (horizon_of env)) (cmd_notify P pages W env)"
    unfolding cmd_notify_def
    by (cases "Load env"; simp add: loaded; intro go_top; simp add: loaded)
qed

lemma run_job_serves:
  assumes "st_tx s = None"
  shows "st_tx (run_job P W env j s) = None \<and> serves W (horizon_of env) (st_db s) (st_db (run_job P W env j s))"
proof (cases j)
  case (Request r)
  show ?thesis
  proof (cases "start_server P W env")
    case (Inr sv)
    then have sv: "\<exists>cfg. Load env = Inr cfg \<and> sv = wired_server P W cfg"
      by (auto simp: start_server_def split: sum.splits option.splits)
    then have "top (serves W (horizon_of env)) (serve W sv r)"
      by (intro serve_top) (auto simp: horizon_of_def loaded_config)
    then show ?thesis using assms Request Inr by (simp add: run_job_def top_def)
  qed (use assms Request in \<open>simp add: run_job_def serving.R_refl\<close>)
qed (use assms commands_top in \<open>simp_all add: run_job_def top_def\<close>)

lemma run_jobs_serves:
  "st_tx s = None \<Longrightarrow> st_tx (run_jobs P W env js s) = None
     \<and> serves W (horizon_of env) (st_db s) (st_db (run_jobs P W env js s))"
proof (induction js arbitrary: s)
  case (Cons j js)
  note first = run_job_serves [OF Cons.prems, of P W env j]
  show ?case
    using Cons.IH [of "run_job P W env j s"] first serving.R_trans [of W "horizon_of env"] by (simp add: run_jobs_def) blast
qed (simp add: run_jobs_def serving.R_refl)

lemma run_jobs_served:
  assumes "lawful W (horizon_of env)" "canonical W" "invariant W (st_db s)" "st_tx s = None"
  shows "served W (horizon_of env) (st_db s) (st_db (run_jobs P W env js s))"
  using run_jobs_serves [OF assms(4)] assms(1-3) by (simp add: serves_def)

end
