(* ===== verification/History.thy ===== *)
theory History
  imports Commands
begin

text \<open>
  What no run of the system ever takes back: the event log only grows, no schedule, item or
  occurrence is deleted, and the fields that say whose a schedule is, what it came from and which
  occurrence a row stands for keep their values.
\<close>

section \<open>What a row is\<close>

definition schedule_identity :: "schedule_row \<Rightarrow> string list \<times> string option list \<times> int list" where
  "schedule_identity r = ([sr_id r, sr_customer_id r, sr_customer_email r, sr_timezone r, sr_origin_order_id r],
     [sr_payment_token_ref r, sr_shipping_address_id r], [sr_discount_pct r, sr_created_at r])"

definition occurrence_identity :: "occurrence_row \<Rightarrow> string list \<times> int list" where
  "occurrence_identity oc = ([or_id oc, or_schedule_id oc, or_idempotency_key oc], [or_sequence_no oc, or_created_at oc])"

definition extends :: "db \<Rightarrow> db \<Rightarrow> bool" where
  "extends d d' = (prefix (db_events d) (db_events d') \<and> prefix (db_items d) (db_items d')
     \<and> prefix (map schedule_identity (db_schedules d)) (map schedule_identity (db_schedules d'))
     \<and> prefix (map occurrence_identity (db_occurrences d)) (map occurrence_identity (db_occurrences d')))"

lemma extends_refl [simp]: "extends d d"
  by (simp add: extends_def)

lemma extends_trans: "extends d1 d2 \<Longrightarrow> extends d2 d3 \<Longrightarrow> extends d1 d3"
  unfolding extends_def by (elim conjE, intro conjI) (erule (1) prefix_order.trans)+

lemma extends_log: "extends d d' \<Longrightarrow> extends d (log_event e d')"
  by (simp add: extends_def log_event_def prefix_prefix)

lemma extends_set_schedule:
  "extends d d' \<Longrightarrow> (\<And>r. schedule_identity (f r) = schedule_identity r) \<Longrightarrow> extends d (set_schedule u f d')"
  by (simp add: extends_def set_schedule_def)

lemma extends_set_occurrences:
  "extends d d' \<Longrightarrow> (\<And>oc. occurrence_identity (f oc) = occurrence_identity oc) \<Longrightarrow> extends d (set_occurrences p f d')"
  by (simp add: extends_def set_occurrences_def)

lemma extends_add_occurrence: "extends d d' \<Longrightarrow> extends d (add_occurrence oc d')"
  by (simp add: extends_def add_occurrence_def prefix_prefix)

lemma row_identities [simp]:
  "schedule_identity (next_run_row n t r) = schedule_identity r"
  "schedule_identity (status_row st until t r) = schedule_identity r"
  "schedule_identity (cadence_row days a t r) = schedule_identity r"
  "occurrence_identity (ostatus_row os t oc) = occurrence_identity oc"
  "occurrence_identity (odate_row day t oc) = occurrence_identity oc"
  by (simp_all add: schedule_identity_def occurrence_identity_def next_run_row_def status_row_def cadence_row_def
      ostatus_row_def odate_row_def)

lemma extends_plant: "extends d d' \<Longrightarrow> extends d (plant t u anchor n ids seq cursor d')"
  by (induction t u anchor n ids seq cursor d' rule: plant.induct)
    (auto split: sum.splits intro!: extends_log extends_add_occurrence)

lemma extends_topped_up: "extends d d' \<Longrightarrow> extends d (topped_up t u anchor n ids td d')"
  by (simp add: topped_up_def refreshed_def extends_set_schedule extends_plant)

lemmas extends_rules = extends_topped_up extends_log extends_set_schedule extends_set_occurrences

section \<open>Every step only adds\<close>

lemma extends_notifications:
  "q_claim types timeout limit now d = Inr (es, d') \<Longrightarrow> extends d d'"
  "q_mark_sent k sent_at now d = Inr (n, d') \<Longrightarrow> extends d d'"
  "q_mark_failed k msg cap now d = Inr (n, d') \<Longrightarrow> extends d d'"
  by (auto simp: q_claim_def q_mark_sent_def q_mark_failed_def Let_def extends_def)

lemma step_extends: "step W horizon d d' \<Longrightarrow> extends d d'"
proof (induction rule: step.induct)
  case (step_create r d t items body)
  then show ?case by (simp add: created_db_def log_event_def extends_def prefix_prefix)
next
  case (step_claim types timeout limit now d es d')
  then show ?case by (rule extends_notifications(1))
next
  case (step_mark_sent k sent_at now d n d')
  then show ?case by (rule extends_notifications(2))
next
  case (step_mark_failed k msg cap now d n d')
  then show ?case by (rule extends_notifications(3))
qed (auto simp: effect_defs skipped_to_def deferred_to_def resumed_to_def rescheduled_to_def Let_def
    split: if_splits intro!: extends_rules)

lemma served_extends: "served W horizon d d' \<Longrightarrow> extends d d'"
  by (induction rule: served.induct) (auto intro: extends_trans step_extends)

end
