(* ===== verification/Demo.thy ===== *)
theory Demo
  imports System
begin

text \<open>
  A concrete system: a world without failures whose other sessions do nothing, and a database
  with two active schedules of different customers, one of them with an armed order, a third one
  paused. Its programs run in the kernel, so that the hypotheses of the properties can be
  discharged on it.
\<close>

definition demo_world :: world where
  "demo_world = \<lparr>w_load_location = (\<lambda>_. Some utc), w_uuid_in = Some, w_parse_address = (\<lambda>_. None),
     w_fault = (\<lambda>_. False), w_dbnow = (\<lambda>k. 1000 + int k), w_now = (\<lambda>k. 86400 * 10),
     w_newid = (\<lambda>k. ''id-'' @ dec k), w_send = (\<lambda>_ _. None), w_others = (\<lambda>_ d. d)\<rparr>"

definition demo_row :: "string \<Rightarrow> string \<Rightarrow> schedule_status \<Rightarrow> int option \<Rightarrow> schedule_row" where
  "demo_row i c st until = \<lparr>sr_id = i, sr_customer_id = c, sr_customer_email = ''a@b.example'',
     sr_status = st, sr_interval_days = 30, sr_anchor_date = 0,
     sr_next_run_date = (if st = ScheduleActive then Some 30 else None), sr_timezone = ''UTC'',
     sr_payment_token_ref = None, sr_shipping_address_id = None, sr_discount_pct = 500,
     sr_paused_until = until, sr_origin_order_id = ''order-'' @ i, sr_created_at = 1, sr_updated_at = 1\<rparr>"

definition demo_occurrence :: "string \<Rightarrow> string \<Rightarrow> int \<Rightarrow> int \<Rightarrow> occurrence_status \<Rightarrow> occurrence_row" where
  "demo_occurrence i u seq day st = \<lparr>or_id = i, or_schedule_id = u, or_sequence_no = seq,
     or_scheduled_for = day, or_status = st, or_order_id = None,
     or_idempotency_key = IdempotencyKey u seq, or_created_at = 1, or_updated_at = 1\<rparr>"

definition demo_event :: "int \<Rightarrow> string \<Rightarrow> event_type \<Rightarrow> event_row" where
  "demo_event n u ty = \<lparr>er_id = n, er_schedule_id = u, er_event_type = ty, er_actor = ActorSystem,
     er_reason_code = None, er_payload = JObj [], er_idempotency_key = None, er_created_at = 1\<rparr>"

definition demo_db :: db where
  "demo_db = \<lparr>db_schedules =
       [demo_row ''s1'' ''ann'' ScheduleActive None, demo_row ''s2'' ''bob'' ScheduleActive None,
        demo_row ''s3'' ''ann'' SchedulePaused (Some 10)],
     db_items = [],
     db_occurrences = [demo_occurrence ''x1'' ''s1'' 1 30 OccurrencePlanned,
        demo_occurrence ''x2'' ''s2'' 1 11 OccurrencePending, demo_occurrence ''x3'' ''s2'' 2 41 OccurrencePlanned],
     db_events = [demo_event 1 ''s1'' EventScheduleCreated, demo_event 2 ''s2'' EventScheduleCreated,
        demo_event 3 ''s3'' EventScheduleCreated, demo_event 4 ''s3'' EventSchedulePaused],
     db_notifications = [], db_event_seq = 4\<rparr>"

definition demo_session :: session where
  "demo_session = open_session demo_db"

definition demo_materializer :: materializer where
  "demo_materializer = New_materializer (postgres demo_world) 2"

definition demo_service :: service where
  "demo_service = New_service (postgres demo_world) demo_materializer"

definition ann :: caller where
  "ann = \<lparr>c_actor = ActorCustomer, c_scope = CustomerScope ''ann''\<rparr>"

section \<open>The hypotheses of the properties hold of it\<close>

lemma demo_world_canonical: "canonical demo_world"
  by (simp add: canonical_def demo_world_def)

lemma demo_lawful: "lawful demo_world horizon"
  by (simp add: lawful_def demo_world_def served_refl)

lemma demo_begun: "begun demo_world s = st_db s"
  by (simp add: begun_def demo_world_def)

lemma demo_invariant: "invariant demo_world demo_db"
  by code_simp

lemma demo_canonical_db: "canonical_db demo_world d"
  by (simp add: canonical_db_def demo_world_def)

lemma demo_world_sel [simp]:
  "w_uuid_in demo_world = Some" "w_dbnow demo_world k = 1000 + int k" "w_now demo_world k = 864000"
  "w_load_location demo_world z = Some utc"
  by (simp_all add: demo_world_def)

lemma demo_session_sel [simp]: "st_tx demo_session = None" "st_db demo_session = demo_db"
  by (simp_all add: demo_session_def open_session_def)

lemma demo_service_sel [simp]:
  "svc_repo demo_service = postgres demo_world" "m_horizon (svc_mat demo_service) = 2"
  "m_repo demo_materializer = postgres demo_world" "m_horizon demo_materializer = 2"
  by (simp_all add: demo_service_def New_service_def demo_materializer_def New_materializer_def)

section \<open>Running it\<close>

text \<open>Congruences that keep the simplifier out of continuations, so that it runs a program from the
  front, and the definitions it unfolds. Dates stay day numbers.\<close>

lemma bind_cong: "s = t \<Longrightarrow> bind m f s = bind m f t"
  by simp


lemma attempt_cong: "s = t \<Longrightarrow> attempt m s = attempt m t"
  by simp

lemma wrapping_cong: "s = t \<Longrightarrow> wrapping p m s = wrapping p m t"
  by simp

lemma in_tx_cong: "s = t \<Longrightarrow> in_tx W m s = in_tx W m t"
  by simp

lemma in_tx_out_cong: "s = t \<Longrightarrow> in_tx_out W z m s = in_tx_out W z m t"
  by simp

lemmas run_congs = bind_cong attempt_cong wrapping_cong in_tx_cong in_tx_out_cong if_weak_cong option.case_cong_weak
  prod.case_cong_weak sum.case_cong_weak list.case_cong_weak let_weak_cong

lemmas monad_defs = bind_def ret_def throw_def check_def attempt_def wrapping_def gets_def stmt_def
  settle_def in_tx_def in_tx_out_def in_tx_run_def deliver_def or_deliver_def only_error_def new_id_def
  clock_def with_uuid_def query_def one_row_def Let_def

lemmas pg_defs = pg_GetSchedule_def pg_GetScheduleForUpdate_def pg_UpdateScheduleStatus_def
  pg_UpdateScheduleNextRun_def pg_UpdateScheduleCadence_def pg_UpdateOccurrenceStatus_def
  pg_UpdateOccurrenceDate_def pg_CancelUnexecutedOccurrences_def pg_CancelPlannedOccurrences_def
  cancelOccurrences_def pg_AppendEvent_def pg_EventExistsWithKey_def pg_NextActionableOccurrence_def
  pg_NextPlannedOccurrence_def pg_LastPlacedOccurrence_def pg_LatestScheduledDate_def pg_MaxSequenceNo_def
  pg_CountFutureplannedOccurrences_def pg_CreateOccurrence_def pg_ListPlannedOccurrences_def
  queryOccurrences_def queryOneOccurrence_def limit_one_def first_by_def by_date_def occurrences_where_def
  unexecuted_def planned_def checkAffected_def sql_max_def

lemmas q_defs = q_status_def q_next_run_def q_cadence_def q_occurrence_status_def q_occurrence_date_def q_cancel_def
  q_append_event_def q_insert_occurrence_def update_schedules_def update_occurrences_def insert_event_def
  insert_occurrence_def schedule_checks_def occurrence_checks_def event_key_def schedule_exists_def update_where_def int4_def broken.simps

lemmas domain_defs = today_def zone_of_def transition_def service_event_def nextOccurrence_def
  DateOf_def local_day_def utc_def AddDays_def datePtr_def admits.simps filterOwn_def CustomerScope_def SystemScope_def
  ValidateOccurrenceAction_def IsExecuted_def ValidateDeferDays_def MaxDeferDays_def MaxIntervalDays_def MinIntervalDays_def
  ValidateIdempotencyKey_def MaxIdempotencyKeyLength_def ValidateInterval_def ValidateCancellationReason_def CancellationReasons_def ValidateScheduleTransition_def
  scanSchedule_def scanOccurrence_def IsActive_def WithRepo_def RefreshNextRunDate_def Run_def
  NextOccurrenceAfter_def OccurrenceDate_def DaysUntil_def max_duration_days_def planned_occurrence_def materialized_event_def

lemmas demo_defs = demo_world_def demo_service_def demo_materializer_def New_service_def New_materializer_def
  demo_session_def open_session_def demo_db_def demo_row_def demo_occurrence_def demo_event_def ann_def

lemma plan_missing_numeral:
  "plan_missing W m s (numeral n) seq cursor counts = plan_missing W m s (Suc (pred_numeral n)) seq cursor counts"
  by (simp add: numeral_eq_Suc)

lemmas run_defs = monad_defs pg_defs q_defs domain_defs demo_defs plan_missing_numeral
  IdempotencyKey_def dec_int_def dec.simps digit_def

lemma demo_pauses: "\<exists>out s'. Pause demo_world demo_service ''s1'' None ann demo_session = (Inr out, s')"
  by (simp add: Pause_def run_defs cong: run_congs)

lemma demo_cancels: "\<exists>out s'. Cancel demo_world demo_service ''s1'' ''other'' ann demo_session = (Inr out, s')"
  by (simp add: Cancel_def run_defs cong: run_congs)

lemma demo_skips: "\<exists>out s'. SkipNext demo_world demo_service ''s1'' ''k'' ann demo_session = (Inr out, s')"
  by (simp add: SkipNext_def run_defs cong: run_congs)

lemma demo_arms: "\<exists>out s'. ArmNext demo_world demo_service ''s1'' ann demo_session = (Inr out, s')"
  by (simp add: ArmNext_def run_defs cong: run_congs)

lemma demo_defers: "\<exists>out s'. Defer demo_world demo_service ''s1'' 9 ''k'' ann demo_session = (Inr out, s')"
  by (simp add: Defer_def run_defs cong: run_congs)

lemma demo_resumes: "\<exists>out s'. Resume demo_world demo_service ''s3'' ann demo_session = (Inr out, s')"
  by (simp add: Resume_def run_defs cong: run_congs)

lemma demo_changes_cadence: "\<exists>out s'. ChangeCadence demo_world demo_service ''s1'' 14 ann demo_session = (Inr out, s')"
  by (simp add: ChangeCadence_def run_defs cong: run_congs)

end
