(* ===== verification/Rows.thy ===== *)
theory Rows
  imports System
begin

text \<open>
  Vocabulary for what an action did to the rows of the database: the occurrence it resolves to, the
  events it appends, what it leaves alone, and a schedule whose plan is up to date. The lemmas read
  these off the closed forms of \<open>Effects\<close> and \<open>Horizon\<close>.
\<close>

section \<open>Reading an effect\<close>

lemmas committed = pause_db_def cancel_db_def stopped_def arm_db_def set_occurrence_def log_event_def
  set_schedule_def set_occurrences_def event_of_def service_event_def next_run_row_def [abs_def] status_row_def [abs_def]
  ostatus_row_def [abs_def] odate_row_def [abs_def] cadence_row_def [abs_def] upcoming_def [abs_def] cancelable_def [abs_def]

lemma update_where_twice:
  "(\<And>r. p (f r) = p r) \<Longrightarrow> update_where p g (update_where p f rs) = update_where p (\<lambda>r. g (f r)) rs"
  by (auto simp: update_where_def)

text \<open>The occurrence an action resolves to: of the rows of the schedule that qualify, the first in
  the order of date and sequence number.\<close>

definition first_of :: "(occurrence_row \<Rightarrow> bool) \<Rightarrow> string \<Rightarrow> db \<Rightarrow> occurrence_row \<Rightarrow> bool" where
  "first_of p u d oc = (oc \<in> set (db_occurrences d) \<and> or_schedule_id oc = u \<and> p oc
     \<and> (\<forall>oc' \<in> set (db_occurrences d). or_schedule_id oc' = u \<and> p oc' \<longrightarrow>
          or_scheduled_for oc < or_scheduled_for oc'
          \<or> or_scheduled_for oc = or_scheduled_for oc' \<and> or_sequence_no oc \<le> or_sequence_no oc'))"

lemma first_by_first_of: "first_by by_date (occurrences_where u p d) = Some oc \<Longrightarrow> first_of p u d oc"
  using first_by_Some [of by_date "occurrences_where u p d" oc]
  by (fastforce simp: first_of_def occurrences_where_def by_date_def)

lemma next_first_of: "next_planned u d = Some oc \<Longrightarrow> first_of planned u d oc"
  "next_unexecuted u d = Some oc \<Longrightarrow> first_of unexecuted u d oc"
  by (simp_all add: next_planned_def next_unexecuted_def first_by_first_of)

text \<open>The events an action appends, its own first.\<close>

definition logged :: "string \<Rightarrow> event_type \<Rightarrow> caller \<Rightarrow> string option \<Rightarrow> db \<Rightarrow> db \<Rightarrow> bool" where
  "logged u ty caller key d d' = (\<exists>e rest. db_events d' = db_events d @ e # rest
     \<and> er_schedule_id e = u \<and> er_event_type e = ty \<and> er_actor e = c_actor caller \<and> er_idempotency_key e = key
     \<and> (\<forall>x \<in> set rest. er_schedule_id x = u \<and> er_event_type x = EventOccurrenceMaterialed))"

text \<open>What no action touches: other schedules with their occurrences, items, notifications.\<close>

definition others_kept :: "string \<Rightarrow> db \<Rightarrow> db \<Rightarrow> bool" where
  "others_kept u d d' = (filter (\<lambda>r. sr_id r \<noteq> u) (db_schedules d') = filter (\<lambda>r. sr_id r \<noteq> u) (db_schedules d)
     \<and> filter (\<lambda>oc. or_schedule_id oc \<noteq> u) (db_occurrences d') = filter (\<lambda>oc. or_schedule_id oc \<noteq> u) (db_occurrences d)
     \<and> db_items d' = db_items d \<and> db_notifications d' = db_notifications d)"

lemma filter_update_where:
  "(\<And>r. r \<in> set rs \<Longrightarrow> p r \<Longrightarrow> \<not> q r \<and> \<not> q (f r)) \<Longrightarrow> filter q (update_where p f rs) = filter q rs"
  by (induction rs) (auto simp: update_where_def)

section \<open>Topping up, in rows\<close>

text \<open>The earliest planned day after a day.\<close>

definition earliest_planned :: "string \<Rightarrow> int \<Rightarrow> db \<Rightarrow> int option" where
  "earliest_planned u day d = (case future_planned u day d of [] \<Rightarrow> None
     | ocs \<Rightarrow> Some (Min (set (map or_scheduled_for ocs))))"

lemma earliest_planned_Some:
  "future_planned u day d \<noteq> [] \<Longrightarrow> earliest_planned u day d = Some (Min (set (map or_scheduled_for (future_planned u day d))))"
  by (cases "future_planned u day d") (simp_all add: earliest_planned_def)

lemma next_run_earliest:
  assumes "valid_date td"
  shows "datePtr (next_run_date u td d) = earliest_planned u (ToTime td) d"
proof (cases "next_run_date u td d")
  case None
  then show ?thesis using next_run_date_None [OF assms] by (simp add: earliest_planned_def datePtr_def)
next
  case (Some m)
  then obtain oc where oc: "oc \<in> set (future_planned u (ToTime td) d)" "m = date_of_day (or_scheduled_for oc)"
    and least: "\<forall>oc' \<in> set (future_planned u (ToTime td) d). or_scheduled_for oc \<le> or_scheduled_for oc'"
    using next_run_date_Some [OF _ assms] by blast
  then have "Min (set (map or_scheduled_for (future_planned u (ToTime td) d))) = or_scheduled_for oc"
    by (intro Min_eqI) auto
  then show ?thesis using oc Some by (auto simp: earliest_planned_def datePtr_def split: list.splits)
qed

text \<open>A schedule after planning for a day: its horizon is full, and its next run is the earliest
  planned day to come.\<close>

definition up_to_date :: "string \<Rightarrow> date \<Rightarrow> int \<Rightarrow> db \<Rightarrow> bool" where
  "up_to_date u td horizon d = (horizon \<le> int (length (future_planned u (ToTime td) d))
     \<and> (\<forall>r \<in> set (db_schedules d). sr_id r = u \<longrightarrow> sr_next_run_date r = earliest_planned u (ToTime td) d))"

text \<open>The dates a schedule has and the ones to be planned stay within the span of a duration.\<close>

definition near :: "int \<Rightarrow> string \<Rightarrow> date \<Rightarrow> int \<Rightarrow> date \<Rightarrow> db \<Rightarrow> bool" where
  "near horizon u anchor n td d = (7 \<le> n \<and> n \<le> 180 \<and> n * max 0 horizon \<le> 106751
     \<and> day_of td + n * max 0 horizon \<le> day_of anchor + 106751
     \<and> (\<forall>oc \<in> set (db_occurrences d). or_schedule_id oc = u \<longrightarrow> unexecuted oc \<longrightarrow>
          or_scheduled_for oc + n * max 0 horizon \<le> day_of anchor + 106751))"

lemma near_reach:
  assumes near: "near horizon u anchor n td d" and td: "valid_date td" and len: "length ids = missing u horizon td d"
  shows "in_reach anchor n (cursor_of u td d) (length ids)"
proof -
  have n: "7 \<le> n" using near by (simp add: near_def)
  have "int (length ids) \<le> max 0 horizon" using len by (simp add: missing_def)
  then have le: "n * int (length ids) \<le> n * max 0 horizon" using n by (intro mult_left_mono) simp_all
  have "day_of (cursor_of u td d) + n * max 0 horizon \<le> day_of anchor + 106751"
  proof (cases "latest_day u d")
    case None
    then show ?thesis using near by (simp add: near_def cursor_of_def)
  next
    case (Some l)
    then have "l \<in> set (map or_scheduled_for (occurrences_where u unexecuted d))"
      by (auto simp: latest_day_def sql_max_def split: if_splits intro!: Max_in)
    then have "l + n * max 0 horizon \<le> day_of anchor + 106751"
      using near by (auto simp: near_def occurrences_where_def)
    then show ?thesis using near Some by (simp add: near_def cursor_of_def)
  qed
  then show ?thesis using near le unfolding in_reach_def near_def by linarith
qed

lemma topped_up_effect:
  assumes "near horizon u anchor n td e" and "valid_date td" and "stored_ids W (missing u horizon td e) ids"
  shows "up_to_date u td horizon (topped_up t u anchor n ids td e)
    \<and> db_occurrences (topped_up t u anchor n ids td e) = db_occurrences e @
        planted t u anchor n ids (max_sequence u e) (first_after anchor n (cursor_of u td e))"
proof -
  have len: "length ids = missing u horizon td e" using assms(3) by (simp add: stored_ids_def)
  note reach = near_reach [OF assms(1,2) len]
  have "db_occurrences (topped_up t u anchor n ids td e) = db_occurrences (plant t u anchor n ids (max_sequence u e) (cursor_of u td e) e)"
    by (simp add: topped_up_def refreshed_def)
  then have "earliest_planned u day (topped_up t u anchor n ids td e)
      = earliest_planned u day (plant t u anchor n ids (max_sequence u e) (cursor_of u td e) e)" for day
    by (simp add: earliest_planned_def future_planned_def occurrences_where_def)
  then have "\<forall>r \<in> set (db_schedules (topped_up t u anchor n ids td e)). sr_id r = u \<longrightarrow>
      sr_next_run_date r = earliest_planned u (ToTime td) (topped_up t u anchor n ids td e)"
    by (simp add: topped_up_def refreshed_def next_run_earliest [OF assms(2)])
  then show ?thesis
    using horizon_full [OF reach assms(2) len, where t = t] topped_up_rows [OF reach assms(2), where t = t]
    by (simp add: up_to_date_def)
qed

text \<open>Beside the rows it adds, topping up touches the next run of its schedule only.\<close>

lemma plant_frame:
  "\<exists>new rest. db_occurrences (plant t u anchor n ids seq cursor d) = db_occurrences d @ new
    \<and> (\<forall>oc \<in> set new. or_schedule_id oc = u)
    \<and> db_events (plant t u anchor n ids seq cursor d) = db_events d @ rest
    \<and> (\<forall>e \<in> set rest. er_schedule_id e = u \<and> er_event_type e = EventOccurrenceMaterialed)
    \<and> db_items (plant t u anchor n ids seq cursor d) = db_items d
    \<and> db_notifications (plant t u anchor n ids seq cursor d) = db_notifications d"
proof (induction t u anchor n ids seq cursor d rule: plant.induct)
  case (2 t u anchor n i ids seq cursor d)
  show ?case
  proof (cases "NextOccurrenceAfter anchor n cursor")
    case (Inr p)
    obtain k date where p: "p = (k, date)" by fastforce
    from "2.IH" [OF Inr p [symmetric]] show ?thesis
      by (clarsimp simp: Inr p log_event_def add_occurrence_def event_of_def materialized_event_def)
  qed simp
qed simp

lemma topped_up_frame:
  "others_kept u d (topped_up t u anchor n ids td d) \<and> (\<exists>new rest.
      db_occurrences (topped_up t u anchor n ids td d) = db_occurrences d @ new
    \<and> db_events (topped_up t u anchor n ids td d) = db_events d @ rest
    \<and> (\<forall>e \<in> set rest. er_schedule_id e = u \<and> er_event_type e = EventOccurrenceMaterialed))"
proof -
  obtain new rest where
    "db_occurrences (plant t u anchor n ids (max_sequence u d) (cursor_of u td d) d) = db_occurrences d @ new"
    "\<forall>oc \<in> set new. or_schedule_id oc = u"
    "db_events (plant t u anchor n ids (max_sequence u d) (cursor_of u td d) d) = db_events d @ rest"
    "\<forall>e \<in> set rest. er_schedule_id e = u \<and> er_event_type e = EventOccurrenceMaterialed"
    "db_items (plant t u anchor n ids (max_sequence u d) (cursor_of u td d) d) = db_items d"
    "db_notifications (plant t u anchor n ids (max_sequence u d) (cursor_of u td d) d) = db_notifications d"
    using plant_frame [of t u anchor n ids "max_sequence u d" "cursor_of u td d" d] by blast
  then show ?thesis
    by (auto simp: topped_up_def refreshed_def others_kept_def set_schedule_def filter_update_where filter_empty_conv)
qed

lemma others_kept_trans: "others_kept u d1 d2 \<Longrightarrow> others_kept u d2 d3 \<Longrightarrow> others_kept u d1 d3"
  by (simp add: others_kept_def)

lemma others_kept_pieces [simp]:
  "others_kept u d (log_event e d') = others_kept u d d'" "others_kept u d d"
  by (simp_all add: others_kept_def log_event_def)

lemma others_kept_set_schedule [simp]:
  "(\<And>r. sr_id (f r) = sr_id r) \<Longrightarrow> others_kept u d (set_schedule u f d') = others_kept u d d'"
  by (simp add: others_kept_def set_schedule_def filter_update_where)

lemma others_kept_set_occurrences:
  assumes "others_kept u d d'" "\<And>oc. oc \<in> set (db_occurrences d') \<Longrightarrow> p oc \<Longrightarrow> or_schedule_id oc = u"
    and "\<And>oc. or_schedule_id (f oc) = or_schedule_id oc"
  shows "others_kept u d (set_occurrences p f d')"
  using assms by (simp add: others_kept_def set_occurrences_def filter_update_where)

lemma logged_first:
  assumes "db_events d' = db_events d @ [e] @ rest" and "er_schedule_id e = u" "er_event_type e = ty"
    and "er_actor e = c_actor caller" "er_idempotency_key e = key"
    and "\<forall>x \<in> set rest. er_schedule_id x = u \<and> er_event_type x = EventOccurrenceMaterialed"
  shows "logged u ty caller key d d'"
  using assms unfolding logged_def by auto

text \<open>The date bound survives changes that leave no new upcoming date.\<close>

lemma near_mono:
  assumes "near horizon u anchor n td d"
    and "\<And>oc. oc \<in> set (db_occurrences e) \<Longrightarrow> or_schedule_id oc = u \<Longrightarrow> unexecuted oc \<Longrightarrow>
      \<exists>oc' \<in> set (db_occurrences d). or_schedule_id oc' = u \<and> unexecuted oc' \<and> or_scheduled_for oc' = or_scheduled_for oc"
  shows "near horizon u anchor n td e"
  using assms unfolding near_def by metis

text \<open>All of it, for the state an action leaves.\<close>

lemma refilled:
  assumes "near horizon u anchor n td e" and "valid_date td" and "stored_ids W (missing u horizon td e) ids"
    and "d' = topped_up t u anchor n ids td e" and "others_kept u d e" and "logged u ty caller key d e"
  shows "up_to_date u td horizon d' \<and> others_kept u d d' \<and> logged u ty caller key d d'
    \<and> db_occurrences d' = db_occurrences e @
        planted t u anchor n ids (max_sequence u e) (first_after anchor n (cursor_of u td e))"
proof -
  obtain rest where "db_events d' = db_events e @ rest"
    "\<forall>x \<in> set rest. er_schedule_id x = u \<and> er_event_type x = EventOccurrenceMaterialed" and "others_kept u e d'"
    using topped_up_frame unfolding assms(4) by blast
  then show ?thesis
    using topped_up_effect [OF assms(1-3)] assms(4-6) others_kept_trans by (auto simp: logged_def)
qed

lemma logged_pieces [simp]:
  "logged u ty caller key d (set_schedule v f e) = logged u ty caller key d e"
  "logged u ty caller key d (set_occurrences p g e) = logged u ty caller key d e"
  by (simp_all add: logged_def)

lemma logged_event:
  "logged u ty caller key d (log_event (event_of t u (service_event v ty caller key reason body)) e)" if "db_events e = db_events d"
  using that by (simp add: logged_def log_event_def event_of_def service_event_def)

end
