(* ===== verification/Actions.thy ===== *)
theory Actions
  imports Demo Rows
begin

text \<open>
  What each action of \<open>internal/schedule\<close> has done to the database once it has returned, stated on
  its rows, and what it has done when it fails. Every property is closed by a run on the
  concrete system of \<open>Demo\<close>.
\<close>

section \<open>Stopping a schedule\<close>

text \<open>C14. A pause that returns has, in one transaction on the locked row of an active schedule of
  the caller, set status, pause date and next run, canceled everything upcoming, appended one
  event, and changed nothing else; a pause date lies in the customer's future.\<close>

theorem pause_effect:
  assumes "canonical W" and "svc_repo svc = postgres W" and "st_tx s = None"
    and "Pause W svc i until caller s = (Inr out, s')"
  shows "\<exists>u r. locked W i ActionPause caller (begun W s) u r \<and> future_for W r until
    \<and> (let d = begun W s; d' = st_db s'; t = w_dbnow W (st_ticks s) in
       db_schedules d' = update_where (\<lambda>r. sr_id r = u)
         (\<lambda>r. r\<lparr>sr_status := SchedulePaused, sr_paused_until := datePtr until,
               sr_next_run_date := None, sr_updated_at := t\<rparr>) (db_schedules d)
     \<and> db_occurrences d' = update_where
         (\<lambda>oc. or_schedule_id oc = u \<and> or_status oc \<in> {OccurrencePlanned, OccurrencePending} \<and> or_order_id oc = None)
         (\<lambda>oc. oc\<lparr>or_status := OccurrenceCanceled, or_updated_at := t\<rparr>) (db_occurrences d)
     \<and> (\<exists>e. db_events d' = db_events d @ [e] \<and> er_schedule_id e = u
           \<and> er_event_type e = EventSchedulePaused \<and> er_actor e = c_actor caller)
     \<and> db_items d' = db_items d \<and> db_notifications d' = db_notifications d)"
  using Pause_commits [OF assms] by (auto simp: committed update_where_twice Let_def)

lemma pause_effect_witness:
  "\<exists>out s'. Pause demo_world demo_service ''s1'' None ann demo_session = (Inr out, s') \<and>
     map sr_status (filter (\<lambda>r. sr_id r = ''s1'') (db_schedules (st_db s'))) = [SchedulePaused]"
proof -
  obtain out s' where run: "Pause demo_world demo_service ''s1'' None ann demo_session = (Inr out, s')"
    using demo_pauses by blast
  from pause_effect [OF demo_world_canonical demo_service_sel(1) demo_session_sel(1) run]
  show ?thesis using run
    by (auto simp: Let_def demo_begun locked_def demo_db_def demo_row_def update_where_def)
qed

text \<open>C15. A cancellation that returns had one of the listed reasons, and has stopped the locked
  schedule for good: status canceled, nothing upcoming, no next run, one event with the reason,
  and nothing else changed.\<close>

theorem cancel_effect:
  assumes "canonical W" and "svc_repo svc = postgres W" and "st_tx s = None"
    and "Cancel W svc i reason caller s = (Inr out, s')"
  shows "\<exists>u r. locked W i ActionCancel caller (begun W s) u r \<and> reason \<in> set CancellationReasons
    \<and> (let d = begun W s; d' = st_db s'; t = w_dbnow W (st_ticks s) in
       db_schedules d' = update_where (\<lambda>r. sr_id r = u)
         (\<lambda>r. r\<lparr>sr_status := ScheduleCanceled, sr_paused_until := None,
               sr_next_run_date := None, sr_updated_at := t\<rparr>) (db_schedules d)
     \<and> db_occurrences d' = update_where
         (\<lambda>oc. or_schedule_id oc = u \<and> or_status oc \<in> {OccurrencePlanned, OccurrencePending} \<and> or_order_id oc = None)
         (\<lambda>oc. oc\<lparr>or_status := OccurrenceCanceled, or_updated_at := t\<rparr>) (db_occurrences d)
     \<and> (\<exists>e. db_events d' = db_events d @ [e] \<and> er_schedule_id e = u
           \<and> er_event_type e = EventScheduleCanceled \<and> er_reason_code e = Some reason \<and> er_actor e = c_actor caller)
     \<and> db_items d' = db_items d \<and> db_notifications d' = db_notifications d)"
proof -
  have "reason \<in> set CancellationReasons"
    using check_Inr [OF assms(4) [unfolded Cancel_def], THEN conjunct1] by (simp add: ValidateCancellationReason_None)
  then show ?thesis
    using Cancel_commits [OF assms] by (auto simp: committed update_where_twice Let_def datePtr_def)
qed

lemma cancel_effect_witness:
  "\<exists>out s'. Cancel demo_world demo_service ''s1'' ''other'' ann demo_session = (Inr out, s') \<and>
     map sr_status (filter (\<lambda>r. sr_id r = ''s1'') (db_schedules (st_db s'))) = [ScheduleCanceled]"
proof -
  obtain out s' where run: "Cancel demo_world demo_service ''s1'' ''other'' ann demo_session = (Inr out, s')"
    using demo_cancels by blast
  from cancel_effect [OF demo_world_canonical demo_service_sel(1) demo_session_sel(1) run]
  show ?thesis using run
    by (auto simp: Let_def demo_begun locked_def demo_db_def demo_row_def update_where_def)
qed

section \<open>Arming\<close>

text \<open>C16. Arming moves exactly the first planned occurrence of an active schedule to pending, with
  one event, and changes nothing else.\<close>

theorem arm_effect:
  assumes "canonical W" and "svc_repo svc = postgres W" and "st_tx s = None" and "canonical_db W (begun W s)"
    and "ArmNext W svc i caller s = (Inr out, s')"
  shows "\<exists>u r oc. locked W i ActionArm caller (begun W s) u r \<and> first_of planned u (begun W s) oc
    \<and> (let d = begun W s; d' = st_db s'; t = w_dbnow W (st_ticks s) in
       db_occurrences d' = update_where (\<lambda>x. or_id x = or_id oc \<and> or_order_id x = None)
         (\<lambda>x. x\<lparr>or_status := OccurrencePending, or_updated_at := t\<rparr>) (db_occurrences d)
     \<and> (\<exists>e. db_events d' = db_events d @ [e] \<and> er_schedule_id e = u
           \<and> er_event_type e = EventOccurrenceArmed \<and> er_actor e = c_actor caller)
     \<and> db_schedules d' = db_schedules d \<and> db_items d' = db_items d \<and> db_notifications d' = db_notifications d)"
proof -
  obtain u r oc where l: "locked W i ActionArm caller (begun W s) u r" and oc: "next_planned u (begun W s) = Some oc"
    and d': "st_db s' = arm_db (w_dbnow W (st_ticks s)) u oc caller (begun W s)"
    using ArmNext_commits [OF assms(1-3,5,4)] by blast
  show ?thesis
    by (rule exI [of _ u], rule exI [of _ r], rule exI [of _ oc])
      (use l next_first_of(1) [OF oc] in \<open>auto simp: d' committed Let_def\<close>)
qed

lemma arm_effect_witness:
  "\<exists>out s'. ArmNext demo_world demo_service ''s1'' ann demo_session = (Inr out, s') \<and>
     map or_status (filter (\<lambda>oc. or_id oc = ''x1'') (db_occurrences (st_db s'))) = [OccurrencePending]"
proof -
  obtain out s' where run: "ArmNext demo_world demo_service ''s1'' ann demo_session = (Inr out, s')"
    using demo_arms by blast
  from arm_effect [OF demo_world_canonical demo_service_sel(1) demo_session_sel(1) demo_canonical_db run]
  show ?thesis using run
    by (auto simp: Let_def demo_begun locked_def first_of_def demo_db_def demo_row_def demo_occurrence_def update_where_def)
qed

section \<open>Skipping and deferring\<close>

lemma same_in: "db_wf d \<Longrightarrow> oc \<in> set (db_occurrences d) \<Longrightarrow> oc' \<in> set (db_occurrences d) \<Longrightarrow> or_id oc' = or_id oc \<Longrightarrow> oc' = oc"
  by (auto simp: db_wf_def dest: unique_by_key)

lemma max_sequence_pieces:
  "max_sequence u (log_event e d) = max_sequence u d"
  "max_sequence u (set_schedule v g d) = max_sequence u d"
  "(\<And>x. or_schedule_id (f x) = or_schedule_id x) \<Longrightarrow> (\<And>x. or_sequence_no (f x) = or_sequence_no x) \<Longrightarrow>
     max_sequence u (set_occurrences p f d) = max_sequence u d"
proof -
  assume f: "\<And>x. or_schedule_id (f x) = or_schedule_id x" "\<And>x. or_sequence_no (f x) = or_sequence_no x"
  have "map or_sequence_no (filter (\<lambda>r. or_schedule_id r = u) (update_where p f rs))
      = map or_sequence_no (filter (\<lambda>r. or_schedule_id r = u) rs)" for rs
    by (induction rs) (auto simp: update_where_def f)
  then show "max_sequence u (set_occurrences p f d) = max_sequence u d"
    by (simp add: max_sequence_def occurrences_where_def set_occurrences_def)
qed (simp_all add: max_sequence_def occurrences_where_def)

lemma skipped_pieces:
  assumes "db_wf d" "first_of unexecuted u d oc"
  shows "others_kept u d (skipped_db t u oc key caller d)"
    and "near horizon u anchor n td d \<Longrightarrow> near horizon u anchor n td (skipped_db t u oc key caller d)"
proof -
  note oc = assms(2) [unfolded first_of_def]
  show "others_kept u d (skipped_db t u oc key caller d)"
    using oc same_in [OF assms(1)]
    by (auto simp: skipped_db_def set_occurrence_def intro!: others_kept_set_occurrences)
  show "near horizon u anchor n td (skipped_db t u oc key caller d)" if near: "near horizon u anchor n td d"
    by (rule near_mono [OF near])
      (auto simp: skipped_db_def set_occurrence_def set_update_where unexecuted_def split: if_splits)
qed

text \<open>C9. Skipping is idempotent under its key: a key already in the log changes nothing at all.
  A new key marks exactly the first upcoming occurrence as skipped, logs that under the key, and
  refills the schedule: the planned dates follow on the rhythm of the anchor, the horizon is full
  and the next run is the earliest planned day; no other schedule is touched.\<close>

theorem skip_effect:
  assumes "canonical W" and "svc_repo svc = postgres W" and "st_tx s = None"
    and "canonical_db W (begun W s)" and "db_wf (begun W s)"
    and "\<And>u r k. locked W i ActionSkipNext caller (begun W s) u r \<Longrightarrow> near (m_horizon (svc_mat svc)) u
        (date_of_day (sr_anchor_date r)) (sr_interval_days r) (today_of W r k) (begun W s)"
    and "SkipNext W svc i key caller s = (Inr out, s')"
  shows "\<exists>u r. locked W i ActionSkipNext caller (begun W s) u r
    \<and> (let d = begun W s; d' = st_db s'; t = w_dbnow W (st_ticks s) in
       if key_used u EventOccurrenceSkipped key d then d' = d
       else \<exists>oc k ids cursor. first_of unexecuted u d oc
         \<and> db_occurrences d' = update_where (\<lambda>x. or_id x = or_id oc \<and> or_order_id x = None)
              (\<lambda>x. x\<lparr>or_status := OccurrenceSkipped, or_updated_at := t\<rparr>) (db_occurrences d)
            @ planted t u (date_of_day (sr_anchor_date r)) (sr_interval_days r) ids (max_sequence u d)
                (first_after (date_of_day (sr_anchor_date r)) (sr_interval_days r) cursor)
         \<and> up_to_date u (today_of W r k) (m_horizon (svc_mat svc)) d'
         \<and> logged u EventOccurrenceSkipped caller (Some key) d d' \<and> others_kept u d d')"
proof -
  let ?d = "begun W s" and ?t = "w_dbnow W (st_ticks s)"
  obtain u r where l: "locked W i ActionSkipNext caller ?d u r"
    and to: "skipped_to W (m_horizon (svc_mat svc)) r ?t u key caller ?d (st_db s')"
    using SkipNext_commits [OF assms(1-3,7,4)] by blast
  let ?anchor = "date_of_day (sr_anchor_date r)"
  have "\<exists>oc k ids cursor. first_of unexecuted u ?d oc
         \<and> db_occurrences (st_db s') = update_where (\<lambda>x. or_id x = or_id oc \<and> or_order_id x = None)
              (\<lambda>x. x\<lparr>or_status := OccurrenceSkipped, or_updated_at := ?t\<rparr>) (db_occurrences ?d)
            @ planted ?t u ?anchor (sr_interval_days r) ids (max_sequence u ?d) (first_after ?anchor (sr_interval_days r) cursor)
         \<and> up_to_date u (today_of W r k) (m_horizon (svc_mat svc)) (st_db s')
         \<and> logged u EventOccurrenceSkipped caller (Some key) ?d (st_db s') \<and> others_kept u ?d (st_db s')"
    if new: "\<not> key_used u EventOccurrenceSkipped key ?d"
  proof -
    obtain oc k ids where oc: "next_unexecuted u ?d = Some oc"
      and ids: "stored_ids W (missing u (m_horizon (svc_mat svc)) (today_of W r k) (skipped_db ?t u oc key caller ?d)) ids"
      and d': "st_db s' = topped_up ?t u ?anchor (sr_interval_days r) ids (today_of W r k) (skipped_db ?t u oc key caller ?d)"
      using to new by (auto simp: skipped_to_def Let_def)
    let ?e = "skipped_db ?t u oc key caller ?d"
    note first = next_first_of(2) [OF oc]
    have "near (m_horizon (svc_mat svc)) u ?anchor (sr_interval_days r) (today_of W r k) ?e"
      by (rule skipped_pieces(2) [OF assms(5) first assms(6) [OF l]])
    moreover have "logged u EventOccurrenceSkipped caller (Some key) ?d ?e"
      by (simp add: skipped_db_def logged_event set_occurrence_def)
    moreover have "max_sequence u ?e = max_sequence u ?d"
      by (simp add: skipped_db_def set_occurrence_def max_sequence_pieces)
    moreover have "db_occurrences ?e = update_where (\<lambda>x. or_id x = or_id oc \<and> or_order_id x = None)
        (\<lambda>x. x\<lparr>or_status := OccurrenceSkipped, or_updated_at := ?t\<rparr>) (db_occurrences ?d)"
      by (simp add: skipped_db_def committed)
    ultimately show ?thesis
      using refilled [OF _ _ ids d' skipped_pieces(1) [OF assms(5) first]] first
      by (intro exI [of _ oc] exI [of _ k] exI [of _ ids] exI [of _ "cursor_of u (today_of W r k) ?e"])
        (simp add: today_of_def DateOf_def)
  qed
  then show ?thesis using l to by (intro exI [of _ u] exI [of _ r]) (auto simp: Let_def skipped_to_def)
qed

lemma demo_near:
  assumes "r \<in> set (db_schedules demo_db)"
  shows "near 2 (sr_id r) (date_of_day (sr_anchor_date r)) (sr_interval_days r) (today_of demo_world r' k) demo_db"
  using assms
  by (auto simp: near_def today_of_def DateOf_def local_day_def utc_def zone_of_def demo_db_def demo_row_def
      demo_occurrence_def)

lemma demo_locked:
  "locked demo_world ''s1'' a ann demo_db u r \<Longrightarrow> u = ''s1'' \<and> r = demo_row ''s1'' ''ann'' ScheduleActive None"
  "locked demo_world ''s3'' a ann demo_db u r \<Longrightarrow> u = ''s3'' \<and> r = demo_row ''s3'' ''ann'' SchedulePaused (Some 10)"
  by (auto simp: locked_def schedule_at_def demo_db_def demo_row_def split: if_splits)

lemma demo_wf: "db_wf demo_db"
  using demo_invariant by (simp add: invariant_def)

lemma demo_near_begun:
  "locked demo_world i a caller (begun demo_world demo_session) u r \<Longrightarrow>
     near (m_horizon (svc_mat demo_service)) u (date_of_day (sr_anchor_date r)) (sr_interval_days r)
       (today_of demo_world r k) (begun demo_world demo_session)"
  using demo_near [of r r k] locked_row by (auto simp: demo_begun)

lemma demo_wf_begun: "db_wf (begun demo_world demo_session)"
  by (simp add: demo_begun demo_wf)

lemma skip_effect_witness:
  "\<exists>out s' k. SkipNext demo_world demo_service ''s1'' ''k'' ann demo_session = (Inr out, s')
     \<and> logged ''s1'' EventOccurrenceSkipped ann (Some ''k'') demo_db (st_db s')
     \<and> up_to_date ''s1'' (today_of demo_world (demo_row ''s1'' ''ann'' ScheduleActive None) k) 2 (st_db s')"
proof -
  obtain out s' where run: "SkipNext demo_world demo_service ''s1'' ''k'' ann demo_session = (Inr out, s')"
    using demo_skips by blast
  have "\<not> key_used u EventOccurrenceSkipped ''k'' demo_db" for u
    by (simp add: key_used_def event_key_def demo_db_def demo_event_def)
  then show ?thesis
    using run demo_locked(1) skip_effect [OF demo_world_canonical demo_service_sel(1) demo_session_sel(1)
        demo_canonical_db demo_wf_begun demo_near_begun run]
    by (fastforce simp: demo_begun Let_def)
qed

lemma earliest_planned_refreshed:
  "earliest_planned u day (refreshed t v td e) = earliest_planned u day e"
  by (simp add: earliest_planned_def future_planned_def occurrences_where_def refreshed_def)

lemma refreshed_schedules:
  "valid_date td \<Longrightarrow> db_schedules (refreshed t u td e) = update_where (\<lambda>r. sr_id r = u)
     (next_run_row (earliest_planned u (ToTime td) (refreshed t u td e)) t) (db_schedules e)"
  by (simp only: earliest_planned_refreshed) (simp add: refreshed_def next_run_earliest)

lemma refreshed_next_run:
  "valid_date td \<Longrightarrow> \<forall>r \<in> set (db_schedules (refreshed t u td e)). sr_id r = u \<longrightarrow>
     sr_next_run_date r = earliest_planned u (ToTime td) (refreshed t u td e)"
  by (simp only: earliest_planned_refreshed) (simp add: refreshed_def next_run_earliest)

lemma valid_today [simp]: "valid_date (today_of W r k)"
  by (simp add: today_of_def DateOf_def)

text \<open>C10. Deferring is idempotent under its key. A new key moves exactly the first upcoming
  occurrence by the given number of days, between 1 and 180, logs that under the key, makes the
  next run the earliest planned day to come, and touches nothing else.\<close>

theorem defer_effect:
  assumes "canonical W" and "svc_repo svc = postgres W" and "st_tx s = None"
    and "canonical_db W (begun W s)" and "db_wf (begun W s)"
    and "Defer W svc i days key caller s = (Inr out, s')"
  shows "\<exists>u r. locked W i ActionDefer caller (begun W s) u r \<and> 1 \<le> days \<and> days \<le> 180
    \<and> (let d = begun W s; d' = st_db s'; t = w_dbnow W (st_ticks s) in
       if key_used u EventOccurrenceDeferred key d then d' = d
       else \<exists>oc k. first_of unexecuted u d oc
         \<and> db_occurrences d' = update_where (\<lambda>x. or_id x = or_id oc \<and> unexecuted x)
              (\<lambda>x. x\<lparr>or_scheduled_for := or_scheduled_for oc + days, or_updated_at := t\<rparr>) (db_occurrences d)
         \<and> (\<forall>r' \<in> set (db_schedules d'). sr_id r' = u \<longrightarrow>
              sr_next_run_date r' = earliest_planned u (ToTime (today_of W r k)) d')
         \<and> logged u EventOccurrenceDeferred caller (Some key) d d' \<and> others_kept u d d')"
proof -
  let ?d = "begun W s" and ?t = "w_dbnow W (st_ticks s)"
  have days: "1 \<le> days \<and> days \<le> 180"
    using check_Inr [OF assms(6) [unfolded Defer_def], THEN conjunct1] by (simp add: ValidateDeferDays_None)
  obtain u r where l: "locked W i ActionDefer caller ?d u r"
    and to: "deferred_to W r ?t u days key caller ?d (st_db s')"
    using Defer_commits [OF assms(1-3,6,4)] by blast
  show ?thesis
  proof (cases "key_used u EventOccurrenceDeferred key ?d")
    case True
    then show ?thesis using l to days by (auto simp: deferred_to_def Let_def)
  next
    case False
    then obtain oc k where oc: "next_unexecuted u ?d = Some oc"
      and d': "st_db s' = refreshed ?t u (today_of W r k) (defer_db ?t u oc days key caller ?d)"
      using to by (auto simp: deferred_to_def)
    note first = next_first_of(2) [OF oc]
    have "db_occurrences (st_db s') = update_where (\<lambda>x. or_id x = or_id oc \<and> unexecuted x)
        (\<lambda>x. x\<lparr>or_scheduled_for := or_scheduled_for oc + days, or_updated_at := ?t\<rparr>) (db_occurrences ?d)"
      by (simp add: d' refreshed_def defer_db_def committed)
    moreover have "logged u EventOccurrenceDeferred caller (Some key) ?d (st_db s')"
      by (simp add: d' refreshed_def defer_db_def logged_event)
    moreover have "others_kept u ?d (st_db s')"
      using first same_in [OF assms(5)]
      by (auto simp: d' refreshed_def defer_db_def first_of_def intro!: others_kept_set_occurrences)
    moreover have "\<forall>r' \<in> set (db_schedules (st_db s')). sr_id r' = u \<longrightarrow>
        sr_next_run_date r' = earliest_planned u (ToTime (today_of W r k)) (st_db s')"
      unfolding d' by (rule refreshed_next_run) simp
    ultimately show ?thesis
      using False l days first
      by (intro exI [of _ u] exI [of _ r]) (simp only: Let_def False if_False, blast)
  qed
qed

lemma defer_effect_witness:
  "\<exists>out s'. Defer demo_world demo_service ''s1'' 9 ''k'' ann demo_session = (Inr out, s')
     \<and> logged ''s1'' EventOccurrenceDeferred ann (Some ''k'') demo_db (st_db s') \<and> others_kept ''s1'' demo_db (st_db s')"
proof -
  obtain out s' where run: "Defer demo_world demo_service ''s1'' 9 ''k'' ann demo_session = (Inr out, s')"
    using demo_defers by blast
  have "\<not> key_used u EventOccurrenceDeferred ''k'' demo_db" for u
    by (simp add: key_used_def event_key_def demo_db_def demo_event_def)
  then show ?thesis
    using run demo_locked(1) defer_effect [OF demo_world_canonical demo_service_sel(1) demo_session_sel(1)
        demo_canonical_db demo_wf_begun run]
    by (fastforce simp: demo_begun Let_def)
qed

section \<open>Resuming\<close>

lemma quiet_upcoming:
  assumes "stopped_are_quiet d" "r \<in> set (db_schedules d)" "sr_status r = SchedulePaused \<or> sr_status r = ScheduleCanceled"
    and "oc \<in> set (db_occurrences d)" "or_schedule_id oc = sr_id r"
  shows "\<not> unexecuted oc"
  using assms by (auto simp: stopped_are_quiet_def quiet_def)

lemma nothing_upcoming:
  assumes "\<And>oc. oc \<in> set (db_occurrences d) \<Longrightarrow> or_schedule_id oc = u \<Longrightarrow> \<not> unexecuted oc"
  shows "cursor_of u td d = td" and "missing u horizon td d = nat horizon"
proof -
  have none: "occurrences_where u unexecuted d = []" "occurrences_where u (\<lambda>r. planned r \<and> day < or_scheduled_for r) d = []" for day
    using assms planned_unexecuted by (auto simp: occurrences_where_def filter_empty_conv)
  then show "cursor_of u td d = td" "missing u horizon td d = nat horizon"
    by (simp_all add: cursor_of_def latest_day_def sql_max_def missing_def future_planned_def)
qed

lemma planted_days:
  "map or_scheduled_for (planted t u anchor n ids seq k) = map (\<lambda>j. day_of anchor + n * (k + int j)) [0..<length ids]"
  by (simp add: planted_def o_def)

lemma planted_future:
  assumes "7 \<le> n" "0 < length ids"
  shows "future_planned u (day_of td) (d\<lparr>db_occurrences := planted t u td n ids seq 1\<rparr>) = planted t u td n ids seq 1"
    and "Min (set (map or_scheduled_for (planted t u td n ids seq 1))) = day_of td + n"
proof -
  have le: "n \<le> n * (1 + int j)" for j using assms(1) by (simp add: distrib_left)
  then have pos: "0 < n * (1 + int j)" for j using assms(1) less_le_trans [of 0 n] by simp
  show "future_planned u (day_of td) (d\<lparr>db_occurrences := planted t u td n ids seq 1\<rparr>) = planted t u td n ids seq 1"
    using pos by (auto simp: future_planned_def occurrences_where_def planted_def planned_def filter_id_conv)
  show "Min (set (map or_scheduled_for (planted t u td n ids seq 1))) = day_of td + n"
    unfolding planted_days using assms le by (intro Min_eqI) (auto intro!: image_eqI [of _ _ 0])
qed

lemma update_where_cong:
  "(\<And>x. x \<in> set rs \<Longrightarrow> p x \<Longrightarrow> f x = g x) \<Longrightarrow> update_where p f rs = update_where p g rs"
  by (auto simp: update_where_def)

lemma planted_next_run:
  fixes d d' :: db
  assumes n: "7 \<le> n" and ids: "0 < length ids"
    and idle: "\<And>oc. oc \<in> set (db_occurrences d) \<Longrightarrow> or_schedule_id oc = u \<Longrightarrow> \<not> unexecuted oc"
    and occs: "db_occurrences d' = db_occurrences d @ planted t u td n ids seq 1"
  shows "earliest_planned u (ToTime td) d' = Some (day_of td + n)"
proof -
  have "filter (\<lambda>r. or_schedule_id r = u \<and> planned r \<and> day_of td < or_scheduled_for r) (db_occurrences d) = []"
    using idle planned_unexecuted by (auto simp: filter_empty_conv)
  then have "future_planned u (ToTime td) d' = planted t u td n ids seq 1"
    using planted_future(1) [OF n ids, where u = u and td = td and d = d and t = t and seq = seq]
    by (simp add: future_planned_def occurrences_where_def occs ToTime_def)
  moreover have "planted t u td n ids seq 1 \<noteq> []" using ids by (auto simp: planted_def)
  ultimately show ?thesis
    using planted_future(2) [OF n ids, where u = u and td = td and t = t and seq = seq]
      earliest_planned_Some [of u "ToTime td" d'] by simp
qed

text \<open>The row a resumed schedule is left with.\<close>

lemma resumed_row:
  assumes "db_wf d" "r \<in> set (db_schedules d)" "sr_id r = u"
  shows "update_where (\<lambda>r. sr_id r = u) (next_run_row (Some nxt) t) (db_schedules (resumed_db t r u td caller d))
    = update_where (\<lambda>r. sr_id r = u)
        (\<lambda>x. x\<lparr>sr_status := ScheduleActive, sr_paused_until := None, sr_anchor_date := day_of td,
               sr_next_run_date := Some nxt, sr_updated_at := t\<rparr>) (db_schedules d)"
proof -
  have "x = r" if "x \<in> set (db_schedules d)" "sr_id x = u" for x
    using same_row [OF assms(1) that(1) assms(2)] that(2) assms(3) by simp
  then show ?thesis
    by (simp add: resumed_db_def update_where_twice)
      (auto intro!: update_where_cong simp: next_run_row_def cadence_row_def status_row_def ToTime_def)
qed

text \<open>C12. Resuming starts a paused schedule afresh from the customer's today: active, anchored at
  that day, no pause date, and a full horizon of planned occurrences at exactly one, two, three
  ... intervals after it, numbered on from the highest number used; the first of them is the
  next run.\<close>

theorem resume_effect:
  assumes "canonical W" and "svc_repo svc = postgres W" and "st_tx s = None" and "invariant W (begun W s)"
    and "1 \<le> m_horizon (svc_mat svc)" and "180 * m_horizon (svc_mat svc) \<le> 106751"
    and "Resume W svc i caller s = (Inr out, s')"
  shows "\<exists>u r td k ids. locked W i ActionResume caller (begun W s) u r \<and> td = today_of W r k
    \<and> length ids = nat (m_horizon (svc_mat svc))
    \<and> (let d = begun W s; d' = st_db s'; t = w_dbnow W (st_ticks s) in
       db_schedules d' = update_where (\<lambda>r. sr_id r = u)
         (\<lambda>x. x\<lparr>sr_status := ScheduleActive, sr_paused_until := None, sr_anchor_date := day_of td,
               sr_next_run_date := Some (day_of td + sr_interval_days r),
               sr_updated_at := t\<rparr>) (db_schedules d)
     \<and> db_occurrences d' = db_occurrences d @ planted t u td (sr_interval_days r) ids (max_sequence u d) 1
     \<and> logged u EventScheduleResumed caller None d d' \<and> others_kept u d d')"
proof -
  let ?d = "begun W s" and ?t = "w_dbnow W (st_ticks s)" and ?h = "m_horizon (svc_mat svc)"
  obtain u r where l: "locked W i ActionResume caller ?d u r" and to: "resumed_to W ?h r ?t u caller ?d (st_db s')"
    using Resume_commits [OF assms(1-3,7)] by blast
  define n where "n = sr_interval_days r"
  obtain td k ids where td: "td = today_of W r k"
    and ids: "stored_ids W (missing u ?h td (resumed_db ?t r u td caller ?d)) ids"
    and d': "st_db s' = topped_up ?t u td n ids td (resumed_db ?t r u td caller ?d)"
    using to by (auto simp: resumed_to_def Let_def n_def)
  let ?e = "resumed_db ?t r u td caller ?d"
  have wf: "db_wf ?d" and quiet: "stopped_are_quiet ?d" using assms(4) by (simp_all add: invariant_def)
  note row = locked_row [OF l]
  have "checks_hold (schedule_checks r)" using wf row(1) by (simp add: db_wf_def)
  then have n: "7 \<le> n" "n \<le> 180" by (simp_all add: schedule_checks_def n_def)
  have vd: "valid_date td" by (simp add: td)
  have occs: "db_occurrences ?e = db_occurrences ?d" by (simp add: resumed_db_def)
  have idle: "\<not> unexecuted oc" if "oc \<in> set (db_occurrences ?e)" "or_schedule_id oc = u" for oc
    using quiet_upcoming [OF quiet row(1)] row(2,3) that by (simp add: occs)
  have none: "cursor_of u td ?e = td" "missing u ?h td ?e = nat ?h" using nothing_upcoming [of ?e u] idle by blast+
  have len: "length ids = nat ?h" using ids none(2) by (simp add: stored_ids_def)
  have "near ?h u td n td ?e"
  proof -
    have "n * max 0 ?h \<le> 180 * ?h" using n assms(5) by (simp add: mult_right_mono)
    with n assms(6) idle show ?thesis unfolding near_def by auto
  qed
  moreover have "others_kept u ?d ?e" "logged u EventScheduleResumed caller None ?d ?e" "max_sequence u ?e = max_sequence u ?d"
    by (simp_all add: resumed_db_def logged_event max_sequence_pieces)
  ultimately have re: "up_to_date u td ?h (st_db s')" "others_kept u ?d (st_db s')" "logged u EventScheduleResumed caller None ?d (st_db s')"
    "db_occurrences (st_db s') = db_occurrences ?d @ planted ?t u td n ids (max_sequence u ?d) 1"
    using refilled [OF _ vd ids d'] none(1) n by (simp_all add: occs first_after_def)
  have "earliest_planned u (ToTime td) (st_db s') = Some (day_of td + n)"
    by (rule planted_next_run [OF n(1) _ _ re(4)]) (use len assms(5) idle in \<open>auto simp: occs\<close>)
  then have "db_schedules (st_db s') = update_where (\<lambda>r. sr_id r = u)
      (next_run_row (Some (day_of td + n)) ?t) (db_schedules ?e)"
    using refreshed_schedules [OF vd] unfolding d' topped_up_def by simp
  note sched = this [unfolded resumed_row [OF wf row(1,2)]]
  with l td len re sched show ?thesis
    by (intro exI [of _ u] exI [of _ r] exI [of _ td] exI [of _ k] exI [of _ ids]) (simp add: Let_def n_def)
qed

lemma demo_invariant_begun: "invariant demo_world (begun demo_world demo_session)"
  by (simp add: demo_begun demo_invariant)

lemma resume_effect_witness:
  "\<exists>out s'. Resume demo_world demo_service ''s3'' ann demo_session = (Inr out, s')
     \<and> logged ''s3'' EventScheduleResumed ann None demo_db (st_db s') \<and> others_kept ''s3'' demo_db (st_db s')"
proof -
  obtain out s' where run: "Resume demo_world demo_service ''s3'' ann demo_session = (Inr out, s')"
    using demo_resumes by blast
  then show ?thesis
    using demo_locked(2) resume_effect [OF demo_world_canonical demo_service_sel(1) demo_session_sel(1)
        demo_invariant_begun _ _ run]
    by (fastforce simp: demo_begun Let_def)
qed

section \<open>Changing the cadence\<close>

lemma planned_canceled:
  assumes "oc \<in> set (db_occurrences (rescheduled_db t r u days anchor caller d))" "or_schedule_id oc = u" "unexecuted oc"
  shows "oc \<in> set (db_occurrences d)"
  using assms by (auto simp: rescheduled_db_def set_update_where unexecuted_def split: if_splits)

lemma rescheduled_db_effect:
  shows "db_occurrences (rescheduled_db t r u days anchor caller d) = update_where
      (\<lambda>oc. or_schedule_id oc = u \<and> or_status oc = OccurrencePlanned \<and> or_order_id oc = None)
      (\<lambda>oc. oc\<lparr>or_status := OccurrenceCanceled, or_updated_at := t\<rparr>) (db_occurrences d)"
    and "others_kept u d (rescheduled_db t r u days anchor caller d)"
    and "logged u EventScheduleCadenceChanged caller None d (rescheduled_db t r u days anchor caller d)"
    and "max_sequence u (rescheduled_db t r u days anchor caller d) = max_sequence u d"
    and "\<forall>x \<in> set (db_schedules (rescheduled_db t r u days anchor caller d)).
      sr_id x = u \<longrightarrow> sr_interval_days x = days \<and> sr_anchor_date x = day_of anchor"
proof -
  let ?e = "rescheduled_db t r u days anchor caller d"
  show "others_kept u d ?e" "logged u EventScheduleCadenceChanged caller None d ?e" "max_sequence u ?e = max_sequence u d"
    by (auto simp: rescheduled_db_def logged_event max_sequence_pieces cancelable_def intro!: others_kept_set_occurrences)
qed (simp_all add: rescheduled_db_def committed cadence_row_def ToTime_def)

lemma topped_up_cadence:
  assumes "valid_date td" and "\<forall>x \<in> set (db_schedules e). sr_id x = u \<longrightarrow> sr_interval_days x = days \<and> sr_anchor_date x = day_of anchor"
  shows "\<forall>x \<in> set (db_schedules (topped_up t u anchor days ids td e)).
    sr_id x = u \<longrightarrow> sr_interval_days x = days \<and> sr_anchor_date x = day_of anchor"
proof -
  define d' where "d' = topped_up t u anchor days ids td e"
  have "db_schedules d' = update_where (\<lambda>r. sr_id r = u) (next_run_row (earliest_planned u (ToTime td) d') t) (db_schedules e)"
    using refreshed_schedules [OF assms(1)] unfolding d'_def topped_up_def by simp
  then show ?thesis unfolding d'_def [symmetric] using assms by (simp add: next_run_row_def)
qed

lemma cadence_anchor_cases:
  "case last_placed u d of None \<Rightarrow> cadence_anchor u td d = td | Some oc \<Rightarrow> cadence_anchor u td d = date_of_day (or_scheduled_for oc)"
  by (simp add: cadence_anchor_def split: option.splits)

text \<open>C13. A new cadence of 7 to 180 days is anchored at the last placed order, or at the customer's
  today if there is none. On an active schedule every planned occurrence without an order is
  canceled and the horizon is filled again on the new rhythm, after everything still upcoming; a
  paused schedule stays without planned occurrences and without a next run. Settled and armed
  occurrences keep their rows, and no other schedule is touched.\<close>

theorem cadence_effect:
  assumes "canonical W" and "svc_repo svc = postgres W" and "st_tx s = None"
    and "\<And>u r k. locked W i ActionChangeCadence caller (begun W s) u r \<Longrightarrow> near (m_horizon (svc_mat svc)) u
        (cadence_anchor u (today_of W r k) (begun W s)) days (today_of W r k) (begun W s)"
    and "ChangeCadence W svc i days caller s = (Inr out, s')"
  shows "\<exists>u r k anchor new. locked W i ActionChangeCadence caller (begun W s) u r \<and> 7 \<le> days \<and> days \<le> 180
    \<and> (let d = begun W s; d' = st_db s'; t = w_dbnow W (st_ticks s); td = today_of W r k in
       (case last_placed u d of None \<Rightarrow> anchor = td | Some oc \<Rightarrow> anchor = date_of_day (or_scheduled_for oc))
     \<and> db_occurrences d' = update_where
         (\<lambda>oc. or_schedule_id oc = u \<and> or_status oc = OccurrencePlanned \<and> or_order_id oc = None)
         (\<lambda>oc. oc\<lparr>or_status := OccurrenceCanceled, or_updated_at := t\<rparr>) (db_occurrences d) @ new
     \<and> (\<forall>x \<in> set (db_schedules d'). sr_id x = u \<longrightarrow> sr_interval_days x = days \<and> sr_anchor_date x = day_of anchor)
     \<and> (if sr_status r = ScheduleActive
        then up_to_date u td (m_horizon (svc_mat svc)) d'
          \<and> (\<exists>ids cursor. new = planted t u anchor days ids (max_sequence u d) (first_after anchor days cursor))
        else new = [] \<and> (\<forall>x \<in> set (db_schedules d'). sr_id x = u \<longrightarrow> sr_next_run_date x = None))
     \<and> logged u EventScheduleCadenceChanged caller None d d' \<and> others_kept u d d')"
proof -
  let ?d = "begun W s" and ?t = "w_dbnow W (st_ticks s)" and ?h = "m_horizon (svc_mat svc)"
  have days: "7 \<le> days \<and> days \<le> 180"
    using check_Inr [OF assms(5) [unfolded ChangeCadence_def], THEN conjunct1] by (simp add: ValidateInterval_None)
  obtain u r where l: "locked W i ActionChangeCadence caller ?d u r"
    and to: "rescheduled_to W ?h r ?t u days caller ?d (st_db s')"
    using ChangeCadence_commits [OF assms(1-3,5)] by blast
  obtain k where k: "let td = today_of W r k; anchor = cadence_anchor u td ?d;
              e = rescheduled_db ?t r u days anchor caller ?d in
       if sr_status r = ScheduleActive
       then \<exists>ids. stored_ids W (missing u ?h td e) ids \<and> st_db s' = topped_up ?t u anchor days ids td e
       else st_db s' = set_schedule u (next_run_row None ?t) e"
    using to unfolding rescheduled_to_def by blast
  define td anchor where "td = today_of W r k" and "anchor = cadence_anchor u td ?d"
  let ?e = "rescheduled_db ?t r u days anchor caller ?d"
  note a = cadence_anchor_cases [of u td ?d, folded anchor_def]
  note e = rescheduled_db_effect [where t = ?t and r = r and u = u and days = days and anchor = anchor and caller = caller and d = ?d]
  show ?thesis
  proof (cases "sr_status r = ScheduleActive")
    case True
    then obtain ids where ids: "stored_ids W (missing u ?h td ?e) ids" and d': "st_db s' = topped_up ?t u anchor days ids td ?e"
      using k by (auto simp: Let_def td_def anchor_def)
    have near: "near ?h u anchor days td ?e"
    proof (rule near_mono)
      show "near ?h u anchor days td ?d" using assms(4) [OF l, of k] by (simp add: td_def anchor_def)
    qed (use planned_canceled in blast)
    have "\<forall>x \<in> set (db_schedules (st_db s')). sr_id x = u \<longrightarrow> sr_interval_days x = days \<and> sr_anchor_date x = day_of anchor"
      unfolding d' by (rule topped_up_cadence [OF _ e(5)]) (simp add: td_def)
    moreover have "valid_date td" by (simp add: td_def)
    note re = refilled [OF near this ids d' e(2,3)]
    ultimately show ?thesis
      using l days a
      by (intro exI [of _ u] exI [of _ r] exI [of _ k] exI [of _ anchor]
          exI [of _ "planted ?t u anchor days ids (max_sequence u ?d) (first_after anchor days (cursor_of u td ?e))"])
        (simp only: Let_def td_def [symmetric] True if_True re e(1,4) simp_thms, blast)
  next
    case False
    then have d': "st_db s' = set_schedule u (next_run_row None ?t) ?e"
      using k by (auto simp: Let_def td_def anchor_def)
    then show ?thesis
      using l days a e False
      by (intro exI [of _ u] exI [of _ r] exI [of _ k] exI [of _ anchor] exI [of _ "[]"])
        (simp add: Let_def td_def [symmetric] next_run_row_def)
  qed
qed

lemma cadence_effect_witness:
  "\<exists>out s'. ChangeCadence demo_world demo_service ''s1'' 14 ann demo_session = (Inr out, s')
     \<and> logged ''s1'' EventScheduleCadenceChanged ann None demo_db (st_db s')
     \<and> (\<forall>x \<in> set (db_schedules (st_db s')). sr_id x = ''s1'' \<longrightarrow> sr_interval_days x = 14)"
proof -
  obtain out s' where run: "ChangeCadence demo_world demo_service ''s1'' 14 ann demo_session = (Inr out, s')"
    using demo_changes_cadence by blast
  have near: "near (m_horizon (svc_mat demo_service)) u (cadence_anchor u (today_of demo_world r k) (begun demo_world demo_session))
      14 (today_of demo_world r k) (begun demo_world demo_session)"
    if "locked demo_world ''s1'' ActionChangeCadence ann (begun demo_world demo_session) u r" for u r k
    using demo_locked(1) [of ActionChangeCadence u r] that
    by (auto simp: demo_begun near_def cadence_anchor_def last_placed_def occurrences_where_def first_by_def
        today_of_def DateOf_def local_day_def utc_def zone_of_def demo_db_def demo_occurrence_def)
  show ?thesis
    using run demo_locked(1)
      cadence_effect [OF demo_world_canonical demo_service_sel(1) demo_session_sel(1) near run]
    by (fastforce simp: demo_begun Let_def)
qed

section \<open>All actions\<close>

text \<open>The interface the handlers and the sweeps drive.\<close>

datatype command =
  DoPause "date option" | DoResume | DoSkip string | DoArm | DoDefer int string | DoCadence int | DoCancel string

fun perform :: "world \<Rightarrow> service \<Rightarrow> string \<Rightarrow> command \<Rightarrow> caller \<Rightarrow> schedule go" where
  "perform W svc i (DoPause until) c = Pause W svc i until c"
| "perform W svc i DoResume c = Resume W svc i c"
| "perform W svc i (DoSkip key) c = SkipNext W svc i key c"
| "perform W svc i DoArm c = ArmNext W svc i c"
| "perform W svc i (DoDefer days key) c = Defer W svc i days key c"
| "perform W svc i (DoCadence days) c = ChangeCadence W svc i days c"
| "perform W svc i (DoCancel reason) c = Cancel W svc i reason c"

fun action_of :: "command \<Rightarrow> action" where
  "action_of (DoPause until) = ActionPause"
| "action_of DoResume = ActionResume"
| "action_of (DoSkip key) = ActionSkipNext"
| "action_of DoArm = ActionArm"
| "action_of (DoDefer days key) = ActionDefer"
| "action_of (DoCadence days) = ActionChangeCadence"
| "action_of (DoCancel reason) = ActionCancel"

lemma perform_shape:
  "perform W svc i cmd c s = (r, s') \<Longrightarrow> s' = s \<or> (\<exists>f. transition W svc i (action_of cmd) c f s = (r, s'))"
  using action_shapes by (cases cmd) auto


lemma demo_second_pause_fails:
  "\<exists>e s'. perform demo_world demo_service ''s3'' (DoPause None) ann demo_session = (Inl e, s')"
  by (simp add: Pause_def run_defs cong: run_congs)


lemma kept_found:
  assumes "db_wf d" "oc \<in> set (db_occurrences d)" "or_schedule_id oc = u"
    and "\<And>x. or_schedule_id (f x) = or_schedule_id x" and "\<And>x. p x \<Longrightarrow> or_id x = or_id oc"
  shows "others_kept u d (set_occurrences p f d)"
  using assms same_in [OF assms(1,2)] by (intro others_kept_set_occurrences) auto

lemma kept_pause: "others_kept u d (pause_db t u until caller d)"
  and kept_cancel: "others_kept u d (cancel_db t u reason caller d)"
  by (auto simp: pause_db_def cancel_db_def stopped_def upcoming_def cancelable_def intro!: others_kept_set_occurrences)

lemma kept_arm: "db_wf d \<Longrightarrow> next_planned u d = Some oc \<Longrightarrow> others_kept u d (arm_db t u oc caller d)"
  by (auto simp: arm_db_def set_occurrence_def dest!: next_rowD(1) intro!: kept_found)

lemma kept_skip:
  assumes "db_wf d" "skipped_to W horizon r t u key caller d d'"
  shows "others_kept u d d'"
proof (cases "key_used u EventOccurrenceSkipped key d")
  case False
  then obtain oc k ids where "next_unexecuted u d = Some oc"
    and "d' = topped_up t u (date_of_day (sr_anchor_date r)) (sr_interval_days r) ids (today_of W r k) (skipped_db t u oc key caller d)"
    using assms(2) by (auto simp: skipped_to_def Let_def)
  then show ?thesis
    using others_kept_trans [OF skipped_pieces(1) [OF assms(1) next_first_of(2)]] topped_up_frame by blast
qed (use assms(2) in \<open>simp add: skipped_to_def\<close>)

lemma kept_defer:
  assumes "db_wf d" "deferred_to W r t u days key caller d d'"
  shows "others_kept u d d'"
proof (cases "key_used u EventOccurrenceDeferred key d")
  case False
  then obtain oc k where oc: "next_unexecuted u d = Some oc"
    and d': "d' = refreshed t u (today_of W r k) (defer_db t u oc days key caller d)"
    using assms(2) by (auto simp: deferred_to_def)
  show ?thesis
    using next_rowD(2) [OF oc] by (auto simp: d' refreshed_def defer_db_def intro!: kept_found [OF assms(1)])
qed (use assms(2) in \<open>simp add: deferred_to_def\<close>)

lemma kept_resume:
  assumes "resumed_to W horizon r t u caller d d'"
  shows "others_kept u d d'"
proof -
  obtain k ids where "d' = topped_up t u (today_of W r k) (sr_interval_days r) ids (today_of W r k)
      (resumed_db t r u (today_of W r k) caller d)"
    using assms by (auto simp: resumed_to_def Let_def)
  moreover have "others_kept u d (resumed_db t r u (today_of W r k) caller d)" by (simp add: resumed_db_def)
  ultimately show ?thesis using topped_up_frame others_kept_trans by metis
qed

lemma kept_cadence:
  assumes "rescheduled_to W horizon r t u days caller d d'"
  shows "others_kept u d d'"
proof -
  have e: "others_kept u d (rescheduled_db t r u days anchor caller d)" for anchor
    by (auto simp: rescheduled_db_def cancelable_def intro!: others_kept_set_occurrences)
  from assms obtain anchor where "d' = set_schedule u (next_run_row None t) (rescheduled_db t r u days anchor caller d)
     \<or> (\<exists>n ids td. d' = topped_up t u anchor n ids td (rescheduled_db t r u days anchor caller d))"
    by (auto simp: rescheduled_to_def Let_def split: if_splits)
  then show ?thesis using e others_kept_trans [OF e topped_up_frame [THEN conjunct1]] by auto
qed

lemma perform_locked:
  assumes "canonical W" and "svc_repo svc = postgres W" and "st_tx s = None"
    and "canonical_db W (begun W s)" and "db_wf (begun W s)"
    and "perform W svc i cmd caller s = (Inr out, s')"
  shows "\<exists>u r r'. locked W i (action_of cmd) caller (begun W s) u r \<and> others_kept u (begun W s) (st_db s')
     \<and> schedule_at u (c_scope caller) (st_db s') = Some r' \<and> out = scanSchedule r'"
proof (cases cmd)
  case (DoPause until)
  show ?thesis unfolding DoPause action_of.simps
    using Pause_commits [OF assms(1-3) assms(6) [unfolded DoPause perform.simps]] kept_pause by metis
next
  case DoResume
  show ?thesis unfolding DoResume action_of.simps
    using Resume_commits [OF assms(1-3) assms(6) [unfolded DoResume perform.simps]] kept_resume by metis
next
  case (DoSkip key)
  show ?thesis unfolding DoSkip action_of.simps
    using SkipNext_commits [OF assms(1-3) assms(6) [unfolded DoSkip perform.simps] assms(4)] kept_skip [OF assms(5)] by metis
next
  case DoArm
  show ?thesis unfolding DoArm action_of.simps
    using ArmNext_commits [OF assms(1-3) assms(6) [unfolded DoArm perform.simps] assms(4)] kept_arm [OF assms(5)] by metis
next
  case (DoDefer days key)
  show ?thesis unfolding DoDefer action_of.simps
    using Defer_commits [OF assms(1-3) assms(6) [unfolded DoDefer perform.simps] assms(4)] kept_defer [OF assms(5)] by metis
next
  case (DoCadence days)
  show ?thesis unfolding DoCadence action_of.simps
    using ChangeCadence_commits [OF assms(1-3) assms(6) [unfolded DoCadence perform.simps]] kept_cadence by metis
next
  case (DoCancel reason)
  show ?thesis unfolding DoCancel action_of.simps
    using Cancel_commits [OF assms(1-3) assms(6) [unfolded DoCancel perform.simps]] kept_cancel by metis
qed

text \<open>C7. Under a customer's scope an action can only succeed on a schedule of that customer, in a
  status from which the lifecycle admits it; it returns that schedule as it is afterwards, and
  every other schedule keeps its row and its occurrences.\<close>

theorem actions_stay_within_the_tenant:
  assumes "canonical W" and "svc_repo svc = postgres W" and "st_tx s = None"
    and "canonical_db W (begun W s)" and "db_wf (begun W s)" and "c_scope caller = CustomerScope customer"
    and "perform W svc i cmd caller s = (Inr out, s')"
  shows "\<exists>r r'. r \<in> set (db_schedules (begun W s)) \<and> sr_customer_id r = customer \<and> customer \<noteq> ''''
     \<and> w_uuid_in W i = Some (sr_id r) \<and> ValidateScheduleTransition (sr_status r) (action_of cmd) = None
     \<and> r' \<in> set (db_schedules (st_db s')) \<and> sr_id r' = sr_id r \<and> sr_customer_id r' = customer \<and> out = scanSchedule r'
     \<and> others_kept (sr_id r) (begun W s) (st_db s')"
proof -
  obtain u r r' where l: "locked W i (action_of cmd) caller (begun W s) u r" and kept: "others_kept u (begun W s) (st_db s')"
    and r': "schedule_at u (c_scope caller) (st_db s') = Some r'" "out = scanSchedule r'"
    using perform_locked [OF assms(1-5,7)] by blast
  have own: "x \<in> set (db_schedules d) \<and> sr_id x = u \<and> sr_customer_id x = customer \<and> customer \<noteq> ''''"
    if "schedule_at u (CustomerScope customer) d = Some x" for x and d :: db
    using that by (auto simp: schedule_at_def CustomerScope_def filterOwn_def dest!: find_SomeD split: if_splits)
  show ?thesis
    by (rule exI [of _ r], rule exI [of _ r'])
      (use l kept r' own [where x = r] own [where x = r'] in \<open>auto simp: locked_def assms(6)\<close>)
qed

lemma actions_stay_within_the_tenant_witness:
  "\<exists>out s'. perform demo_world demo_service ''s1'' (DoSkip ''k'') ann demo_session = (Inr out, s')
     \<and> others_kept ''s1'' demo_db (st_db s')"
proof -
  obtain out s' where run: "perform demo_world demo_service ''s1'' (DoSkip ''k'') ann demo_session = (Inr out, s')"
    using demo_skips by auto
  have ann: "c_scope ann = CustomerScope ''ann''" by (simp add: ann_def)
  show ?thesis
    using run actions_stay_within_the_tenant [OF demo_world_canonical demo_service_sel(1) demo_session_sel(1)
        demo_canonical_db demo_wf_begun ann run]
    by (auto simp: demo_begun)
qed

end
