(* ===== verification/Jobs.thy ===== *)
theory Jobs
  imports Actions
begin

text \<open>
  What the background jobs do: the nightly materializer, the two sweeps, and the notification
  dispatcher.
\<close>

section \<open>Materializing one schedule\<close>


lemma demo_materializes:
  "\<exists>s'. materialize_one demo_world demo_materializer (date_of_day 10) ''s1'' demo_session = (Inr ((1, 0), None), s')"
  by (simp add: materialize_one_def in_tx_run_def or_deliver_def deliver_def run_defs cong: run_congs)

lemma demo_active:
  "schedule_at u SystemScope demo_db = Some r \<Longrightarrow> r \<in> set (db_schedules demo_db) \<and> sr_id r = u"
  by (auto dest: schedule_atD)


section \<open>The nightly run\<close>

text \<open>A program that has the database to itself.\<close>

definition alone :: "world \<Rightarrow> bool" where
  "alone W = (\<forall>k d. w_others W k d = d)"

lemma alone_begun: "alone W \<Longrightarrow> begun W s = st_db s"
  by (simp add: alone_def begun_def)

text \<open>Two databases that agree on a schedule and its occurrences.\<close>

definition same_for :: "string \<Rightarrow> db \<Rightarrow> db \<Rightarrow> bool" where
  "same_for u d d' = (filter (\<lambda>r. sr_id r = u) (db_schedules d') = filter (\<lambda>r. sr_id r = u) (db_schedules d)
     \<and> filter (\<lambda>oc. or_schedule_id oc = u) (db_occurrences d') = filter (\<lambda>oc. or_schedule_id oc = u) (db_occurrences d))"

lemma filter_part: "(\<And>x. p x \<Longrightarrow> q x) \<Longrightarrow> filter p xs = filter p (filter q xs)"
  by (induction xs) auto

lemma others_same_for:
  assumes "others_kept v d d'" "u \<noteq> v"
  shows "same_for u d d'"
proof -
  have "filter (\<lambda>r. sr_id r = u) rs = filter (\<lambda>r. sr_id r = u) (filter (\<lambda>r. sr_id r \<noteq> v) rs)" for rs :: "schedule_row list"
    by (rule filter_part) (use assms(2) in simp)
  moreover have "filter (\<lambda>oc. or_schedule_id oc = u) ocs
      = filter (\<lambda>oc. or_schedule_id oc = u) (filter (\<lambda>oc. or_schedule_id oc \<noteq> v) ocs)" for ocs :: "occurrence_row list"
    by (rule filter_part) (use assms(2) in simp)
  ultimately show ?thesis using assms(1) unfolding same_for_def others_kept_def by metis
qed

lemma same_for_occurrences:
  assumes "same_for u d d'"
  shows "occurrences_where u p d' = occurrences_where u p d"
proof -
  have "occurrences_where u p e = filter p (filter (\<lambda>oc. or_schedule_id oc = u) (db_occurrences e))" for e :: db
    by (simp add: occurrences_where_def conj_commute)
  with assms show ?thesis unfolding same_for_def by presburger
qed

lemma find_filter: "find (\<lambda>x. p x \<and> q x) xs = find q (filter p xs)"
  by (induction xs) auto

lemma same_for_row: "same_for u d d' \<Longrightarrow> schedule_at u sc d' = schedule_at u sc d"
  by (simp add: schedule_at_def find_filter same_for_def)

lemma same_for_next: "same_for u d d' \<Longrightarrow> next_planned u d' = next_planned u d"
  by (simp add: next_planned_def same_for_occurrences)

lemma same_for_set:
  assumes "same_for u d d'"
  shows "r \<in> set (db_schedules d') \<and> sr_id r = u \<longleftrightarrow> r \<in> set (db_schedules d) \<and> sr_id r = u"
    and "oc \<in> set (db_occurrences d') \<and> or_schedule_id oc = u \<longleftrightarrow> oc \<in> set (db_occurrences d) \<and> or_schedule_id oc = u"
  using assms unfolding same_for_def by (auto dest!: arg_cong [where f = set] simp: set_eq_iff)

lemma same_for_up_to_date: "same_for u d d' \<Longrightarrow> up_to_date u td horizon d' \<longleftrightarrow> up_to_date u td horizon d"
  using same_for_set(1) [of u d d']
  by (auto simp: up_to_date_def future_planned_def earliest_planned_def same_for_occurrences)

lemma same_for_near: "same_for u d d' \<Longrightarrow> near horizon u anchor n td d \<Longrightarrow> near horizon u anchor n td d'"
  using same_for_set(2) [of u d d'] unfolding near_def by blast

lemma same_for_trans: "same_for u d1 d2 \<Longrightarrow> same_for u d2 d3 \<Longrightarrow> same_for u d1 d3"
  by (simp add: same_for_def)

lemma same_for_refl [simp]: "same_for u d d"
  by (simp add: same_for_def)

text \<open>The part of a row the nightly run never writes.\<close>

definition identity_of :: "schedule_row \<Rightarrow> string \<times> string \<times> schedule_status \<times> int \<times> int" where
  "identity_of r = (sr_id r, sr_customer_id r, sr_status r, sr_interval_days r, sr_anchor_date r)"

lemma materialize_one_rows:
  assumes "canonical W" and "m_repo m = postgres W" and "st_tx s = None" and "alone W"
    and "materialize_one W m td sid s = (Inr (counts, err), s')"
  shows "st_tx s' = None \<and> map identity_of (db_schedules (st_db s')) = map identity_of (db_schedules (st_db s))
    \<and> (w_uuid_in W sid = Some u \<longrightarrow> others_kept u (st_db s) (st_db s'))"
proof -
  have tx: "st_tx s' = None"
    using assms(3,5) unfolding materialize_one_def by (rule in_tx_run_no_tx)
  have top: "map identity_of (db_schedules (topped_up t u anchor n ids td d)) = map identity_of (db_schedules d)" for t u anchor n ids d
    by (simp add: topped_up_def refreshed_def set_schedule_def identity_of_def next_run_row_def)
  show ?thesis
  proof (cases err)
    case None
    from materialize_one_commits [OF assms(1-3) assms(5) [unfolded None]] tx show ?thesis
      using top topped_up_frame by (auto simp: materialized_to_def alone_begun [OF assms(4)])
  next
    case (Some e)
    then have "st_db s' = st_db s"
      using in_tx_run_rolls_back [OF assms(5) [unfolded materialize_one_def Some] assms(3)] alone_begun [OF assms(4)] by simp
    then show ?thesis using tx by simp
  qed
qed

text \<open>What the run leaves of a schedule that was active when it was listed.\<close>

lemma materialize_one_active:
  assumes "canonical W" "m_repo m = postgres W" "st_tx s = None" "alone W" "valid_date td"
    and r: "schedule_at u SystemScope (st_db s) = Some r" "sr_status r = ScheduleActive" "w_uuid_in W u = Some u"
    and near: "near (m_horizon m) u (date_of_day (sr_anchor_date r)) (sr_interval_days r) td (st_db s)"
    and run: "materialize_one W m td u s = (Inr (counts, None), s')"
  shows "up_to_date u td (m_horizon m) (st_db s')"
proof -
  note b = alone_begun [OF assms(4)]
  from materialize_one_commits [OF assms(1-3) run] r
  obtain ids where ids: "stored_ids W (missing u (m_horizon m) td (st_db s)) ids"
    and d': "st_db s' = topped_up (w_dbnow W (st_ticks s)) u (date_of_day (sr_anchor_date r)) (sr_interval_days r) ids td (st_db s)"
    by (auto simp: materialized_to_def b)
  show ?thesis using topped_up_effect [OF near assms(5) ids] unfolding d' by blast
qed

text \<open>Listed schedules that are still as they were listed.\<close>

definition listed :: "world \<Rightarrow> int \<Rightarrow> date \<Rightarrow> db \<Rightarrow> schedule \<Rightarrow> bool" where
  "listed W horizon td d sch = (\<exists>r. sch = scanSchedule r \<and> schedule_at (sr_id r) SystemScope d = Some r
     \<and> sr_status r = ScheduleActive \<and> w_uuid_in W (sr_id r) = Some (sr_id r)
     \<and> near horizon (sr_id r) (date_of_day (sr_anchor_date r)) (sr_interval_days r) td d)"

lemma listed_same: "same_for (s_id sch) d d' \<Longrightarrow> listed W horizon td d sch \<Longrightarrow> listed W horizon td d' sch"
  unfolding listed_def using same_for_row same_for_near by (metis scanSchedule_sel(1))

lemma materialize_one_delivers: "\<exists>c dup err s'. materialize_one W m td sid s = (Inr ((c, dup), err), s')"
proof -
  obtain r s' where run: "materialize_one W m td sid s = (r, s')" by fastforce
  then obtain outs err where "r = Inr (outs, err)"
    using in_tx_run_delivers [OF run [unfolded materialize_one_def]] by blast
  with run show ?thesis by (cases outs) auto
qed

lemma materialize_each_fills:
  assumes "canonical W" "m_repo m = postgres W" "alone W" "valid_date td"
  shows "materialize_each W m td ss res firstErr s = (Inr (res', None), s') \<Longrightarrow> st_tx s = None \<Longrightarrow>
    distinct (map s_id ss) \<Longrightarrow> (\<And>sch. sch \<in> set ss \<Longrightarrow> listed W (m_horizon m) td (st_db s) sch) \<Longrightarrow>
    firstErr = None \<and> map identity_of (db_schedules (st_db s')) = map identity_of (db_schedules (st_db s))
    \<and> (\<forall>u. u \<notin> s_id ` set ss \<longrightarrow> same_for u (st_db s) (st_db s'))
    \<and> (\<forall>u \<in> s_id ` set ss. up_to_date u td (m_horizon m) (st_db s'))"
proof (induction ss arbitrary: res firstErr s)
  case Nil
  then show ?case by (simp add: deliver_def ret_def)
next
  case (Cons sch ss)
  obtain created dupes err s1 where one: "materialize_one W m td (s_id sch) s = (Inr ((created, dupes), err), s1)"
    using materialize_one_delivers by blast
  let ?u = "s_id sch"
  obtain r where r: "sch = scanSchedule r" "schedule_at ?u SystemScope (st_db s) = Some r" "sr_status r = ScheduleActive"
    "w_uuid_in W ?u = Some ?u"
    "near (m_horizon m) ?u (date_of_day (sr_anchor_date r)) (sr_interval_days r) td (st_db s)"
    using Cons.prems(4) [OF list.set_intros(1)] unfolding listed_def by (metis scanSchedule_sel(1))
  note rows = materialize_one_rows [OF assms(1,2) Cons.prems(2) assms(3) one, of ?u]
  have kept: "same_for v (st_db s) (st_db s1)" if "v \<noteq> ?u" for v
    using others_same_for rows r(4) that by blast
  let ?rest = "if firstErr = None then err else firstErr"
  have rest: "materialize_each W m td ss
      (res\<lparr>SchedulesConsidered := SchedulesConsidered res + 1, OccurrencesCreated := OccurrencesCreated res + created,
           DuplicatesSkipped := DuplicatesSkipped res + dupes\<rparr>) ?rest s1 = (Inr (res', None), s')"
    using Cons.prems(1) one by (simp add: bind_def)
  have "listed W (m_horizon m) td (st_db s1) x" if "x \<in> set ss" for x
  proof (rule listed_same)
    have "s_id x \<noteq> ?u" using that Cons.prems(3) by (metis distinct.simps(2) image_eqI list.simps(9) set_map)
    then show "same_for (s_id x) (st_db s) (st_db s1)" by (rule kept)
    show "listed W (m_horizon m) td (st_db s) x" using that by (intro Cons.prems(4)) simp
  qed
  note ih = Cons.IH [OF rest conjunct1 [OF rows] _ this]
  then have none: "firstErr = None" "err = None" using Cons.prems(3) by (auto split: if_splits)
  have "up_to_date ?u td (m_horizon m) (st_db s1)"
    by (rule materialize_one_active [OF assms(1,2) Cons.prems(2) assms(3,4) r(2,3,4,5) one [unfolded none]])
  then show ?case
    using ih none kept rows Cons.prems(3) same_for_up_to_date same_for_trans by (auto simp: image_iff) (metis+)
qed

lemma materialize_each_counts:
  "materialize_each W m td ss res firstErr s = (Inr (res', err), s') \<Longrightarrow>
     SchedulesConsidered res' = SchedulesConsidered res + int (length ss)"
proof (induction ss arbitrary: res firstErr s)
  case (Cons sch ss)
  obtain c dup e s1 where "materialize_one W m td (s_id sch) s = (Inr ((c, dup), e), s1)"
    using materialize_one_delivers by blast
  then show ?case using Cons.prems by (auto simp: bind_def dest: Cons.IH)
qed (simp add: deliver_def ret_def)

text \<open>A read outside a transaction, with the database to itself.\<close>

lemma stmt_read_alone:
  assumes "alone W" "st_tx s = None" "stmt W (query f) s = (Inr a, s')"
  shows "a = f (st_db s) \<and> st_db s' = st_db s \<and> st_tx s' = None"
  using assms by (auto simp: stmt_def settle_def query_def alone_def Let_def split: if_splits)

lemma querySchedules_alone:
  assumes "alone W" "st_tx s = None" "querySchedules W f s = (Inr ss, s1)"
  shows "ss = map scanSchedule (f (st_db s)) \<and> st_db s1 = st_db s \<and> st_tx s1 = None"
  using assms(3) by (auto simp: querySchedules_def wrapping_def split: prod.splits sum.splits
      dest!: stmt_read_alone [OF assms(1,2)])

lemma schedule_at_own:
  "db_wf d \<Longrightarrow> r \<in> set (db_schedules d) \<Longrightarrow> schedule_at (sr_id r) SystemScope d = Some r"
  using find_unique_key [of sr_id "db_schedules d" r]
  by (simp add: db_wf_def schedule_at_def SystemScope_def filterOwn_def)

lemma nightly_run_effect:
  assumes "canonical W" and "m_repo m = postgres W" and "st_tx s = None" and "alone W" and "valid_date td"
    and wf: "db_wf (st_db s)" and ids: "\<And>r. r \<in> set (db_schedules (st_db s)) \<Longrightarrow> w_uuid_in W (sr_id r) = Some (sr_id r)"
    and near: "\<And>r. r \<in> set (db_schedules (st_db s)) \<Longrightarrow> sr_status r = ScheduleActive \<Longrightarrow>
        near (m_horizon m) (sr_id r) (date_of_day (sr_anchor_date r)) (sr_interval_days r) td (st_db s)"
    and run: "RunAll W m td s = (Inr (res, None), s')"
  shows "(\<forall>r \<in> set (db_schedules (st_db s')). sr_status r = ScheduleActive \<longrightarrow> up_to_date (sr_id r) td (m_horizon m) (st_db s'))
    \<and> SchedulesConsidered res = int (length (filter (\<lambda>r. sr_status r = ScheduleActive) (db_schedules (st_db s))))
    \<and> (\<forall>r \<in> set (db_schedules (st_db s)). sr_status r \<noteq> ScheduleActive \<longrightarrow> same_for (sr_id r) (st_db s) (st_db s'))
    \<and> map identity_of (db_schedules (st_db s')) = map identity_of (db_schedules (st_db s))"
proof -
  let ?zero = "\<lparr>SchedulesConsidered = 0, OccurrencesCreated = 0, DuplicatesSkipped = 0\<rparr>"
  let ?active = "filter (\<lambda>r. sr_status r = ScheduleActive) (db_schedules (st_db s))"
  obtain ss s1 where list: "pg_ListActiveSchedules W s = (Inr ss, s1)"
    and each: "materialize_each W m td ss ?zero None s1 = (Inr (res, None), s')"
    using run assms(2)
    by (auto simp: RunAll_def Let_def or_deliver_def bind_def attempt_def wrapping_def deliver_def ret_def
        split: prod.splits sum.splits)
  let ?key = "\<lambda>r. (sr_next_run_date r, sr_created_at r)"
  have ss: "ss = map scanSchedule (sort_key ?key ?active)" and s1: "st_db s1 = st_db s" "st_tx s1 = None"
    using querySchedules_alone [OF assms(4,3) list [unfolded pg_ListActiveSchedules_def]]
    by (simp_all add: schedules_where_def)
  then have listed_ids: "s_id ` set ss = sr_id ` {r \<in> set (db_schedules (st_db s)). sr_status r = ScheduleActive}"
    and count: "length ss = length ?active"
    by (auto simp: image_iff)
  have "distinct (map sr_id (sort_key ?key ?active))"
    using wf by (simp add: db_wf_def distinct_map distinct_filter) (auto intro: inj_on_subset)
  then have dist: "distinct (map s_id ss)" by (simp add: ss o_def)
  have "listed W (m_horizon m) td (st_db s1) sch" if "sch \<in> set ss" for sch
  proof -
    from that obtain r where r: "sch = scanSchedule r" "r \<in> set (db_schedules (st_db s))" "sr_status r = ScheduleActive"
      by (auto simp: ss)
    then show ?thesis
      using ids [OF r(2)] near [OF r(2,3)] schedule_at_own [OF wf r(2)] unfolding listed_def s1 by blast
  qed
  note each' = materialize_each_fills [OF assms(1,2,4,5) each s1(2) dist this]
  have rows: "\<exists>r0 \<in> set (db_schedules (st_db s)). sr_id r0 = sr_id r \<and> sr_status r0 = sr_status r"
    if "r \<in> set (db_schedules (st_db s'))" for r
  proof -
    have "identity_of r \<in> identity_of ` set (db_schedules (st_db s))"
      using each' that s1 by (metis image_eqI set_map)
    then show ?thesis by (auto simp: identity_of_def)
  qed
  have up: "up_to_date (sr_id r) td (m_horizon m) (st_db s')"
    if r: "r \<in> set (db_schedules (st_db s'))" "sr_status r = ScheduleActive" for r
  proof -
    obtain r0 where r0: "r0 \<in> set (db_schedules (st_db s))" "sr_id r0 = sr_id r" "sr_status r0 = ScheduleActive"
      using rows [OF r(1)] r(2) by auto
    then have "sr_id r0 \<in> s_id ` set ss" unfolding listed_ids by (intro imageI CollectI conjI)
    then show ?thesis using each' r0(2) by metis
  qed
  have rest: "same_for (sr_id r) (st_db s) (st_db s')"
    if r: "r \<in> set (db_schedules (st_db s))" "sr_status r \<noteq> ScheduleActive" for r
  proof -
    have "sr_status r0 \<noteq> ScheduleActive" if "r0 \<in> set (db_schedules (st_db s))" "sr_id r0 = sr_id r" for r0
      using same_row [OF wf that(1) r(1) that(2)] r(2) by simp
    then have "sr_id r \<noteq> sr_id r0" if "r0 \<in> {r \<in> set (db_schedules (st_db s)). sr_status r = ScheduleActive}" for r0
      using that by (metis (mono_tags, lifting) mem_Collect_eq)
    then have "sr_id r \<notin> s_id ` set ss" unfolding listed_ids by (intro notI, elim imageE, metis)
    then show ?thesis using each' s1 by simp
  qed
  show ?thesis using up rest each' s1 count materialize_each_counts [OF each] by simp
qed


text \<open>C4. A nightly run that reports no error, with the database to itself, leaves every active
  schedule planned for the day: its horizon full, its next run the earliest planned day. It has
  considered each active schedule once, and schedules that are not active keep their rows and
  occurrences; no row changes its owner, status or cadence.\<close>

theorem nightly_run_plans_every_active_schedule:
  assumes "canonical W" and "m_repo m = postgres W" and "st_tx s = None" and "alone W" and "valid_date td"
    and wf: "db_wf (st_db s)" and ids: "\<And>r. r \<in> set (db_schedules (st_db s)) \<Longrightarrow> w_uuid_in W (sr_id r) = Some (sr_id r)"
    and near: "\<And>r. r \<in> set (db_schedules (st_db s)) \<Longrightarrow> sr_status r = ScheduleActive \<Longrightarrow>
        near (m_horizon m) (sr_id r) (date_of_day (sr_anchor_date r)) (sr_interval_days r) td (st_db s)"
    and run: "RunAll W m td s = (Inr (res, None), s')"
  shows "(\<forall>r \<in> set (db_schedules (st_db s')). sr_status r = ScheduleActive \<longrightarrow> up_to_date (sr_id r) td (m_horizon m) (st_db s'))
    \<and> SchedulesConsidered res = int (length (filter (\<lambda>r. sr_status r = ScheduleActive) (db_schedules (st_db s))))
    \<and> (\<forall>r \<in> set (db_schedules (st_db s)). sr_status r \<noteq> ScheduleActive \<longrightarrow> same_for (sr_id r) (st_db s) (st_db s'))
    \<and> map identity_of (db_schedules (st_db s')) = map identity_of (db_schedules (st_db s))"
  by (rule nightly_run_effect [OF assms(1-5) wf ids near run])

lemma demo_alone: "alone demo_world"
  by (simp add: alone_def demo_world_def)

lemma demo_nightly_run:
  "\<exists>res s'. RunAll demo_world demo_materializer (date_of_day 10) demo_session = (Inr (res, None), s')"
  by (simp add: RunAll_def materialize_one_def in_tx_run_def pg_ListActiveSchedules_def querySchedules_def
      schedules_where_def run_defs cong: run_congs)

lemma demo_schedules_near:
  assumes "r \<in> set (db_schedules demo_db)"
  shows "near 2 (sr_id r) (date_of_day (sr_anchor_date r)) (sr_interval_days r) (date_of_day 10) demo_db"
  using assms by (auto simp: near_def demo_db_def demo_row_def demo_occurrence_def)

lemma nightly_run_plans_every_active_schedule_witness:
  "\<exists>res s'. RunAll demo_world demo_materializer (date_of_day 10) demo_session = (Inr (res, None), s')
     \<and> SchedulesConsidered res = 2 \<and> up_to_date ''s1'' (date_of_day 10) 2 (st_db s')
     \<and> up_to_date ''s2'' (date_of_day 10) 2 (st_db s')"
proof -
  obtain res s' where run: "RunAll demo_world demo_materializer (date_of_day 10) demo_session = (Inr (res, None), s')"
    using demo_nightly_run by blast
  have v: "valid_date (date_of_day 10)" by simp
  have ids: "w_uuid_in demo_world (sr_id r) = Some (sr_id r)" for r by simp
  have near: "near (m_horizon demo_materializer) (sr_id r) (date_of_day (sr_anchor_date r)) (sr_interval_days r)
      (date_of_day 10) (st_db demo_session)" if "r \<in> set (db_schedules (st_db demo_session))" for r
    using demo_schedules_near that by simp
  have wf: "db_wf (st_db demo_session)" using demo_invariant by (simp add: invariant_def)
  note effect = nightly_run_plans_every_active_schedule [OF demo_world_canonical demo_service_sel(3) demo_session_sel(1)
      demo_alone v wf ids near run]
  have rows: "map identity_of (db_schedules demo_db) = [(''s1'', ''ann'', ScheduleActive, 30, 0),
      (''s2'', ''bob'', ScheduleActive, 30, 0), (''s3'', ''ann'', SchedulePaused, 30, 0)]"
    by (simp add: demo_db_def demo_row_def identity_of_def)
  have "up_to_date u (date_of_day 10) 2 (st_db s')" if u: "u = ''s1'' \<or> u = ''s2''" for u
  proof -
    from u have "\<exists>c. (u, c, ScheduleActive, 30, 0) \<in> set (map identity_of (db_schedules (st_db s')))"
      using effect rows by auto
    then obtain r where "r \<in> set (db_schedules (st_db s'))" "sr_id r = u" "sr_status r = ScheduleActive"
      by (auto simp: identity_of_def)
    then show ?thesis using effect by auto
  qed
  then show ?thesis using run effect by (auto simp: demo_db_def demo_row_def)
qed

end
