(* ===== verification/Retries.thy ===== *)
theory Retries
  imports History Jobs
begin

text \<open>
  Retries of \<open>internal/schedule/service.go\<close>: a client that lost the answer of a skip or a deferral sends
  it again under the same key, and gets the answer it would have got.
\<close>

section \<open>Statements that do not fail\<close>

definition healthy :: "world \<Rightarrow> bool" where
  "healthy W = (alone W \<and> (\<forall>k. \<not> w_fault W k))"

lemma settle_healthy: "healthy W \<Longrightarrow> settle W s = s"
  by (simp add: healthy_def alone_def settle_def)

lemma read_healthy:
  assumes "healthy W" "\<not> st_aborted s" "q (case st_tx s of Some t \<Rightarrow> t | None \<Rightarrow> w_dbnow W (st_ticks s)) (st_db s) = Inr (a, st_db s)"
  shows "stmt W q s = (Inr a, s\<lparr>st_ticks := Suc (st_ticks s)\<rparr>)"
  using assms by (simp add: stmt_def settle_healthy Let_def healthy_def)

lemma in_tx_healthy:
  assumes "healthy W" "st_tx s = None"
    and "m (s\<lparr>st_ticks := Suc (st_ticks s), st_tx := Some (w_dbnow W (st_ticks s)), st_aborted := False\<rparr>) = (Inr a, s2)"
    and "\<not> st_aborted s2"
  shows "in_tx W m s = (Inr a, s2\<lparr>st_ticks := Suc (st_ticks s2), st_tx := None, st_aborted := False\<rparr>)"
  using assms by (simp add: in_tx_def in_tx_out_def settle_healthy Let_def healthy_def)

section \<open>A key that is known\<close>

lemma reads_healthy:
  assumes "healthy W" "\<not> st_aborted s" "w_uuid_in W i = Some u"
  shows "schedule_at u sc (st_db s) = Some r \<Longrightarrow> st_tx s \<noteq> None \<Longrightarrow>
      pg_GetScheduleForUpdate W i sc s = (Inr (scanSchedule r), s\<lparr>st_ticks := Suc (st_ticks s)\<rparr>)"
    and "schedule_at u sc (st_db s) = Some r \<Longrightarrow>
      pg_GetSchedule W i sc s = (Inr (scanSchedule r), s\<lparr>st_ticks := Suc (st_ticks s)\<rparr>)"
    and "pg_EventExistsWithKey W i ty key s = (Inr (key_used u ty key (st_db s)), s\<lparr>st_ticks := Suc (st_ticks s)\<rparr>)"
proof -
  have "stmt W (with_uuid W i (\<lambda>u. query (\<lambda>d. list_ex (\<lambda>e. event_key e = (u, ty, Some key)) (db_events d)))) s
      = (Inr (key_used u ty key (st_db s)), s\<lparr>st_ticks := Suc (st_ticks s)\<rparr>)"
    using assms(3) by (intro read_healthy [OF assms(1,2)])
      (auto simp: with_uuid_def query_def key_used_def list_ex_iff intro: rev_image_eqI)
  then show "pg_EventExistsWithKey W i ty key s = (Inr (key_used u ty key (st_db s)), s\<lparr>st_ticks := Suc (st_ticks s)\<rparr>)"
    by (simp add: pg_EventExistsWithKey_def wrapping_def)
qed (auto simp: pg_GetScheduleForUpdate_def pg_GetSchedule_def one_row_def bind_def gets_def wrapping_def
      read_healthy [OF assms(1,2)] with_uuid_def query_def assms(3) schedule_at_def ret_def)

lemma replayed:
  assumes "healthy W" "canonical W" "svc_repo svc = postgres W" "st_tx s = None"
    and l: "locked W i a caller (st_db s) u r" and key: "key_used u ty key (st_db s)"
  shows "\<exists>s'. transition W svc i a caller (\<lambda>tx sch.
      bind (EventExistsWithKey tx (s_id sch) ty key) (\<lambda>already. if already then ret () else f tx sch)) s
        = (Inr (scanSchedule r), s') \<and> st_db s' = st_db s \<and> st_tx s' = None"
proof -
  have u: "w_uuid_in W i = Some u" and r: "schedule_at u (c_scope caller) (st_db s) = Some r"
    and ok: "ValidateScheduleTransition (sr_status r) a = None"
    using l unfolding locked_def accepts_def by blast+
  have own: "w_uuid_in W (sr_id r) = Some u"
    using lockedD [OF assms(2) l refl] by (elim conjE) (simp only:)
  define s1 where "s1 = s\<lparr>st_ticks := Suc (st_ticks s), st_tx := Some (w_dbnow W (st_ticks s)), st_aborted := False\<rparr>"
  have s1: "st_tx s1 \<noteq> None" "\<not> st_aborted s1" "st_db s1 = st_db s" by (simp_all add: s1_def)
  define s2 s3 s4 where "s2 = s1\<lparr>st_ticks := Suc (st_ticks s1)\<rparr>" and "s3 = s2\<lparr>st_ticks := Suc (st_ticks s2)\<rparr>"
    and "s4 = s3\<lparr>st_ticks := Suc (st_ticks s3)\<rparr>"
  have later: "\<not> st_aborted s2" "st_db s2 = st_db s" "\<not> st_aborted s3" "st_db s3 = st_db s"
    "\<not> st_aborted s4" "st_db s4 = st_db s" using s1 by (simp_all add: s2_def s3_def s4_def)
  have "pg_GetScheduleForUpdate W i (c_scope caller) s1 = (Inr (scanSchedule r), s2)"
    unfolding s2_def by (rule reads_healthy(1) [OF assms(1) s1(2) u _ s1(1)]) (simp add: s1 r)
  moreover have "pg_EventExistsWithKey W (sr_id r) ty key s2 = (Inr True, s3)"
    unfolding s3_def using reads_healthy(3) [OF assms(1) later(1) own, of ty key] key later(2) by simp
  moreover have "pg_GetSchedule W i (c_scope caller) s3 = (Inr (scanSchedule r), s4)"
    unfolding s4_def by (rule reads_healthy(2) [OF assms(1) later(3) u]) (simp add: later r)
  ultimately have body: "bind (pg_GetScheduleForUpdate W i (c_scope caller)) (\<lambda>sch.
      bind (check (ValidateScheduleTransition (s_status sch) a)) (\<lambda>_.
      bind (bind (pg_EventExistsWithKey W (s_id sch) ty key) (\<lambda>already. if already then ret () else f (postgres W) sch)) (\<lambda>_.
      pg_GetSchedule W i (c_scope caller)))) s1 = (Inr (scanSchedule r), s4)"
    by (simp add: bind_def check_def ok ret_def)
  have "transition W svc i a caller (\<lambda>tx sch.
      bind (EventExistsWithKey tx (s_id sch) ty key) (\<lambda>already. if already then ret () else f tx sch)) s
    = (Inr (scanSchedule r), s4\<lparr>st_ticks := Suc (st_ticks s4), st_tx := None, st_aborted := False\<rparr>)"
    unfolding transition_def Let_def assms(3)
    by (rule in_tx_healthy [OF assms(1,4) _ later(5)]) (simp add: body [unfolded s1_def])
  then show ?thesis by (simp add: later)
qed

section \<open>What the first run leaves\<close>

lemma schedule_at_next_run:
  "schedule_at u sc (set_schedule v (next_run_row n t) d) = map_option (\<lambda>r. if sr_id r = v then next_run_row n t r else r) (schedule_at u sc d)"
proof -
  have "find (\<lambda>r. sr_id r = u \<and> admits f r) (update_where (\<lambda>r. sr_id r = v) (next_run_row n t) rs)
      = map_option (\<lambda>r. if sr_id r = v then next_run_row n t r else r) (find (\<lambda>r. sr_id r = u \<and> admits f r) rs)" for f rs
    by (induction rs) (cases f; auto simp: update_where_def next_run_row_def)+
  then show ?thesis by (simp add: schedule_at_def set_schedule_def)
qed

lemma key_used_extends: "key_used u ty key d \<Longrightarrow> extends d d' \<Longrightarrow> key_used u ty key d'"
  by (auto simp: key_used_def extends_def prefix_def)

lemma key_used_set_schedule [simp]: "key_used u ty key (set_schedule v f d) = key_used u ty key d"
  by (simp add: key_used_def set_schedule_def)

lemma key_used_log:
  "key_used u ty key (log_event (event_of t u (service_event v ty caller (Some key) reason payload)) d)"
  by (simp add: key_used_def log_event_def event_of_def event_key_def service_event_def)

text \<open>Both actions leave the schedule active and their key in the log.\<close>

lemma skipped_keeps:
  assumes "skipped_to W horizon r t u key caller d d'" "schedule_at u sc d = Some x" "schedule_at u sc d' = Some x'"
  shows "sr_status x' = sr_status x \<and> key_used u EventOccurrenceSkipped key d'"
proof (cases "key_used u EventOccurrenceSkipped key d")
  case True
  then show ?thesis using assms by (simp add: skipped_to_def)
next
  case False
  then obtain oc td ids where d': "d' = topped_up t u (date_of_day (sr_anchor_date r)) (sr_interval_days r) ids td (skipped_db t u oc key caller d)"
    using assms(1) by (auto simp: skipped_to_def Let_def)
  have "key_used u EventOccurrenceSkipped key (skipped_db t u oc key caller d)"
    by (simp add: skipped_db_def key_used_log)
  then have "key_used u EventOccurrenceSkipped key d'"
    unfolding d' by (rule key_used_extends) (rule extends_topped_up, simp)
  moreover have "schedule_at u sc (plant t u a n ids seq c (skipped_db t u oc key caller d)) = schedule_at u sc d" for a n seq c
    by (simp add: schedule_at_def skipped_db_def log_event_def set_occurrence_def set_occurrences_def)
  ultimately show ?thesis
    using assms(2,3) by (auto simp: d' topped_up_def refreshed_def schedule_at_next_run next_run_row_def)
qed

lemma deferred_keeps:
  assumes "deferred_to W r t u days key caller d d'" "schedule_at u sc d = Some x" "schedule_at u sc d' = Some x'"
  shows "sr_status x' = sr_status x \<and> key_used u EventOccurrenceDeferred key d'"
proof (cases "key_used u EventOccurrenceDeferred key d")
  case True
  then show ?thesis using assms by (simp add: deferred_to_def)
next
  case False
  then obtain oc td where d': "d' = refreshed t u td (defer_db t u oc days key caller d)"
    using assms(1) by (auto simp: deferred_to_def)
  have "key_used u EventOccurrenceDeferred key (defer_db t u oc days key caller d)"
    by (simp add: defer_db_def key_used_log)
  moreover have "schedule_at u sc (defer_db t u oc days key caller d) = schedule_at u sc d"
    by (simp add: schedule_at_def defer_db_def log_event_def set_occurrences_def)
  ultimately show ?thesis
    using assms(2,3) by (auto simp: d' refreshed_def schedule_at_next_run next_run_row_def)
qed

section \<open>The same request twice\<close>

lemma keyed_shapes:
  "ValidateIdempotencyKey key = None \<Longrightarrow> \<exists>f. SkipNext W svc i key caller = transition W svc i ActionSkipNext caller
     (\<lambda>tx sch. bind (EventExistsWithKey tx (s_id sch) EventOccurrenceSkipped key) (\<lambda>already. if already then ret () else f tx sch))"
  "ValidateDeferDays days = None \<Longrightarrow> ValidateIdempotencyKey key = None \<Longrightarrow>
    \<exists>f. Defer W svc i days key caller = transition W svc i ActionDefer caller
     (\<lambda>tx sch. bind (EventExistsWithKey tx (s_id sch) EventOccurrenceDeferred key) (\<lambda>already. if already then ret () else f tx sch))"
proof -
  have pass: "bind (check None) g = g ()" for g :: "unit \<Rightarrow> 'x go" by (rule ext) (simp add: check_def bind_def ret_def)
  show "\<exists>f. SkipNext W svc i key caller = transition W svc i ActionSkipNext caller
     (\<lambda>tx sch. bind (EventExistsWithKey tx (s_id sch) EventOccurrenceSkipped key) (\<lambda>already. if already then ret () else f tx sch))"
    if "ValidateIdempotencyKey key = None"
    unfolding SkipNext_def that pass by (rule exI, rule refl)
  show "\<exists>f. Defer W svc i days key caller = transition W svc i ActionDefer caller
     (\<lambda>tx sch. bind (EventExistsWithKey tx (s_id sch) EventOccurrenceDeferred key) (\<lambda>already. if already then ret () else f tx sch))"
    if "ValidateDeferDays days = None" "ValidateIdempotencyKey key = None"
    unfolding Defer_def that pass by (rule exI, rule refl)
qed



end
