(* ===== verification/Passes.thy ===== *)
theory Passes
  imports Jobs
begin

text \<open>
  The periodic passes run again and side by side: a second nightly run plans nothing, every
  candidate of a resume sweep is counted exactly once, no pause ends early, and one that is over
  ends.
\<close>

section \<open>The nightly run again\<close>

text \<open>Two databases that differ at most in when a schedule was last written.\<close>

definition same_but_touched :: "db \<Rightarrow> db \<Rightarrow> bool" where
  "same_but_touched d d' = (map (\<lambda>r. r\<lparr>sr_updated_at := 0\<rparr>) (db_schedules d') = map (\<lambda>r. r\<lparr>sr_updated_at := 0\<rparr>) (db_schedules d)
     \<and> db_occurrences d' = db_occurrences d \<and> db_events d' = db_events d
     \<and> db_items d' = db_items d \<and> db_notifications d' = db_notifications d)"

lemma same_but_touched_trans: "same_but_touched d1 d2 \<Longrightarrow> same_but_touched d2 d3 \<Longrightarrow> same_but_touched d1 d3"
  by (simp add: same_but_touched_def)

lemma same_but_touched_refl [simp]: "same_but_touched d d"
  by (simp add: same_but_touched_def)

lemma touched_row:
  assumes "same_but_touched d d'" "r' \<in> set (db_schedules d')"
  shows "\<exists>r \<in> set (db_schedules d). r\<lparr>sr_updated_at := 0\<rparr> = r'\<lparr>sr_updated_at := 0\<rparr>"
proof -
  have "r'\<lparr>sr_updated_at := 0\<rparr> \<in> set (map (\<lambda>r. r\<lparr>sr_updated_at := 0\<rparr>) (db_schedules d))"
    using assms by (metis same_but_touched_def image_eqI list.set_map)
  then show ?thesis by auto
qed

lemma touched_up_to_date:
  assumes "same_but_touched d d'" "up_to_date u td horizon d"
  shows "up_to_date u td horizon d'"
proof -
  have "sr_next_run_date r' = earliest_planned u (ToTime td) d" if r': "r' \<in> set (db_schedules d')" "sr_id r' = u" for r'
  proof -
    obtain r where r: "r \<in> set (db_schedules d)" "r\<lparr>sr_updated_at := 0\<rparr> = r'\<lparr>sr_updated_at := 0\<rparr>"
      using touched_row [OF assms(1) r'(1)] by blast
    have "sr_id r = sr_id r'" "sr_next_run_date r = sr_next_run_date r'"
      using arg_cong [OF r(2), of sr_id] arg_cong [OF r(2), of sr_next_run_date] by simp_all
    then show ?thesis using assms(2) r(1) r'(2) by (simp add: up_to_date_def)
  qed
  then show ?thesis
    using assms by (simp add: up_to_date_def same_but_touched_def future_planned_def occurrences_where_def earliest_planned_def)
qed

lemma touched_row_at:
  assumes "same_but_touched d d'" "schedule_at u SystemScope d = Some r"
  shows "\<exists>r'. schedule_at u SystemScope d' = Some r' \<and> sr_status r' = sr_status r"
proof -
  have find: "find (\<lambda>r. sr_id r = u) rs = map_option (\<lambda>r. r) (find (\<lambda>r. sr_id r = u) rs)" for rs :: "schedule_row list"
    by (simp add: option.map_ident)
  have key: "map_option sr_status (find (\<lambda>r. sr_id r = u) rs)
      = map_option sr_status (find (\<lambda>r. sr_id r = u) (map (\<lambda>r. r\<lparr>sr_updated_at := 0\<rparr>) rs))" for rs :: "schedule_row list"
    by (induction rs) auto
  have at: "schedule_at u SystemScope e = find (\<lambda>r. sr_id r = u) (db_schedules e)" for e
    by (simp add: schedule_at_def SystemScope_def filterOwn_def)
  have "map_option sr_status (schedule_at u SystemScope d') = map_option sr_status (schedule_at u SystemScope d)"
    unfolding at key [of "db_schedules d'"] key [of "db_schedules d"] using assms(1) by (simp add: same_but_touched_def)
  then show ?thesis using assms(2) by auto
qed

lemma topped_up_current:
  assumes "up_to_date u td horizon d" "valid_date td" "length ids = missing u horizon td d"
  shows "same_but_touched d (topped_up t u anchor n ids td d)"
proof -
  have "missing u horizon td d = 0" using assms(1) by (simp add: up_to_date_def missing_def)
  then have ids: "ids = []" using assms(3) by simp
  have "(next_run_row (datePtr (next_run_date u td d)) t r)\<lparr>sr_updated_at := 0\<rparr> = r\<lparr>sr_updated_at := 0\<rparr>"
    if "r \<in> set (db_schedules d)" "sr_id r = u" for r
    using that assms(1) by (simp add: next_run_row_def next_run_earliest [OF assms(2)] up_to_date_def)
  then show ?thesis
    by (auto simp: ids topped_up_def refreshed_def same_but_touched_def set_schedule_def update_where_def)
qed

lemma materialize_one_current:
  assumes "canonical W" "m_repo m = postgres W" "st_tx s = None" "alone W" "valid_date td"
    and current: "\<And>u r. w_uuid_in W i = Some u \<Longrightarrow> schedule_at u SystemScope (st_db s) = Some r \<Longrightarrow>
      sr_status r = ScheduleActive \<Longrightarrow> up_to_date u td (m_horizon m) (st_db s)"
    and run: "materialize_one W m td i s = (Inr (counts, None), s')"
  shows "counts = (0, 0) \<and> same_but_touched (st_db s) (st_db s') \<and> st_tx s' = None"
proof -
  note b = alone_begun [OF assms(4)]
  have tx: "st_tx s' = None"
    using assms(3) run unfolding materialize_one_def by (rule in_tx_run_no_tx)
  from materialize_one_commits [OF assms(1-3) run, unfolded materialized_to_def b]
  show ?thesis
  proof (elim disjE exE conjE)
    fix u r ids
    assume u: "w_uuid_in W i = Some u" "schedule_at u SystemScope (st_db s) = Some r" "sr_status r = ScheduleActive"
      and ids: "stored_ids W (missing u (m_horizon m) td (st_db s)) ids"
      and c: "counts = (int (missing u (m_horizon m) td (st_db s)), 0)"
      and d': "st_db s' = topped_up (w_dbnow W (st_ticks s)) u (date_of_day (sr_anchor_date r)) (sr_interval_days r) ids td (st_db s)"
    note up = current [OF u]
    have "missing u (m_horizon m) td (st_db s) = 0" using up by (simp add: up_to_date_def missing_def)
    moreover have "length ids = missing u (m_horizon m) td (st_db s)" using ids by (simp add: stored_ids_def)
    ultimately show ?thesis using topped_up_current [OF up assms(5)] c d' tx by simp
  qed (use tx in simp)
qed

lemma failed_run_stays_failed: "materialize_each W m td ss res (Some e) s \<noteq> (Inr (res', None), s')"
proof (induction ss arbitrary: res e s)
  case (Cons x xs)
  obtain c d er t where "materialize_one W m td (s_id x) s = (Inr ((c, d), er), t)"
    using materialize_one_delivers by blast
  then show ?case using Cons by (simp add: bind_def)
qed (simp add: deliver_def ret_def)

lemma materialize_each_current:
  assumes "canonical W" "m_repo m = postgres W" "alone W" "valid_date td"
  shows "materialize_each W m td ss res firstErr s = (Inr (res', None), s') \<Longrightarrow> st_tx s = None \<Longrightarrow>
    (\<And>u r. schedule_at u SystemScope (st_db s) = Some r \<Longrightarrow> sr_status r = ScheduleActive \<Longrightarrow>
       up_to_date u td (m_horizon m) (st_db s)) \<Longrightarrow>
    OccurrencesCreated res' = OccurrencesCreated res \<and> DuplicatesSkipped res' = DuplicatesSkipped res
    \<and> firstErr = None \<and> same_but_touched (st_db s) (st_db s')"
proof (induction ss arbitrary: res firstErr s)
  case (Cons sch ss)
  obtain created dup err s1 where one: "materialize_one W m td (s_id sch) s = (Inr ((created, dup), err), s1)"
    using materialize_one_delivers by blast
  let ?res = "res\<lparr>SchedulesConsidered := SchedulesConsidered res + 1, OccurrencesCreated := OccurrencesCreated res + created,
     DuplicatesSkipped := DuplicatesSkipped res + dup\<rparr>"
  let ?err = "if firstErr = None then err else firstErr"
  have rest: "materialize_each W m td ss ?res ?err s1 = (Inr (res', None), s')"
    using Cons.prems(1) one by (simp add: bind_def)
  have tx: "st_tx s1 = None"
    using Cons.prems(2) one unfolding materialize_one_def by (rule in_tx_run_no_tx)
  show ?case
  proof (cases err)
    case None
    have first: "(created, dup) = (0, 0) \<and> same_but_touched (st_db s) (st_db s1) \<and> st_tx s1 = None"
      by (rule materialize_one_current [OF assms(1,2) Cons.prems(2) assms(3,4) _ one [unfolded None]]) (rule Cons.prems(3))
    have "up_to_date u td (m_horizon m) (st_db s1)"
      if r: "schedule_at u SystemScope (st_db s1) = Some r" "sr_status r = ScheduleActive" for u r
    proof -
      have sym: "same_but_touched (st_db s1) (st_db s)" using first by (simp add: same_but_touched_def)
      obtain r0 where "schedule_at u SystemScope (st_db s) = Some r0" "sr_status r0 = ScheduleActive"
        using touched_row_at [OF sym r(1)] r(2) by auto
      then show ?thesis using touched_up_to_date Cons.prems(3) first by blast
    qed
    from Cons.IH [OF rest tx this] first show ?thesis
      using same_but_touched_trans [of "st_db s" "st_db s1" "st_db s'"] None by (auto split: if_splits)
  next
    case (Some e)
    obtain e' where "?err = Some e'" using Some by (cases firstErr) auto
    then show ?thesis using rest failed_run_stays_failed [of W m td ss ?res e' s1 res' s'] by simp
  qed
qed (simp add: deliver_def ret_def)


lemma RunAll_list:
  assumes "alone W" "m_repo m = postgres W" "st_tx s = None" "RunAll W m td s = (Inr (res, None), s')"
  obtains ss s1 where "st_db s1 = st_db s" "st_tx s1 = None"
    and "materialize_each W m td ss \<lparr>SchedulesConsidered = 0, OccurrencesCreated = 0, DuplicatesSkipped = 0\<rparr> None s1 = (Inr (res, None), s')"
proof -
  obtain ss s1 where list: "pg_ListActiveSchedules W s = (Inr ss, s1)"
    and each: "materialize_each W m td ss \<lparr>SchedulesConsidered = 0, OccurrencesCreated = 0, DuplicatesSkipped = 0\<rparr> None s1 = (Inr (res, None), s')"
    using assms(2,4)
    by (auto simp: RunAll_def Let_def or_deliver_def bind_def attempt_def wrapping_def deliver_def ret_def
        split: prod.splits sum.splits)
  show ?thesis
    using querySchedules_alone [OF assms(1,3) list [unfolded pg_ListActiveSchedules_def]] each that by blast
qed

text \<open>C6. The nightly run is idempotent: run again for the same day, it creates nothing, skips no
  duplicate and, but for the time of the last write, leaves the database as the first run left
  it.\<close>

theorem second_nightly_run_plans_nothing:
  assumes "canonical W" and "m_repo m = postgres W" and "st_tx s = None" and "alone W" and "valid_date td"
    and wf: "db_wf (st_db s)" and ids: "\<And>r. r \<in> set (db_schedules (st_db s)) \<Longrightarrow> w_uuid_in W (sr_id r) = Some (sr_id r)"
    and near: "\<And>r. r \<in> set (db_schedules (st_db s)) \<Longrightarrow> sr_status r = ScheduleActive \<Longrightarrow>
        near (m_horizon m) (sr_id r) (date_of_day (sr_anchor_date r)) (sr_interval_days r) td (st_db s)"
    and first: "RunAll W m td s = (Inr (res1, None), s1)" and second: "RunAll W m td s1 = (Inr (res2, None), s2)"
  shows "OccurrencesCreated res2 = 0 \<and> DuplicatesSkipped res2 = 0 \<and> same_but_touched (st_db s1) (st_db s2)"
proof -
  have current: "\<forall>r \<in> set (db_schedules (st_db s1)). sr_status r = ScheduleActive \<longrightarrow>
      up_to_date (sr_id r) td (m_horizon m) (st_db s1)"
    by (rule conjunct1, rule nightly_run_effect [OF assms(1-5) wf _ _ first]) (erule ids, rule near)
  have tx: "st_tx s1 = None"
    using topD [OF RunAll_top [OF assms(2)] assms(3) first] by simp
  obtain ss t where t: "st_db t = st_db s1" "st_tx t = None"
    and each: "materialize_each W m td ss \<lparr>SchedulesConsidered = 0, OccurrencesCreated = 0, DuplicatesSkipped = 0\<rparr> None t = (Inr (res2, None), s2)"
    using RunAll_list [OF assms(4,2) tx second] by blast
  have "up_to_date u td (m_horizon m) (st_db t)"
    if r: "schedule_at u SystemScope (st_db t) = Some r" "sr_status r = ScheduleActive" for u r
  proof -
    have "r \<in> set (db_schedules (st_db s1))" and u: "sr_id r = u"
      using schedule_atD [OF r(1)] t(1) by auto
    from bspec [OF current this(1)] r(2) show ?thesis unfolding u t(1) by (rule mp)
  qed
  from materialize_each_current [OF assms(1,2,4,5) each t(2) this] show ?thesis using t(1) by simp
qed

section \<open>The sweeps count every candidate once\<close>

lemma resume_each_counts:
  "resume_each W sw ss res firstErr s = (Inr (res', err), s') \<Longrightarrow>
     rr_Considered res' = rr_Considered res + int (length ss)
   \<and> (err = None \<longrightarrow> firstErr = None \<and> rr_Considered res' - rr_Considered res =
        (rr_Resumed res' - rr_Resumed res) + (rr_NotYetDue res' - rr_NotYetDue res) + (rr_AlreadyMoved res' - rr_AlreadyMoved res))"
proof (induction ss arbitrary: res firstErr s)
  case (Cons sched ss)
  let ?t = "DateOf (zone_of W sched) (w_now W (st_ticks s))"
  let ?res = "res\<lparr>rr_Considered := rr_Considered res + 1\<rparr>"
  have run: "(if pause_running sched ?t
       then resume_each W sw ss (?res\<lparr>rr_NotYetDue := rr_NotYetDue ?res + 1\<rparr>) firstErr
       else bind (attempt (Resume W (sw_svc sw) (s_id sched) systemCaller)) (\<lambda>r. case r of
         Inl e \<Rightarrow> if moved_meanwhile e
           then resume_each W sw ss (?res\<lparr>rr_AlreadyMoved := rr_AlreadyMoved ?res + 1\<rparr>) firstErr
           else resume_each W sw ss ?res (if firstErr = None then Some e else firstErr)
       | Inr _ \<Rightarrow> resume_each W sw ss (?res\<lparr>rr_Resumed := rr_Resumed ?res + 1\<rparr>) firstErr)) s = (Inr (res', err), s')"
    using Cons.prems by (simp add: Let_def todayFor_def bind_def clock_def gets_def ret_def)
  obtain r s1 where res: "Resume W (sw_svc sw) (s_id sched) systemCaller s = (r, s1)" by fastforce
  show ?case
    using run res by (cases r) (auto simp: bind_def attempt_def split: if_splits dest!: Cons.IH)
qed (simp add: deliver_def ret_def)


lemma arm_each_counts:
  "arm_each W sw ss res firstErr s = (Inr (res', err), s') \<Longrightarrow>
     ar_Considered res' = ar_Considered res + int (length ss)
   \<and> (err = None \<longrightarrow> firstErr = None \<and> ar_Considered res' - ar_Considered res =
        (ar_Armed res' - ar_Armed res) + (ar_NotYetDue res' - ar_NotYetDue res) + (ar_AlreadyMoved res' - ar_AlreadyMoved res))"
proof (induction ss arbitrary: res firstErr s)
  case (Cons sched ss)
  let ?res = "ar_Considered_update (\<lambda>_. ar_Considered res + 1) res"
  obtain found s1 where found: "NextPlannedOccurrence (sw_repo sw) (s_id sched) s = (found, s1)" by fastforce
  show ?case
  proof (cases found)
    case (Inl e)
    then show ?thesis
      using Cons.prems found by (auto simp: Let_def bind_def attempt_def split: if_splits dest!: Cons.IH)
  next
    case (Inr occ)
    let ?t = "DateOf (zone_of W sched) (w_now W (st_ticks s1))"
    have run: "(if not_in_window occ ?t
       then arm_each W sw ss (?res\<lparr>ar_NotYetDue := ar_NotYetDue ?res + 1\<rparr>) firstErr
       else bind (attempt (ArmNext W (sw_svc sw) (s_id sched) systemCaller)) (\<lambda>r. case r of
         Inl e \<Rightarrow> if moved_meanwhile e
           then arm_each W sw ss (?res\<lparr>ar_AlreadyMoved := ar_AlreadyMoved ?res + 1\<rparr>) firstErr
           else arm_each W sw ss ?res (if firstErr = None then Some e else firstErr)
       | Inr _ \<Rightarrow> arm_each W sw ss (?res\<lparr>ar_Armed := ar_Armed ?res + 1\<rparr>) firstErr)) s1 = (Inr (res', err), s')"
      using Cons.prems found Inr by (simp add: Let_def todayFor_def bind_def attempt_def clock_def gets_def ret_def)
    obtain r s2 where arm: "ArmNext W (sw_svc sw) (s_id sched) systemCaller s1 = (r, s2)" by fastforce
    show ?thesis
      using run arm by (cases r) (auto simp: bind_def attempt_def split: if_splits dest!: Cons.IH)
  qed
qed (simp add: deliver_def ret_def)


section \<open>No pause ends early\<close>

text \<open>A pause that is over on the customer's own calendar, seen at a reading of the clock.\<close>

definition pause_over :: "world \<Rightarrow> schedule_row \<Rightarrow> nat \<Rightarrow> bool" where
  "pause_over W r k = (sr_status r = SchedulePaused
     \<and> (\<exists>p. sr_paused_until r = Some p \<and> p \<le> local_day (zone_of W (scanSchedule r)) (w_now W k)))"

definition active_again :: "string \<Rightarrow> db \<Rightarrow> bool" where
  "active_again u d = (\<exists>r. schedule_at u SystemScope d = Some r \<and> sr_status r = ScheduleActive \<and> sr_paused_until r = None)"

lemma pause_running_row:
  assumes "sr_status r = SchedulePaused" "sr_paused_until r = Some p"
  shows "pause_running (scanSchedule r) (DateOf (zone_of W (scanSchedule r)) (w_now W k)) \<longleftrightarrow> \<not> pause_over W r k"
  using assms by (simp add: pause_running_def pause_over_def scanSchedule_def DateOf_def After_def not_le)

lemma resumed_rows:
  assumes "resumed_to W horizon r t u caller d d'" "x \<in> set (db_schedules d')" "sr_id x = u"
  shows "sr_status x = ScheduleActive \<and> sr_paused_until x = None"
proof -
  obtain k ids where d': "d' = topped_up t u (today_of W r k) (sr_interval_days r) ids (today_of W r k)
      (resumed_db t r u (today_of W r k) caller d)"
    using assms(1) by (auto simp: resumed_to_def Let_def)
  let ?key = "\<lambda>y. (sr_id y, sr_status y, sr_paused_until y)"
  let ?e = "resumed_db t r u (today_of W r k) caller d"
  have same: "map ?key (db_schedules d') = map ?key (db_schedules ?e)"
    by (simp add: d' topped_up_def refreshed_def set_schedule_def next_run_row_def)
  have "?key x \<in> set (map ?key (db_schedules d'))"
    unfolding set_map by (rule imageI [OF assms(2)])
  then have "?key x \<in> ?key ` set (db_schedules ?e)" unfolding same set_map .
  then obtain y where y: "y \<in> set (db_schedules ?e)" and key: "?key x = ?key y" by (rule imageE)
  from key have "sr_id x = sr_id y" and x: "sr_status x = sr_status y" "sr_paused_until x = sr_paused_until y"
    by (simp_all only: prod.inject)
  then have id: "sr_id y = u" using assms(3) by (simp only:)
  have "\<forall>v \<in> set (db_schedules ?e). sr_id v = u \<longrightarrow> sr_status v = ScheduleActive \<and> sr_paused_until v = None"
    by (simp add: resumed_db_def set_schedule_def update_where_def cadence_row_def status_row_def ball_Un)
  from bspec [OF this y] id show ?thesis by (simp only: x)
qed

lemma system_resumes:
  assumes "alone W" "canonical W" "svc_repo svc = postgres W" "st_tx s = None" "w_uuid_in W i = Some i"
    and run: "Resume W svc i systemCaller s = (r, s')"
  shows "st_tx s' = None \<and> (case r of Inl e \<Rightarrow> st_db s' = st_db s
    | Inr _ \<Rightarrow> others_kept i (st_db s) (st_db s') \<and> active_again i (st_db s'))"
proof (cases r)
  case (Inl e)
  have "perform W svc i DoResume systemCaller s = (Inl e, s')" using run Inl by simp
  from perform_shape [OF this] have "s' = s \<or> st_db s' = begun W s \<and> st_tx s' = None"
    using transition_rolls_back [OF _ assms(4)] by blast
  then show ?thesis using Inl assms(4) alone_begun [OF assms(1)] by auto
next
  case (Inr out)
  obtain u x x' where l: "locked W i ActionResume systemCaller (begun W s) u x"
    and to: "resumed_to W (m_horizon (svc_mat svc)) x (w_dbnow W (st_ticks s)) u systemCaller (begun W s) (st_db s')"
    and x': "schedule_at u (c_scope systemCaller) (st_db s') = Some x'" and tx: "st_tx s' = None"
    using Resume_commits [OF assms(2-4) run [unfolded Inr]] by blast
  have u: "u = i" using l assms(5) by (simp add: locked_def)
  have "sr_status x' = ScheduleActive \<and> sr_paused_until x' = None"
    using resumed_rows [OF to] schedule_atD [OF x'] by blast
  then show ?thesis
    using Inr tx x' kept_resume [OF to] alone_begun [OF assms(1), of s] by (simp add: u active_again_def systemCaller_def)
qed

lemma resume_each_step:
  assumes "alone W" "canonical W" "svc_repo (sw_svc sw) = postgres W" "st_tx s = None" "w_uuid_in W (s_id x) = Some (s_id x)"
    and run: "resume_each W sw (x # ss) res firstErr s = (Inr (res', err), s')"
  obtains res1 err1 s1 where "resume_each W sw ss res1 err1 s1 = (Inr (res', err), s')" and "st_tx s1 = None"
    and "st_db s1 = st_db s \<and> (err1 \<noteq> None \<or> rr_AlreadyMoved res1 > rr_AlreadyMoved res
           \<or> pause_running x (DateOf (zone_of W x) (w_now W (st_ticks s))))
      \<or> \<not> pause_running x (DateOf (zone_of W x) (w_now W (st_ticks s)))
         \<and> others_kept (s_id x) (st_db s) (st_db s1) \<and> active_again (s_id x) (st_db s1)"
    and "rr_AlreadyMoved res \<le> rr_AlreadyMoved res1" and "firstErr \<noteq> None \<Longrightarrow> err1 \<noteq> None"
proof -
  let ?t = "DateOf (zone_of W x) (w_now W (st_ticks s))"
  let ?res = "res\<lparr>rr_Considered := rr_Considered res + 1\<rparr>"
  have step: "(if pause_running x ?t
       then resume_each W sw ss (?res\<lparr>rr_NotYetDue := rr_NotYetDue ?res + 1\<rparr>) firstErr
       else bind (attempt (Resume W (sw_svc sw) (s_id x) systemCaller)) (\<lambda>r. case r of
         Inl e \<Rightarrow> if moved_meanwhile e
           then resume_each W sw ss (?res\<lparr>rr_AlreadyMoved := rr_AlreadyMoved ?res + 1\<rparr>) firstErr
           else resume_each W sw ss ?res (if firstErr = None then Some e else firstErr)
       | Inr _ \<Rightarrow> resume_each W sw ss (?res\<lparr>rr_Resumed := rr_Resumed ?res + 1\<rparr>) firstErr)) s = (Inr (res', err), s')"
    using run by (simp add: Let_def todayFor_def bind_def clock_def gets_def ret_def)
  obtain r s1 where r: "Resume W (sw_svc sw) (s_id x) systemCaller s = (r, s1)" by fastforce
  note effect = system_resumes [OF assms(1-5) r]
  show ?thesis
  proof (cases "pause_running x ?t")
    case True
    then show ?thesis
      using step assms(4) by (intro that [of "?res\<lparr>rr_NotYetDue := rr_NotYetDue ?res + 1\<rparr>" firstErr s]) simp_all
  next
    case False
    show ?thesis
    proof (cases r)
      case (Inl e)
      show ?thesis
      proof (cases "moved_meanwhile e")
        case True
        then show ?thesis
          using step r Inl effect False
          by (intro that [of "?res\<lparr>rr_AlreadyMoved := rr_AlreadyMoved ?res + 1\<rparr>" firstErr s1]) (simp_all add: bind_def attempt_def)
      next
        case moved: False
        then show ?thesis
          using step r Inl effect False
          by (intro that [of ?res "if firstErr = None then Some e else firstErr" s1]) (simp_all add: bind_def attempt_def)
      qed
    next
      case (Inr out)
      then show ?thesis
        using step r effect False
        by (intro that [of "?res\<lparr>rr_Resumed := rr_Resumed ?res + 1\<rparr>" firstErr s1]) (simp_all add: bind_def attempt_def)
    qed
  qed
qed


text \<open>What a pass over listed schedules leaves: those outside the list as they were, each of the
  list either as it was or, its pause over, active again.\<close>

definition resumed_or_kept :: "world \<Rightarrow> schedule \<Rightarrow> db \<Rightarrow> db \<Rightarrow> bool" where
  "resumed_or_kept W x d d' = (same_for (s_id x) d d'
     \<or> (\<exists>k. \<not> pause_running x (DateOf (zone_of W x) (w_now W k))) \<and> active_again (s_id x) d')"

lemma active_again_same: "same_for u d d' \<Longrightarrow> active_again u d' = active_again u d"
  by (simp add: active_again_def same_for_row)

lemma resume_each_effect:
  assumes "alone W" "canonical W" "svc_repo (sw_svc sw) = postgres W"
  shows "resume_each W sw ss res firstErr s = (Inr (res', err), s') \<Longrightarrow> st_tx s = None \<Longrightarrow>
    distinct (map s_id ss) \<Longrightarrow> (\<And>x. x \<in> set ss \<Longrightarrow> w_uuid_in W (s_id x) = Some (s_id x)) \<Longrightarrow>
    (\<forall>u. u \<notin> s_id ` set ss \<longrightarrow> same_for u (st_db s) (st_db s'))
    \<and> (\<forall>x \<in> set ss. resumed_or_kept W x (st_db s) (st_db s'))
    \<and> rr_AlreadyMoved res \<le> rr_AlreadyMoved res' \<and> (firstErr \<noteq> None \<longrightarrow> err \<noteq> None)
    \<and> (err = None \<longrightarrow> rr_AlreadyMoved res' = rr_AlreadyMoved res \<longrightarrow>
        (\<forall>x \<in> set ss. active_again (s_id x) (st_db s') \<or> (\<exists>k. pause_running x (DateOf (zone_of W x) (w_now W k)))))"
proof (induction ss arbitrary: res firstErr s)
  case (Cons x ss)
  have ux: "w_uuid_in W (s_id x) = Some (s_id x)" by (rule Cons.prems(4)) simp
  have out: "s_id x \<notin> s_id ` set ss" and dist: "distinct (map s_id ss)" using Cons.prems(3) by simp_all
  from resume_each_step [OF assms Cons.prems(2) ux Cons.prems(1)]
  obtain res1 err1 s1 where rest: "resume_each W sw ss res1 err1 s1 = (Inr (res', err), s')" and tx: "st_tx s1 = None"
    and one: "st_db s1 = st_db s \<and> (err1 \<noteq> None \<or> rr_AlreadyMoved res1 > rr_AlreadyMoved res
           \<or> pause_running x (DateOf (zone_of W x) (w_now W (st_ticks s))))
      \<or> \<not> pause_running x (DateOf (zone_of W x) (w_now W (st_ticks s)))
         \<and> others_kept (s_id x) (st_db s) (st_db s1) \<and> active_again (s_id x) (st_db s1)"
    and le: "rr_AlreadyMoved res \<le> rr_AlreadyMoved res1" "firstErr \<noteq> None \<Longrightarrow> err1 \<noteq> None"
    by metis
  have ids: "w_uuid_in W (s_id y) = Some (s_id y)" if "y \<in> set ss" for y using Cons.prems(4) that by simp
  note ih = Cons.IH [OF rest tx dist ids]
  have others: "same_for u (st_db s) (st_db s1)" if "u \<noteq> s_id x" for u
    using one others_same_for [OF _ that] by auto
  have last: "same_for (s_id x) (st_db s1) (st_db s')" using ih out by blast
  have frame: "same_for u (st_db s) (st_db s')" if "u \<notin> s_id ` set (x # ss)" for u
    using that ih others [of u] same_for_trans by auto
  have mine: "resumed_or_kept W x (st_db s) (st_db s')"
    using one last active_again_same [OF last] by (auto simp: resumed_or_kept_def)
  have theirs: "resumed_or_kept W y (st_db s) (st_db s')" if y: "y \<in> set ss" for y
  proof -
    have "resumed_or_kept W y (st_db s1) (st_db s')" using ih y by blast
    moreover have "same_for (s_id y) (st_db s) (st_db s1)" using others y out by (metis image_eqI)
    ultimately show ?thesis using same_for_trans unfolding resumed_or_kept_def by blast
  qed
  have live: "active_again (s_id y) (st_db s') \<or> (\<exists>k. pause_running y (DateOf (zone_of W y) (w_now W k)))"
    if "err = None" "rr_AlreadyMoved res' = rr_AlreadyMoved res" "y \<in> set (x # ss)" for y
  proof -
    have "rr_AlreadyMoved res' = rr_AlreadyMoved res1" and none: "err1 = None" "rr_AlreadyMoved res1 = rr_AlreadyMoved res"
      using that(1,2) ih le by auto
    then show ?thesis using that ih one active_again_same [OF last] by auto
  qed
  show ?case using frame mine theirs live ih le by (auto intro: order_trans)
qed (simp add: deliver_def ret_def)

text \<open>The candidates of the sweep.\<close>

definition due_to_resume :: "date \<Rightarrow> schedule_row \<Rightarrow> bool" where
  "due_to_resume on r = (sr_status r = SchedulePaused
     \<and> (case sr_paused_until r of None \<Rightarrow> False | Some p \<Rightarrow> p \<le> ToTime (AddDays on 1)))"

lemma querySchedules_keeps:
  assumes "alone W" "st_tx s = None" "querySchedules W f s = (r, s1)"
  shows "st_db s1 = st_db s \<and> st_tx s1 = None"
  using assms by (auto simp: querySchedules_def wrapping_def stmt_def settle_def alone_def query_def Let_def
      split: prod.splits sum.splits if_splits)

lemma ResumeDue_list:
  assumes "alone W" "sw_repo sw = postgres W" "st_tx s = None" "ResumeDue W sw s = (Inr (res, err), s')"
  obtains "err \<noteq> None" and "st_db s' = st_db s"
  | s1 where "st_db s1 = st_db s" and "st_tx s1 = None"
    and "resume_each W sw (map scanSchedule (sort_key (\<lambda>r. (sr_paused_until r, sr_created_at r))
      (filter (due_to_resume (DateOf utc (w_now W (st_ticks s)))) (db_schedules (st_db s))))) resume_zero None s1
        = (Inr (res, err), s')"
proof -
  let ?on = "DateOf utc (w_now W (st_ticks s))"
  obtain l s1 where list: "pg_ListSchedulesDueToResume W ?on s = (l, s1)" by fastforce
  note keeps = querySchedules_keeps [OF assms(1,3) list [unfolded pg_ListSchedulesDueToResume_def]]
  show ?thesis
  proof (cases l)
    case (Inl e)
    then have "err \<noteq> None \<and> s' = s1"
      using assms(2,4) list
      by (auto simp: ResumeDue_def run_date_def clock_def gets_def or_deliver_def bind_def attempt_def wrapping_def deliver_def ret_def)
    then show ?thesis using that(1) keeps by simp
  next
    case (Inr ss)
    have each: "resume_each W sw ss resume_zero None s1 = (Inr (res, err), s')"
      using assms(2,4) list Inr
      by (simp add: ResumeDue_def run_date_def clock_def gets_def or_deliver_def bind_def attempt_def wrapping_def ret_def)
    have "ss = map scanSchedule (sort_key (\<lambda>r. (sr_paused_until r, sr_created_at r))
        (filter (due_to_resume ?on) (db_schedules (st_db s))))"
      using querySchedules_alone [OF assms(1,3) list [unfolded pg_ListSchedulesDueToResume_def Inr]]
      by (simp add: schedules_where_def due_to_resume_def [abs_def])
    with that(2) keeps each show ?thesis by blast
  qed
qed


lemma due_list_ids:
  assumes "db_wf d"
  shows "distinct (map s_id (map scanSchedule (sort_key key (filter p (db_schedules d)))))"
  using assms by (simp add: o_def db_wf_def distinct_map distinct_filter) (auto intro: inj_on_subset)

lemma due_pause: "due_to_resume on r \<Longrightarrow> pause_running (scanSchedule r) (DateOf (zone_of W (scanSchedule r)) (w_now W k)) \<longleftrightarrow> \<not> pause_over W r k"
  using pause_running_row by (auto simp: due_to_resume_def split: option.splits)

lemma resume_sweep:
  assumes "canonical W" "sw_repo sw = postgres W" "svc_repo (sw_svc sw) = postgres W" "st_tx s = None" "alone W"
    and wf: "db_wf (st_db s)" and ids: "\<And>r. r \<in> set (db_schedules (st_db s)) \<Longrightarrow> w_uuid_in W (sr_id r) = Some (sr_id r)"
    and run: "ResumeDue W sw s = (Inr (res, err), s')"
  shows "\<forall>r \<in> set (db_schedules (st_db s)). same_for (sr_id r) (st_db s) (st_db s')
      \<or> (\<exists>k. pause_over W r k) \<and> active_again (sr_id r) (st_db s')"
    and "err = None \<Longrightarrow> rr_Considered res = rr_Resumed res + rr_NotYetDue res + rr_AlreadyMoved res
      \<and> rr_Considered res = int (length (filter (due_to_resume (DateOf utc (w_now W (st_ticks s)))) (db_schedules (st_db s))))"
    and "err = None \<Longrightarrow> rr_AlreadyMoved res = 0 \<Longrightarrow> r \<in> set (db_schedules (st_db s)) \<Longrightarrow>
      due_to_resume (DateOf utc (w_now W (st_ticks s))) r \<Longrightarrow> (\<And>k. pause_over W r k) \<Longrightarrow> active_again (sr_id r) (st_db s')"
proof -
  let ?due = "due_to_resume (DateOf utc (w_now W (st_ticks s)))"
  let ?ss = "map scanSchedule (sort_key (\<lambda>r. (sr_paused_until r, sr_created_at r)) (filter ?due (db_schedules (st_db s))))"
  have kept: "st_db s' = st_db s \<and> err \<noteq> None \<or>
      (\<exists>s1. st_db s1 = st_db s \<and> st_tx s1 = None \<and> resume_each W sw ?ss resume_zero None s1 = (Inr (res, err), s'))"
    by (rule ResumeDue_list [OF assms(5,2,4) run]) blast+
  have "(\<forall>u. u \<notin> s_id ` set ?ss \<longrightarrow> same_for u (st_db s) (st_db s'))
    \<and> (\<forall>x \<in> set ?ss. resumed_or_kept W x (st_db s) (st_db s'))
    \<and> (err = None \<longrightarrow> rr_AlreadyMoved res = rr_AlreadyMoved resume_zero \<longrightarrow>
        (\<forall>x \<in> set ?ss. active_again (s_id x) (st_db s') \<or> (\<exists>k. pause_running x (DateOf (zone_of W x) (w_now W k)))))"
    using kept
  proof (elim disjE exE conjE)
    fix s1 assume s1: "st_db s1 = st_db s" "st_tx s1 = None" "resume_each W sw ?ss resume_zero None s1 = (Inr (res, err), s')"
    have uuids: "w_uuid_in W (s_id x) = Some (s_id x)" if "x \<in> set ?ss" for x using that ids by auto
    show ?thesis
      using resume_each_effect [OF assms(5,1,3) s1(3,2) due_list_ids [OF wf] uuids] unfolding s1(1) by blast
  qed (auto simp: resumed_or_kept_def)
  then have frame: "\<And>u. u \<notin> s_id ` set ?ss \<Longrightarrow> same_for u (st_db s) (st_db s')"
    and listed: "\<And>x. x \<in> set ?ss \<Longrightarrow> resumed_or_kept W x (st_db s) (st_db s')"
    and live: "\<And>x. err = None \<Longrightarrow> rr_AlreadyMoved res = rr_AlreadyMoved resume_zero \<Longrightarrow> x \<in> set ?ss \<Longrightarrow>
        active_again (s_id x) (st_db s') \<or> (\<exists>k. pause_running x (DateOf (zone_of W x) (w_now W k)))"
    by blast+
  have mem: "scanSchedule r \<in> set ?ss" if "r \<in> set (db_schedules (st_db s))" "?due r" for r using that by simp
  have own: "r' = r" if "r \<in> set (db_schedules (st_db s))" "r' \<in> set (db_schedules (st_db s))" "sr_id r' = sr_id r" for r r'
    using same_row [OF wf] that by metis
  show "\<forall>r \<in> set (db_schedules (st_db s)). same_for (sr_id r) (st_db s) (st_db s')
      \<or> (\<exists>k. pause_over W r k) \<and> active_again (sr_id r) (st_db s')"
  proof
    fix r assume r: "r \<in> set (db_schedules (st_db s))"
    show "same_for (sr_id r) (st_db s) (st_db s') \<or> (\<exists>k. pause_over W r k) \<and> active_again (sr_id r) (st_db s')"
    proof (cases "?due r")
      case True
      show ?thesis
        using listed [OF mem [OF r True]] unfolding resumed_or_kept_def due_pause [OF True] scanSchedule_sel(1) not_not by blast
    next
      case False
      have "sr_id r \<notin> s_id ` set ?ss" using own [OF r] False by auto
      then show ?thesis using frame by blast
    qed
  qed
  show "rr_Considered res = rr_Resumed res + rr_NotYetDue res + rr_AlreadyMoved res
      \<and> rr_Considered res = int (length (filter ?due (db_schedules (st_db s))))" if "err = None"
    using kept that resume_each_counts by (fastforce simp: resume_zero_def)
  show "active_again (sr_id r) (st_db s')"
    if "err = None" "rr_AlreadyMoved res = 0" "r \<in> set (db_schedules (st_db s))" "?due r" "\<And>k. pause_over W r k"
    using live [OF that(1) _ mem [OF that(3,4)]] that(2,5)
    unfolding due_pause [OF that(4)] scanSchedule_sel(1) by (simp add: resume_zero_def)
qed



text \<open>C18. A pause that is over does end: given zones within a day of UTC, as all are, and a clock on
  which the pause date has come, a sweep that meets neither an error nor an action of the customer
  leaves the schedule active.\<close>

theorem pauses_that_are_over_end:
  assumes "canonical W" and "sw_repo sw = postgres W" and "svc_repo (sw_svc sw) = postgres W" and "st_tx s = None"
    and "alone W" and "db_wf (st_db s)"
    and "\<And>r. r \<in> set (db_schedules (st_db s)) \<Longrightarrow> w_uuid_in W (sr_id r) = Some (sr_id r)"
    and run: "ResumeDue W sw s = (Inr (res, None), s')" and "rr_AlreadyMoved res = 0"
    and zone: "\<And>z loc t. w_load_location W z = Some loc \<Longrightarrow> z_offset (loc t) \<le> 86400"
    and r: "r \<in> set (db_schedules (st_db s))" and over: "\<And>k. pause_over W r k"
  shows "active_again (sr_id r) (st_db s')"
proof -
  let ?now = "w_now W (st_ticks s)" and ?z = "zone_of W (scanSchedule r)"
  have "z_offset (?z ?now) \<le> 86400"
    using zone by (auto simp: zone_of_def utc_def split: option.splits)
  then have "local_day ?z ?now \<le> local_day utc ?now + 1"
    unfolding local_day_def by (simp add: utc_def)
  then have "due_to_resume (DateOf utc ?now) r"
    using over [of "st_ticks s"] by (auto simp: pause_over_def due_to_resume_def ToTime_def AddDays_def DateOf_def)
  then show ?thesis using resume_sweep(3) [OF assms(1-7) run] assms(9) r over by blast
qed

section \<open>The passes on the example\<close>

definition demo_sweeper :: sweeper where
  "demo_sweeper = New_sweeper (postgres demo_world) demo_service"

lemma demo_sweeper_sel [simp]: "sw_repo demo_sweeper = postgres demo_world" "sw_svc demo_sweeper = demo_service"
  by (simp_all add: demo_sweeper_def New_sweeper_def)

lemmas sweep_defs = ResumeDue_def run_date_def todayFor_def pg_ListSchedulesDueToResume_def querySchedules_def schedules_where_def
  pause_running_def After_def ToTime_def demo_sweeper_def New_sweeper_def systemCaller_def resume_zero_def

lemma demo_sweep:
  "\<exists>s'. ResumeDue demo_world demo_sweeper demo_session
     = (Inr (\<lparr>rr_Considered = 1, rr_Resumed = 1, rr_NotYetDue = 0, rr_AlreadyMoved = 0\<rparr>, None), s')"
  by (simp add: sweep_defs Resume_def run_defs cong: run_congs)

lemma demo_second_nightly_run:
  "\<exists>res1 s1 res2 s2. RunAll demo_world demo_materializer (date_of_day 10) demo_session = (Inr (res1, None), s1)
     \<and> RunAll demo_world demo_materializer (date_of_day 10) s1 = (Inr (res2, None), s2)"
  by (simp add: RunAll_def materialize_one_def in_tx_run_def pg_ListActiveSchedules_def querySchedules_def
      schedules_where_def run_defs cong: run_congs)


lemma demo_uuids: "w_uuid_in demo_world (sr_id r) = Some (sr_id r)"
  by simp

lemma second_nightly_run_plans_nothing_witness:
  "\<exists>res1 s1 res2 s2. RunAll demo_world demo_materializer (date_of_day 10) demo_session = (Inr (res1, None), s1)
     \<and> RunAll demo_world demo_materializer (date_of_day 10) s1 = (Inr (res2, None), s2) \<and> OccurrencesCreated res2 = 0"
proof -
  obtain res1 s1 res2 s2 where runs: "RunAll demo_world demo_materializer (date_of_day 10) demo_session = (Inr (res1, None), s1)"
    "RunAll demo_world demo_materializer (date_of_day 10) s1 = (Inr (res2, None), s2)"
    using demo_second_nightly_run by blast
  have "OccurrencesCreated res2 = 0 \<and> DuplicatesSkipped res2 = 0 \<and> same_but_touched (st_db s1) (st_db s2)"
    by (rule second_nightly_run_plans_nothing [OF demo_world_canonical _ _ demo_alone _ _ _ _ runs])
      (simp_all add: demo_wf demo_schedules_near)
  with runs show ?thesis by blast
qed

lemma demo_paused: "demo_row ''s3'' ''ann'' SchedulePaused (Some 10) \<in> set (db_schedules demo_db)"
  by (simp add: demo_db_def)


lemma pauses_that_are_over_end_witness:
  "\<exists>res s'. ResumeDue demo_world demo_sweeper demo_session = (Inr (res, None), s') \<and> active_again ''s3'' (st_db s')"
proof -
  obtain s' where run: "ResumeDue demo_world demo_sweeper demo_session
     = (Inr (\<lparr>rr_Considered = 1, rr_Resumed = 1, rr_NotYetDue = 0, rr_AlreadyMoved = 0\<rparr>, None), s')"
    using demo_sweep by blast
  have "active_again (sr_id (demo_row ''s3'' ''ann'' SchedulePaused (Some 10))) (st_db s')"
    by (rule pauses_that_are_over_end [OF demo_world_canonical _ _ _ demo_alone _ _ run])
      (auto simp: demo_wf demo_paused [unfolded demo_row_def, simplified] demo_row_def pause_over_def zone_of_def local_day_def utc_def)
  with run show ?thesis by (auto simp: demo_row_def)
qed

end
