(* ===== verification/Arming.thy ===== *)
theory Arming
  imports Passes
begin

text \<open>
  The pre-billing pass of \<open>internal/sweep/sweep.go\<close>: no order is armed before its window opens on the
  customer's own calendar, at most the next order of a schedule is, every candidate is counted
  once, and an order whose window is open is armed.
\<close>

section \<open>One schedule\<close>

text \<open>What arming leaves of a schedule: the row as it was and, of its occurrences, only the next
  planned one changed, to pending, unless an order is attached to it.\<close>

definition armed_next :: "string \<Rightarrow> occurrence_row \<Rightarrow> db \<Rightarrow> db \<Rightarrow> bool" where
  "armed_next u oc d d' = (next_planned u d = Some oc
     \<and> filter (\<lambda>r. sr_id r = u) (db_schedules d') = filter (\<lambda>r. sr_id r = u) (db_schedules d)
     \<and> (\<exists>t. filter (\<lambda>x. or_schedule_id x = u) (db_occurrences d')
          = update_where (\<lambda>x. or_id x = or_id oc \<and> or_order_id x = None) (\<lambda>x. x\<lparr>or_status := OccurrencePending, or_updated_at := t\<rparr>)
              (filter (\<lambda>x. or_schedule_id x = u) (db_occurrences d))))"

text \<open>The window of an order is open at a reading of the clock.\<close>

definition in_window :: "world \<Rightarrow> schedule \<Rightarrow> occurrence_row \<Rightarrow> nat \<Rightarrow> bool" where
  "in_window W x oc k = (or_scheduled_for oc - ArmWindowDays \<le> local_day (zone_of W x) (w_now W k))"

lemma in_window_row: "not_in_window (scanOccurrence oc) (DateOf (zone_of W x) (w_now W k)) \<longleftrightarrow> \<not> in_window W x oc k"
  by (simp add: not_in_window_def in_window_def scanOccurrence_def After_def AddDays_def DateOf_def not_le)

lemma armed_next_db:
  assumes "next_planned u d = Some oc"
  shows "armed_next u oc d (arm_db t u oc caller d)"
proof -
  have "filter (\<lambda>x. or_schedule_id x = u) (update_where p (ostatus_row OccurrencePending t) xs)
      = update_where p (ostatus_row OccurrencePending t) (filter (\<lambda>x. or_schedule_id x = u) xs)" for p xs
    by (induction xs) (auto simp: update_where_def ostatus_row_def)
  then show ?thesis
    using assms by (auto simp: armed_next_def arm_db_def set_occurrence_def set_occurrences_def log_event_def ostatus_row_def [abs_def])
qed

lemma alone_lawful: "alone W \<Longrightarrow> lawful W horizon"
  by (simp add: lawful_def alone_def served_refl)

lemma system_arms:
  assumes "alone W" "canonical W" "svc_repo svc = postgres W" "st_tx s = None" "invariant W (st_db s)" "w_uuid_in W i = Some i"
    and run: "ArmNext W svc i systemCaller s = (r, s')"
  shows "st_tx s' = None \<and> invariant W (st_db s') \<and> (case r of Inl e \<Rightarrow> st_db s' = st_db s
    | Inr _ \<Rightarrow> others_kept i (st_db s) (st_db s') \<and> (\<exists>oc. armed_next i oc (st_db s) (st_db s')))"
proof -
  note b = alone_begun [OF assms(1), of s]
  have ok: "st_tx s' = None" "invariant W (st_db s')"
    using serving_outcome [OF actions_top(4) [OF assms(3) refl] alone_lawful [OF assms(1)] assms(2,5,4) run] by simp_all
  have wf: "db_wf (st_db s)" and canon: "canonical_db W (begun W s)" using assms(5) by (simp_all add: invariant_def b)
  show ?thesis
  proof (cases r)
    case (Inl e)
    have "perform W svc i DoArm systemCaller s = (Inl e, s')" using run Inl by simp
    from perform_shape [OF this] have "s' = s \<or> st_db s' = begun W s"
      using transition_rolls_back [OF _ assms(4)] by blast
    then show ?thesis using Inl ok b by auto
  next
    case (Inr out)
    obtain u x oc where l: "locked W i ActionArm systemCaller (begun W s) u x"
      and oc: "next_planned u (begun W s) = Some oc"
      and d': "st_db s' = arm_db (w_dbnow W (st_ticks s)) u oc systemCaller (begun W s)"
      using ArmNext_commits [OF assms(2-4) run [unfolded Inr] canon] by blast
    have u: "u = i" using l assms(6) by (simp add: locked_def)
    have "armed_next i oc (st_db s) (st_db s')"
      using armed_next_db [of i _ oc] oc d' unfolding u b by simp
    moreover have "others_kept i (st_db s) (st_db s')" using kept_arm [OF wf] oc d' unfolding u b by simp
    ultimately show ?thesis using Inr ok by auto
  qed
qed


section \<open>The pass\<close>

lemma NextPlanned_alone:
  assumes "alone W" "st_tx s = None" "w_uuid_in W u = Some u" "pg_NextPlannedOccurrence W u s = (r, s1)"
  shows "st_db s1 = st_db s \<and> st_tx s1 = None
    \<and> (case r of Inl e \<Rightarrow> err_is e ErrNotFound \<longrightarrow> next_planned u (st_db s) = None
       | Inr found \<Rightarrow> \<exists>oc. next_planned u (st_db s) = Some oc \<and> found = scanOccurrence oc)"
  using assms
  by (auto simp: pg_NextPlannedOccurrence_def queryOneOccurrence_def queryOccurrences_def next_planned_def limit_one_def
      bind_def wrapping_def stmt_def settle_def alone_def with_uuid_def query_def throw_def ret_def Let_def pg_failed_tx_def
      split: prod.splits sum.splits if_splits list.splits option.splits)

text \<open>An order that waits: none is planned, or a reading of the clock was before its window.\<close>

definition order_waits :: "world \<Rightarrow> schedule \<Rightarrow> db \<Rightarrow> bool" where
  "order_waits W x d = (\<forall>oc. next_planned (s_id x) d = Some oc \<longrightarrow> (\<exists>k. \<not> in_window W x oc k))"

lemma arm_each_step:
  assumes "alone W" "canonical W" "svc_repo (sw_svc sw) = postgres W" "sw_repo sw = postgres W" "st_tx s = None"
    and "invariant W (st_db s)" "w_uuid_in W (s_id x) = Some (s_id x)"
    and run: "arm_each W sw (x # ss) res firstErr s = (Inr (res', err), s')"
  obtains res1 err1 s1 where "arm_each W sw ss res1 err1 s1 = (Inr (res', err), s')" and "st_tx s1 = None"
    and "invariant W (st_db s1)"
    and "st_db s1 = st_db s \<and> (err1 \<noteq> None \<or> ar_AlreadyMoved res1 > ar_AlreadyMoved res \<or> order_waits W x (st_db s))
      \<or> others_kept (s_id x) (st_db s) (st_db s1) \<and> (\<exists>oc k. in_window W x oc k \<and> armed_next (s_id x) oc (st_db s) (st_db s1))"
    and "ar_AlreadyMoved res \<le> ar_AlreadyMoved res1" and "firstErr \<noteq> None \<Longrightarrow> err1 \<noteq> None"
proof -
  let ?res = "ar_Considered_update (\<lambda>_. ar_Considered res + 1) res"
  obtain found s1 where found: "pg_NextPlannedOccurrence W (s_id x) s = (found, s1)" by fastforce
  note read = NextPlanned_alone [OF assms(1,5,7) found]
  have run': "bind (attempt (pg_NextPlannedOccurrence W (s_id x))) (\<lambda>found. case found of
       Inl e \<Rightarrow>
         if err_is e ErrNotFound
         then arm_each W sw ss (?res\<lparr>ar_NotYetDue := ar_NotYetDue ?res + 1\<rparr>) firstErr
         else arm_each W sw ss ?res (if firstErr = None then Some e else firstErr)
     | Inr occ \<Rightarrow>
         bind (todayFor W x) (\<lambda>t.
         if not_in_window occ t
         then arm_each W sw ss (?res\<lparr>ar_NotYetDue := ar_NotYetDue ?res + 1\<rparr>) firstErr
         else
           bind (attempt (ArmNext W (sw_svc sw) (s_id x) systemCaller)) (\<lambda>r. case r of
             Inl e \<Rightarrow>
               if moved_meanwhile e
               then arm_each W sw ss (?res\<lparr>ar_AlreadyMoved := ar_AlreadyMoved ?res + 1\<rparr>) firstErr
               else arm_each W sw ss ?res (if firstErr = None then Some e else firstErr)
           | Inr _ \<Rightarrow> arm_each W sw ss (?res\<lparr>ar_Armed := ar_Armed ?res + 1\<rparr>) firstErr))) s = (Inr (res', err), s')"
    using run by (simp add: Let_def assms(4))
  show ?thesis
  proof (cases found)
    case (Inl e)
    then show ?thesis
      using run' found read assms(6) by (auto simp: bind_def attempt_def order_waits_def split: if_splits intro: that)
  next
    case (Inr occ)
    let ?t = "DateOf (zone_of W x) (w_now W (st_ticks s1))"
    obtain oc where oc: "next_planned (s_id x) (st_db s) = Some oc" "occ = scanOccurrence oc" using read Inr by auto
    have step: "(if not_in_window occ ?t
       then arm_each W sw ss (?res\<lparr>ar_NotYetDue := ar_NotYetDue ?res + 1\<rparr>) firstErr
       else bind (attempt (ArmNext W (sw_svc sw) (s_id x) systemCaller)) (\<lambda>r. case r of
         Inl e \<Rightarrow> if moved_meanwhile e
           then arm_each W sw ss (?res\<lparr>ar_AlreadyMoved := ar_AlreadyMoved ?res + 1\<rparr>) firstErr
           else arm_each W sw ss ?res (if firstErr = None then Some e else firstErr)
       | Inr _ \<Rightarrow> arm_each W sw ss (?res\<lparr>ar_Armed := ar_Armed ?res + 1\<rparr>) firstErr)) s1 = (Inr (res', err), s')"
      using run' found Inr by (simp add: todayFor_def bind_def attempt_def clock_def gets_def ret_def)
    have s1: "st_tx s1 = None" "st_db s1 = st_db s" using read by simp_all
    show ?thesis
    proof (cases "not_in_window occ ?t")
      case True
      then have "order_waits W x (st_db s)"
        unfolding order_waits_def oc in_window_row by auto
      then show ?thesis using True step s1 assms(6) by (auto intro: that)
    next
      case False
      obtain r s2 where arm: "ArmNext W (sw_svc sw) (s_id x) systemCaller s1 = (r, s2)" by fastforce
      note effect = system_arms [OF assms(1,2,3) s1(1) assms(6) [folded s1(2)] assms(7) arm, unfolded s1(2)]
      have "in_window W x oc (st_ticks s1)" using False unfolding oc(2) in_window_row by simp
      then have "\<exists>oc k. in_window W x oc k \<and> armed_next (s_id x) oc (st_db s) (st_db s2)"
        if "armed_next (s_id x) oc' (st_db s) (st_db s2)" for oc'
        using that oc(1) unfolding armed_next_def by auto
      then show ?thesis
        using step arm effect False
        by (cases r) (auto simp: bind_def attempt_def split: if_splits intro: that)
    qed
  qed
qed


text \<open>A schedule is left as it was, or its next order was armed inside the window.\<close>

definition armed_in_time :: "world \<Rightarrow> schedule \<Rightarrow> db \<Rightarrow> db \<Rightarrow> bool" where
  "armed_in_time W x d d' = (same_for (s_id x) d d' \<or> (\<exists>oc k. in_window W x oc k \<and> armed_next (s_id x) oc d d'))"

lemma armed_next_same:
  assumes "same_for u d d1" "same_for u d2 d3" "armed_next u oc d1 d2"
  shows "armed_next u oc d d3"
  using assms(3) same_for_next [OF assms(1)] assms(1,2) unfolding armed_next_def same_for_def by simp

lemma armed_in_time_same:
  assumes "same_for (s_id x) d d1" "same_for (s_id x) d2 d3" "armed_in_time W x d1 d2"
  shows "armed_in_time W x d d3"
  using assms(3) armed_next_same [OF assms(1,2)] same_for_trans assms(1,2) unfolding armed_in_time_def by blast

lemma arm_each_effect:
  assumes "alone W" "canonical W" "svc_repo (sw_svc sw) = postgres W" "sw_repo sw = postgres W"
  shows "arm_each W sw ss res firstErr s = (Inr (res', err), s') \<Longrightarrow> st_tx s = None \<Longrightarrow> invariant W (st_db s) \<Longrightarrow>
    distinct (map s_id ss) \<Longrightarrow> (\<And>x. x \<in> set ss \<Longrightarrow> w_uuid_in W (s_id x) = Some (s_id x)) \<Longrightarrow>
    (\<forall>u. u \<notin> s_id ` set ss \<longrightarrow> same_for u (st_db s) (st_db s')) \<and> (\<forall>x \<in> set ss. armed_in_time W x (st_db s) (st_db s'))
    \<and> ar_AlreadyMoved res \<le> ar_AlreadyMoved res' \<and> (firstErr \<noteq> None \<longrightarrow> err \<noteq> None)
    \<and> (err = None \<longrightarrow> ar_AlreadyMoved res' = ar_AlreadyMoved res \<longrightarrow>
        (\<forall>x \<in> set ss. order_waits W x (st_db s) \<or> (\<exists>oc. armed_next (s_id x) oc (st_db s) (st_db s'))))"
proof (induction ss arbitrary: res firstErr s)
  case (Cons x ss)
  have ux: "w_uuid_in W (s_id x) = Some (s_id x)" by (rule Cons.prems(5)) simp
  have out: "s_id x \<notin> s_id ` set ss" and dist: "distinct (map s_id ss)" using Cons.prems(4) by simp_all
  from arm_each_step [OF assms Cons.prems(2,3) ux Cons.prems(1)]
  obtain res1 err1 s1 where rest: "arm_each W sw ss res1 err1 s1 = (Inr (res', err), s')"
    and tx: "st_tx s1 = None" and inv: "invariant W (st_db s1)"
    and one: "st_db s1 = st_db s \<and> (err1 \<noteq> None \<or> ar_AlreadyMoved res1 > ar_AlreadyMoved res \<or> order_waits W x (st_db s))
      \<or> others_kept (s_id x) (st_db s) (st_db s1) \<and> (\<exists>oc k. in_window W x oc k \<and> armed_next (s_id x) oc (st_db s) (st_db s1))"
    and le: "ar_AlreadyMoved res \<le> ar_AlreadyMoved res1" "firstErr \<noteq> None \<Longrightarrow> err1 \<noteq> None"
    by metis
  have ids: "w_uuid_in W (s_id y) = Some (s_id y)" if "y \<in> set ss" for y using Cons.prems(5) that by simp
  note ih = Cons.IH [OF rest tx inv dist ids]
  have others: "same_for u (st_db s) (st_db s1)" if "u \<noteq> s_id x" for u
    using one others_same_for [OF _ that] by auto
  have rest_x: "same_for (s_id x) (st_db s1) (st_db s')" using ih out by blast
  have "armed_in_time W x (st_db s) (st_db s1)" using one by (auto simp: armed_in_time_def)
  then have mine: "armed_in_time W x (st_db s) (st_db s')"
    using armed_in_time_same [OF same_for_refl rest_x] by blast
  have theirs: "armed_in_time W y (st_db s) (st_db s')" if y: "y \<in> set ss" for y
  proof (rule armed_in_time_same)
    show "same_for (s_id y) (st_db s) (st_db s1)" using others y out by (metis image_eqI)
    show "armed_in_time W y (st_db s1) (st_db s')" using ih y by blast
  qed simp
  have live: "order_waits W y (st_db s) \<or> (\<exists>oc. armed_next (s_id y) oc (st_db s) (st_db s'))"
    if "err = None" "ar_AlreadyMoved res' = ar_AlreadyMoved res" "y \<in> set (x # ss)" for y
  proof -
    have later: "ar_AlreadyMoved res' = ar_AlreadyMoved res1" and none: "err1 = None" "ar_AlreadyMoved res1 = ar_AlreadyMoved res"
      using that(1,2) ih le by auto
    show ?thesis
    proof (cases "y = x")
      case True
      then show ?thesis using one none armed_next_same [OF same_for_refl rest_x] by auto
    next
      case False
      then have y: "y \<in> set ss" using that(3) by simp
      have "same_for (s_id y) (st_db s) (st_db s1)" using others y out by (metis image_eqI)
      then show ?thesis
        using ih y that(1) later armed_next_same [OF _ same_for_refl] same_for_next unfolding order_waits_def by metis
    qed
  qed
  have "same_for u (st_db s) (st_db s')" if "u \<notin> s_id ` set (x # ss)" for u
    using that ih others [of u] same_for_trans by auto
  then show ?case using mine theirs live ih le by (auto intro: order_trans)
qed (simp add: deliver_def ret_def)

definition due_to_arm :: "date \<Rightarrow> db \<Rightarrow> schedule_row \<Rightarrow> bool" where
  "due_to_arm on d r = (sr_status r = ScheduleActive
     \<and> (\<exists>oc \<in> set (db_occurrences d). sr_id r = or_schedule_id oc \<and> planned oc
          \<and> or_scheduled_for oc \<le> ToTime (AddDays on (ArmWindowDays + 1))))"

lemma ArmDue_list:
  assumes "alone W" "sw_repo sw = postgres W" "st_tx s = None" "ArmDue W sw s = (Inr (res, err), s')"
  obtains "err \<noteq> None" and "st_db s' = st_db s"
  | s1 where "st_db s1 = st_db s" and "st_tx s1 = None"
    and "arm_each W sw (map scanSchedule (sort_key sr_id
      (filter (due_to_arm (DateOf utc (w_now W (st_ticks s))) (st_db s)) (db_schedules (st_db s))))) arm_zero None s1
        = (Inr (res, err), s')"
proof -
  let ?on = "DateOf utc (w_now W (st_ticks s))"
  obtain l s1 where list: "pg_ListSchedulesDueToArm W ?on s = (l, s1)" by fastforce
  note keeps = querySchedules_keeps [OF assms(1,3) list [unfolded pg_ListSchedulesDueToArm_def]]
  show ?thesis
  proof (cases l)
    case (Inl e)
    then have "err \<noteq> None \<and> s' = s1"
      using assms(2,4) list
      by (auto simp: ArmDue_def run_date_def clock_def gets_def or_deliver_def bind_def attempt_def wrapping_def deliver_def ret_def)
    then show ?thesis using that(1) keeps by simp
  next
    case (Inr ss)
    have each: "arm_each W sw ss arm_zero None s1 = (Inr (res, err), s')"
      using assms(2,4) list Inr
      by (simp add: ArmDue_def run_date_def clock_def gets_def or_deliver_def bind_def attempt_def wrapping_def ret_def)
    have due: "due_to_arm ?on (st_db s) = (\<lambda>r. sr_status r = ScheduleActive
        \<and> sr_id r \<in> set (map or_schedule_id (filter
            (\<lambda>oc. planned oc \<and> or_scheduled_for oc \<le> ToTime (AddDays ?on (ArmWindowDays + 1))) (db_occurrences (st_db s)))))"
      by (rule ext) (auto simp: due_to_arm_def image_iff)
    have "ss = map scanSchedule (sort_key sr_id (filter (due_to_arm ?on (st_db s)) (db_schedules (st_db s))))"
      using querySchedules_alone [OF assms(1,3) list [unfolded pg_ListSchedulesDueToArm_def Inr]]
      unfolding due schedules_where_def by blast
    with that(2) keeps each show ?thesis by blast
  qed
qed


lemma arm_sweep:
  assumes "canonical W" "sw_repo sw = postgres W" "svc_repo (sw_svc sw) = postgres W" "st_tx s = None" "alone W"
    and inv: "invariant W (st_db s)" and ids: "\<And>r. r \<in> set (db_schedules (st_db s)) \<Longrightarrow> w_uuid_in W (sr_id r) = Some (sr_id r)"
    and run: "ArmDue W sw s = (Inr (res, err), s')"
  shows "r \<in> set (db_schedules (st_db s)) \<Longrightarrow> same_for (sr_id r) (st_db s) (st_db s') \<or>
      sr_status r = ScheduleActive \<and> (\<exists>oc k. in_window W (scanSchedule r) oc k \<and> armed_next (sr_id r) oc (st_db s) (st_db s'))"
    and "err = None \<Longrightarrow> ar_Considered res = ar_Armed res + ar_NotYetDue res + ar_AlreadyMoved res
      \<and> ar_Considered res = int (length (filter (due_to_arm (DateOf utc (w_now W (st_ticks s))) (st_db s)) (db_schedules (st_db s))))"
    and "err = None \<Longrightarrow> ar_AlreadyMoved res = 0 \<Longrightarrow> r \<in> set (db_schedules (st_db s)) \<Longrightarrow>
      due_to_arm (DateOf utc (w_now W (st_ticks s))) (st_db s) r \<Longrightarrow> next_planned (sr_id r) (st_db s) = Some oc \<Longrightarrow>
      (\<And>k. in_window W (scanSchedule r) oc k) \<Longrightarrow> armed_next (sr_id r) oc (st_db s) (st_db s')"
proof -
  let ?due = "due_to_arm (DateOf utc (w_now W (st_ticks s))) (st_db s)"
  let ?ss = "map scanSchedule (sort_key sr_id (filter ?due (db_schedules (st_db s))))"
  have wf: "db_wf (st_db s)" using inv by (simp add: invariant_def)
  have kept: "st_db s' = st_db s \<and> err \<noteq> None \<or>
      (\<exists>s1. st_db s1 = st_db s \<and> st_tx s1 = None \<and> arm_each W sw ?ss arm_zero None s1 = (Inr (res, err), s'))"
    by (rule ArmDue_list [OF assms(5,2,4) run]) blast+
  have "(\<forall>u. u \<notin> s_id ` set ?ss \<longrightarrow> same_for u (st_db s) (st_db s')) \<and> (\<forall>x \<in> set ?ss. armed_in_time W x (st_db s) (st_db s'))
    \<and> (err = None \<longrightarrow> ar_AlreadyMoved res = ar_AlreadyMoved arm_zero \<longrightarrow>
        (\<forall>x \<in> set ?ss. order_waits W x (st_db s) \<or> (\<exists>oc. armed_next (s_id x) oc (st_db s) (st_db s'))))"
    using kept
  proof (elim disjE exE conjE)
    fix s1 assume s1: "st_db s1 = st_db s" "st_tx s1 = None" "arm_each W sw ?ss arm_zero None s1 = (Inr (res, err), s')"
    have uuids: "w_uuid_in W (s_id x) = Some (s_id x)" if "x \<in> set ?ss" for x using that ids by auto
    show ?thesis
      using arm_each_effect [OF assms(5,1,3,2) s1(3,2) _ due_list_ids [OF wf] uuids] inv unfolding s1(1) by blast
  qed (auto simp: armed_in_time_def)
  then have frame: "\<And>u. u \<notin> s_id ` set ?ss \<Longrightarrow> same_for u (st_db s) (st_db s')"
    and listed: "\<And>x. x \<in> set ?ss \<Longrightarrow> armed_in_time W x (st_db s) (st_db s')"
    and live: "\<And>x. err = None \<Longrightarrow> ar_AlreadyMoved res = ar_AlreadyMoved arm_zero \<Longrightarrow> x \<in> set ?ss \<Longrightarrow>
        order_waits W x (st_db s) \<or> (\<exists>oc. armed_next (s_id x) oc (st_db s) (st_db s'))"
    by blast+
  show "same_for (sr_id r) (st_db s) (st_db s') \<or>
      sr_status r = ScheduleActive \<and> (\<exists>oc k. in_window W (scanSchedule r) oc k \<and> armed_next (sr_id r) oc (st_db s) (st_db s'))"
    if r: "r \<in> set (db_schedules (st_db s))"
  proof (cases "?due r")
    case True
    have "scanSchedule r \<in> set ?ss" using r True by simp
    from listed [OF this] True show ?thesis
      unfolding armed_in_time_def scanSchedule_sel(1) due_to_arm_def by blast
  next
    case False
    have "r' = r" if "r' \<in> set (db_schedules (st_db s))" "sr_id r' = sr_id r" for r'
      using same_row [OF wf] that r by metis
    then have "sr_id r \<notin> s_id ` set ?ss" using False by auto
    then show ?thesis using frame by blast
  qed
  show "ar_Considered res = ar_Armed res + ar_NotYetDue res + ar_AlreadyMoved res
      \<and> ar_Considered res = int (length (filter ?due (db_schedules (st_db s))))" if "err = None"
    using kept that arm_each_counts by (fastforce simp: arm_zero_def)
  show "armed_next (sr_id r) oc (st_db s) (st_db s')"
    if t: "err = None" "ar_AlreadyMoved res = 0" "r \<in> set (db_schedules (st_db s))" "?due r"
      and oc: "next_planned (sr_id r) (st_db s) = Some oc" and now: "\<And>k. in_window W (scanSchedule r) oc k"
  proof -
    have mem: "scanSchedule r \<in> set ?ss" using t(3,4) by simp
    have "\<not> order_waits W (scanSchedule r) (st_db s)" using oc now by (auto simp: order_waits_def)
    then obtain oc' where "armed_next (sr_id r) oc' (st_db s) (st_db s')"
      using live [OF t(1) _ mem] t(2) by (auto simp: arm_zero_def)
    then show ?thesis using oc by (simp add: armed_next_def)
  qed
qed


text \<open>C20. An order whose window is open is armed: given zones within a day of UTC and a clock on which the
  window of the next planned order of an active schedule is open, a pass that meets neither an
  error nor an action of the customer turns exactly that order pending.\<close>

theorem orders_in_their_window_are_armed:
  assumes "canonical W" and "sw_repo sw = postgres W" and "svc_repo (sw_svc sw) = postgres W" and "st_tx s = None"
    and "alone W" and "invariant W (st_db s)"
    and "\<And>r. r \<in> set (db_schedules (st_db s)) \<Longrightarrow> w_uuid_in W (sr_id r) = Some (sr_id r)"
    and run: "ArmDue W sw s = (Inr (res, None), s')" and moved: "ar_AlreadyMoved res = 0"
    and zone: "\<And>z loc t. w_load_location W z = Some loc \<Longrightarrow> z_offset (loc t) \<le> 86400"
    and r: "r \<in> set (db_schedules (st_db s))" and active: "sr_status r = ScheduleActive"
    and oc: "next_planned (sr_id r) (st_db s) = Some oc" and now: "\<And>k. in_window W (scanSchedule r) oc k"
  shows "armed_next (sr_id r) oc (st_db s) (st_db s')"
proof -
  let ?now = "w_now W (st_ticks s)" and ?z = "zone_of W (scanSchedule r)"
  have "z_offset (?z ?now) \<le> 86400"
    using zone by (auto simp: zone_of_def utc_def split: option.splits)
  then have "local_day ?z ?now \<le> local_day utc ?now + 1"
    unfolding local_day_def by (simp add: utc_def)
  then have "or_scheduled_for oc \<le> ToTime (AddDays (DateOf utc ?now) (ArmWindowDays + 1))"
    using now [of "st_ticks s"] by (auto simp: in_window_def ToTime_def AddDays_def DateOf_def)
  moreover have "oc \<in> set (db_occurrences (st_db s))" "or_schedule_id oc = sr_id r" "planned oc"
    using next_rowD(1) [OF oc] by simp_all
  ultimately have "due_to_arm (DateOf utc ?now) (st_db s) r"
    unfolding due_to_arm_def using active by (intro conjI bexI [of _ oc]) simp_all
  then show ?thesis using arm_sweep(3) [OF assms(1-7) run refl moved r] oc now by blast
qed

text \<open>The example with an order two days ahead.\<close>

definition arming_db :: db where
  "arming_db = demo_db\<lparr>db_occurrences := [demo_occurrence ''x1'' ''s1'' 1 12 OccurrencePlanned,
        demo_occurrence ''x2'' ''s2'' 1 11 OccurrencePending, demo_occurrence ''x3'' ''s2'' 2 14 OccurrencePlanned]\<rparr>"

definition arming_session :: session where
  "arming_session = open_session arming_db"

lemma arming_invariant: "invariant demo_world arming_db"
  by code_simp

lemma arming_session_sel [simp]: "st_tx arming_session = None" "st_db arming_session = arming_db"
  by (simp_all add: arming_session_def open_session_def)

lemma arming_pass:
  "\<exists>s'. ArmDue demo_world demo_sweeper arming_session
     = (Inr (\<lparr>ar_Considered = 2, ar_Armed = 1, ar_NotYetDue = 1, ar_AlreadyMoved = 0\<rparr>, None), s')"
  by (simp add: ArmDue_def pg_ListSchedulesDueToArm_def not_in_window_def ArmWindowDays_def ArmNext_def arming_session_def
      arming_db_def arm_zero_def sweep_defs run_defs del: set_map set_filter cong: run_congs)


lemma orders_in_their_window_are_armed_witness:
  "\<exists>res s'. ArmDue demo_world demo_sweeper arming_session = (Inr (res, None), s')
     \<and> armed_next ''s1'' (demo_occurrence ''x1'' ''s1'' 1 12 OccurrencePlanned) arming_db (st_db s')"
proof -
  let ?r = "demo_row ''s1'' ''ann'' ScheduleActive None" and ?oc = "demo_occurrence ''x1'' ''s1'' 1 12 OccurrencePlanned"
  obtain s' where run: "ArmDue demo_world demo_sweeper arming_session
     = (Inr (\<lparr>ar_Considered = 2, ar_Armed = 1, ar_NotYetDue = 1, ar_AlreadyMoved = 0\<rparr>, None), s')"
    using arming_pass by blast
  have oc: "next_planned (sr_id ?r) (st_db arming_session) = Some ?oc"
    unfolding arming_session_sel by code_simp
  have "armed_next (sr_id ?r) ?oc (st_db arming_session) (st_db s')"
    by (rule orders_in_their_window_are_armed [OF demo_world_canonical _ _ _ demo_alone _ _ run _ _ _ _ oc])
      (simp_all add: arming_invariant, auto simp: arming_db_def demo_db_def demo_row_def in_window_def demo_occurrence_def
        ArmWindowDays_def zone_of_def local_day_def utc_def)
  with run show ?thesis unfolding arming_session_sel by (auto simp: demo_row_def)
qed

end
