(* ===== verification/Dispatch.thy ===== *)
theory Dispatch
  imports Arming
begin

text \<open>
  The outbox of \<open>internal/notify/notify.go\<close> and \<open>ClaimNotifiableEvents\<close>: an event that has been
  claimed cannot be claimed again before its timeout, so a run of the dispatcher drains the backlog
  in a bounded number of pages; and what one claimed event may send.
\<close>

section \<open>The rows of the outbox\<close>

definition outbox_row :: "int \<Rightarrow> notification_row list \<Rightarrow> notification_row option" where
  "outbox_row i ns = find (\<lambda>n. nr_schedule_event_id n = i) ns"

lemma outbox_row_claim_one:
  "outbox_row i (claim_one now e ns) = (if er_id e = i
     then Some (case outbox_row i ns of
         None \<Rightarrow> \<lparr>nr_schedule_event_id = i, nr_status = NotificationPending, nr_attempts = 1,
                nr_last_attempt_at = now, nr_sent_at = None, nr_last_error = None\<rparr>
       | Some n \<Rightarrow> n\<lparr>nr_attempts := nr_attempts n + 1, nr_last_attempt_at := now\<rparr>)
     else outbox_row i ns)"
proof -
  let ?f = "\<lambda>n. n\<lparr>nr_attempts := nr_attempts n + 1, nr_last_attempt_at := now\<rparr>"
  have upd: "find (\<lambda>n. nr_schedule_event_id n = i) (update_where (\<lambda>n. nr_schedule_event_id n = j) ?f ns)
      = (if i = j then map_option ?f (find (\<lambda>n. nr_schedule_event_id n = i) ns) else find (\<lambda>n. nr_schedule_event_id n = i) ns)" for j
    by (induction ns) (auto simp: update_where_def)
  have app: "find p (ns @ [x]) = (case find p ns of None \<Rightarrow> if p x then Some x else None | Some y \<Rightarrow> Some y)" for p and x :: notification_row
    by (induction ns) auto
  have none: "find (\<lambda>n. nr_schedule_event_id n = j) ns = None \<longleftrightarrow> j \<notin> nr_schedule_event_id ` set ns" for j
    by (auto simp: find_None_iff)
  show ?thesis
  proof (cases "find (\<lambda>n. nr_schedule_event_id n = er_id e) ns")
    case None
    then have "er_id e \<notin> nr_schedule_event_id ` set ns" unfolding none .
    then show ?thesis using None by (auto simp: outbox_row_def claim_one_def app split: option.splits)
  next
    case (Some n)
    then have "er_id e \<in> nr_schedule_event_id ` set ns" using none [of "er_id e"] by auto
    then show ?thesis using Some by (auto simp: outbox_row_def claim_one_def upd)
  qed
qed

lemma outbox_row_claimed:
  "i \<in> er_id ` set es \<Longrightarrow> \<exists>n. outbox_row i (fold (claim_one now) es ns) = Some n \<and> nr_last_attempt_at n = now"
  "i \<notin> er_id ` set es \<Longrightarrow> outbox_row i (fold (claim_one now) es ns) = outbox_row i ns"
proof (induction es arbitrary: ns)
  case (Cons e es)
  {
    case 1
    show ?case
    proof (cases "i \<in> er_id ` set es")
      case True
      then show ?thesis using Cons.IH(1) by simp
    next
      case False
      then have "er_id e = i" using 1 by auto
      then show ?thesis
        using Cons.IH(2) [OF False] by (auto simp: outbox_row_claim_one split: option.splits)
    qed
  next
    case 2
    then show ?case using Cons.IH(2) by (auto simp: outbox_row_claim_one)
  }
qed auto

text \<open>Attempted since an instant.\<close>

definition attempted :: "int \<Rightarrow> db \<Rightarrow> int \<Rightarrow> bool" where
  "attempted t d i = (\<exists>n. outbox_row i (db_notifications d) = Some n \<and> t \<le> nr_last_attempt_at n)"

lemma claimable_row:
  "claimable types timeout now d e = (er_event_type e \<in> set types \<and> (case outbox_row (er_id e) (db_notifications d) of
     None \<Rightarrow> True | Some n \<Rightarrow> nr_status n = NotificationPending \<and> nr_last_attempt_at n < now - timeout))"
  by (simp add: claimable_def outbox_row_def)

lemma claimable_not_attempted: "claimable types timeout now d e \<Longrightarrow> now \<le> t + timeout \<Longrightarrow> \<not> attempted t d (er_id e)"
  by (auto simp: claimable_row attempted_def split: option.splits)

section \<open>One claim\<close>

definition claimed_by :: "event_type list \<Rightarrow> int \<Rightarrow> nat \<Rightarrow> int \<Rightarrow> db \<Rightarrow> event_row list" where
  "claimed_by types timeout limit now d = take limit (sort_key er_id (filter (claimable types timeout now d) (db_events d)))"

lemma q_claim_split:
  "q_claim types timeout limit now d = Inr (es, d') \<longleftrightarrow>
     es = map scanNotifiable (claimed_by types timeout limit now d)
     \<and> d' = d\<lparr>db_notifications := fold (claim_one now) (claimed_by types timeout limit now d) (db_notifications d)\<rparr>"
  by (auto simp: q_claim_def claimed_by_def Let_def)

lemma claimed_by_set:
  "e \<in> set (claimed_by types timeout limit now d) \<Longrightarrow> e \<in> set (db_events d) \<and> claimable types timeout now d e"
  by (auto simp: claimed_by_def dest: in_set_takeD)

lemma claimed_by_all:
  assumes "length (claimed_by types timeout limit now d) < limit"
  shows "set (claimed_by types timeout limit now d) = {e \<in> set (db_events d). claimable types timeout now d e}"
  using assms by (auto simp: claimed_by_def min_def split: if_splits)

lemma claimed_attempted:
  assumes "q_claim types timeout limit now d = Inr (es, d')"
  shows "i \<in> n_schedule_event_id ` set es \<Longrightarrow> attempted now d' i"
    and "i \<notin> n_schedule_event_id ` set es \<Longrightarrow> outbox_row i (db_notifications d') = outbox_row i (db_notifications d)"
proof -
  have ids: "n_schedule_event_id ` set es = er_id ` set (claimed_by types timeout limit now d)"
    using assms by (force simp: q_claim_split scanNotifiable_def)
  show "attempted now d' i" if "i \<in> n_schedule_event_id ` set es"
    using assms outbox_row_claimed(1) [of i "claimed_by types timeout limit now d" now "db_notifications d"] that
    by (auto simp: q_claim_split attempted_def scanNotifiable_def)
  show "outbox_row i (db_notifications d') = outbox_row i (db_notifications d)" if "i \<notin> n_schedule_event_id ` set es"
    using outbox_row_claimed(2) [of i "claimed_by types timeout limit now d" now "db_notifications d"] that [unfolded ids] assms
    by (simp add: q_claim_split)
qed

section \<open>The dispatcher between two claims\<close>

text \<open>What the dispatcher needs of the outbox while it works on claimed events: reads keep a relation
  R, and so do the two marks on the events of the page.\<close>

locale outbox_rely = rely W R for W :: world and R :: "db \<Rightarrow> db \<Rightarrow> bool" +
  fixes page :: "int set"
  assumes sent_law: "k \<in> page \<Longrightarrow> query_stays R (q_mark_sent k sent_at)"
    and failed_law: "k \<in> page \<Longrightarrow> query_stays R (q_mark_failed k msg cap)"
begin

lemma read_law: "query_stays R (query f)"
  by (simp add: query_stays_def query_def R_refl)

lemmas parts = read_law sent_law failed_law with_uuid_stays ret_stays throw_stays gets_stays clock_stays send_mail_stays
  check_stays bind_stays attempt_stays wrapping_stays stmt_stays

lemma outbox_reads:
  "stays R (pg_GetSchedule W i sc)" "stays R (pg_ListScheduleItems W i sc)" "stays R (pg_GetOccurrenceBySequence W i n)"
  by (auto simp: pg_GetSchedule_def pg_ListScheduleItems_def pg_GetOccurrenceBySequence_def one_row_def queryOneOccurrence_def
      queryOccurrences_def split: option.splits list.splits intro!: parts)

lemma outbox_marks:
  assumes "k \<in> page"
  shows "stays R (pg_MarkNotificationSent W k sent_at)" "stays R (pg_MarkNotificationFailed W k msg cap)"
  using assms
  by (auto simp: pg_MarkNotificationSent_def pg_MarkNotificationFailed_def checkAffected_def intro!: parts)

lemma dispatch_stays:
  assumes "dp_repo d = postgres W" and "n_schedule_event_id e \<in> page"
  shows "stays R (dispatchOne W d e)"
  using assms
  by (auto simp: dispatchOne_def armedOccurrence_def deliver_event_def mark_sent_def
      split: sum.splits prod.splits intro!: parts outbox_reads outbox_marks)

lemma page_stays:
  assumes "dp_repo d = postgres W"
  shows "n_schedule_event_id ` set es \<subseteq> page \<Longrightarrow> stays R (dispatch_page W d es acc)"
proof (induction es arbitrary: acc)
  case (Cons e es)
  then show ?case by (cases acc) (auto split: sum.splits intro!: parts dispatch_stays assms)
qed (auto intro!: parts)

end

text \<open>The same without a world, for relations the other sessions respect.\<close>

locale outbox_laws =
  fixes R :: "db \<Rightarrow> db \<Rightarrow> bool" and page :: "int set"
  assumes refl: "R d d"
    and trans: "R d1 d2 \<Longrightarrow> R d2 d3 \<Longrightarrow> R d1 d3"
    and on_sent: "k \<in> page \<Longrightarrow> q_mark_sent k sent_at now d = Inr (n, d') \<Longrightarrow> R d d'"
    and on_failed: "k \<in> page \<Longrightarrow> q_mark_failed k msg cap now d = Inr (n, d') \<Longrightarrow> R d d'"

sublocale outbox_laws \<subseteq> outbox_rely W "under W R" page for W
proof unfold_locales
  show "under W R d d" for d by (simp add: under_def refl)
  show "under W R d1 d3" if "under W R d1 d2" "under W R d2 d3" for d1 d2 d3
    using that trans by (auto simp: under_def)
  show "under W R d (w_others W k d)" for k d by (simp add: under_def others_respect_def)
qed (auto simp: query_stays_def under_def intro: on_sent on_failed)

text \<open>The marks touch no event, no attempt, and only rows of the page.\<close>

definition marks_only :: "int set \<Rightarrow> db \<Rightarrow> db \<Rightarrow> bool" where
  "marks_only page d d' = (db_events d' = db_events d
     \<and> (\<forall>i. map_option (\<lambda>n. (nr_attempts n, nr_last_attempt_at n)) (outbox_row i (db_notifications d'))
          = map_option (\<lambda>n. (nr_attempts n, nr_last_attempt_at n)) (outbox_row i (db_notifications d)))
     \<and> (\<forall>i. i \<notin> page \<longrightarrow> outbox_row i (db_notifications d') = outbox_row i (db_notifications d)))"

lemma outbox_row_update:
  assumes "\<And>n. nr_schedule_event_id (f n) = nr_schedule_event_id n"
  shows "outbox_row i (update_where (\<lambda>n. nr_schedule_event_id n = k) f ns)
    = (if i = k then map_option f (outbox_row i ns) else outbox_row i ns)"
  by (induction ns) (auto simp: outbox_row_def update_where_def assms)

interpretation marks: outbox_laws "marks_only page" page for page
proof unfold_locales
  show "marks_only page d1 d3" if "marks_only page d1 d2" "marks_only page d2 d3" for d1 d2 d3
    using that by (simp add: marks_only_def)
qed (auto simp: marks_only_def q_mark_sent_def q_mark_failed_def outbox_row_update option.map_comp o_def)

lemma alone_respects: "alone W \<Longrightarrow> (\<And>d. R d d) \<Longrightarrow> others_respect W R"
  by (simp add: alone_def others_respect_def)

lemma page_marks_only:
  assumes "alone W" "dp_repo d = postgres W" "dispatch_page W d es acc s = (r, s')"
  shows "marks_only (n_schedule_event_id ` set es) (st_db s) (st_db s')"
  by (rule stays_under [OF marks.page_stays [OF assms(2) subset_refl] alone_respects [OF assms(1) marks.refl] assms(3)])

lemma marks_only_attempted: "marks_only page d d' \<Longrightarrow> attempted t d' i = attempted t d i"
  unfolding marks_only_def attempted_def
  by (cases "outbox_row i (db_notifications d)"; cases "outbox_row i (db_notifications d')") (auto dest!: spec [of _ i])


section \<open>Draining the backlog\<close>

text \<open>The notifiable events not yet attempted since an instant.\<close>

definition waiting :: "event_type list \<Rightarrow> int \<Rightarrow> db \<Rightarrow> event_row set" where
  "waiting types t d = {e \<in> set (db_events d). er_event_type e \<in> set types \<and> \<not> attempted t d (er_id e)}"

lemma finite_waiting [simp]: "finite (waiting types t d)"
  by (simp add: waiting_def)

lemma claimed_waiting:
  assumes "now \<le> t + timeout"
  shows "set (claimed_by types timeout limit now d) \<subseteq> waiting types t d"
proof
  fix e assume "e \<in> set (claimed_by types timeout limit now d)"
  then have e: "e \<in> set (db_events d)" "claimable types timeout now d e" using claimed_by_set by blast+
  then show "e \<in> waiting types t d"
    using claimable_not_attempted [OF e(2) assms] by (simp add: waiting_def claimable_row)
qed

lemma claim_keeps_attempted:
  assumes "q_claim types timeout limit now d = Inr (es, d')" "t \<le> now" "attempted t d i"
  shows "attempted t d' i"
  using claimed_attempted [OF assms(1), of i] assms(2,3) by (cases "i \<in> n_schedule_event_id ` set es") (auto simp: attempted_def)

lemma claim_shrinks_waiting:
  assumes wf: "distinct (map er_id (db_events d))" and claim: "q_claim types timeout limit now d = Inr (es, d')"
    and t: "t \<le> now" "now \<le> t + timeout"
  shows "card (waiting types t d') + length es \<le> card (waiting types t d)"
proof -
  let ?c = "claimed_by types timeout limit now d"
  have "distinct (map er_id ?c)"
  proof -
    have "distinct (map er_id (sort_key er_id (filter (claimable types timeout now d) (db_events d))))"
      using wf by (simp add: distinct_map distinct_filter) (auto intro: inj_on_subset)
    then show ?thesis unfolding claimed_by_def take_map [symmetric] by (rule distinct_take)
  qed
  then have len: "card (set ?c) = length es"
    using claim by (simp add: q_claim_split distinct_map distinct_card)
  have ev: "db_events d' = db_events d" using claim by (simp add: q_claim_split)
  have ids: "n_schedule_event_id ` set es = er_id ` set ?c" using claim by (force simp: q_claim_split scanNotifiable_def)
  have "waiting types t d' \<subseteq> waiting types t d - set ?c"
  proof
    fix e assume e: "e \<in> waiting types t d'"
    then have no: "\<not> attempted t d' (er_id e)" by (simp add: waiting_def)
    have "e \<notin> set ?c"
    proof
      assume "e \<in> set ?c"
      then have "attempted now d' (er_id e)" using claimed_attempted(1) [OF claim] ids by blast
      then show False using no t(1) by (auto simp: attempted_def)
    qed
    then show "e \<in> waiting types t d - set ?c"
      using e no claim_keeps_attempted [OF claim t(1)] by (auto simp: waiting_def ev)
  qed
  then have "card (waiting types t d') \<le> card (waiting types t d) - card (set ?c)"
    using card_mono [of "waiting types t d - set ?c"] card_Diff_subset [OF _ claimed_waiting [OF t(2)]] by auto
  moreover have "card (set ?c) \<le> card (waiting types t d)"
    by (rule card_mono [OF finite_waiting claimed_waiting [OF t(2)]])
  ultimately show ?thesis by (simp add: len)
qed

lemma dispatch_page_delivers: "\<exists>acc' s'. dispatch_page W d es acc s = (Inr acc', s')"
proof (induction es arbitrary: acc s)
  case (Cons e es)
  obtain r s1 where "dispatchOne W d e s = (r, s1)" by fastforce
  then show ?case using Cons.IH by (cases acc; cases r) (auto simp: bind_def attempt_def)
qed (simp add: ret_def)

lemma marks_only_waiting: "marks_only page d d' \<Longrightarrow> waiting types t d' = waiting types t d"
  using marks_only_attempted [of page d d'] by (auto simp: waiting_def) (simp_all add: marks_only_def)

text \<open>A claim outside a transaction, with the database to itself.\<close>

lemma claim_alone:
  assumes "alone W" "st_tx s = None" "pg_ClaimNotifiableEvents W types timeout limit s = (r, s1)"
  shows "st_tx s1 = None \<and> (case r of
      Inl e \<Rightarrow> st_db s1 = st_db s \<and> (st_aborted s \<or> w_fault W (st_ticks s))
    | Inr es \<Rightarrow> q_claim types timeout limit (w_dbnow W (st_ticks s)) (st_db s) = Inr (es, st_db s1))"
  using assms
  by (auto simp: pg_ClaimNotifiableEvents_def wrapping_def stmt_def settle_def alone_def q_claim_def Let_def
      split: prod.splits sum.splits if_splits)


text \<open>Outside a transaction and not in a failed one.\<close>

definition idle :: "session \<Rightarrow> bool" where
  "idle s = (st_tx s = None \<and> \<not> st_aborted s)"

definition idles :: "'a go \<Rightarrow> bool" where
  "idles m = (\<forall>s. idle s \<longrightarrow> idle (snd (m s)))"

lemma idles_simple:
  "idles (ret a)" "idles (throw e)" "idles (gets f)" "idles (clock W)" "idles (send_mail W m)" "idles (stmt W q)" "idles (check v)"
  by (auto simp: idles_def idle_def ret_def throw_def gets_def clock_def send_mail_def stmt_def settle_def
      check_def Let_def split: sum.splits option.splits)

lemma idles_wrapped:
  assumes "idles m"
  shows "idles (attempt m)" and "idles (wrapping p m)"
proof -
  have "snd (attempt m s) = snd (m s)" "snd (wrapping p m s) = snd (m s)" for s
    by (cases "m s"; cases "fst (m s)"; simp add: attempt_def wrapping_def)+
  then show "idles (attempt m)" "idles (wrapping p m)" using assms by (simp_all add: idles_def)
qed

lemmas idles_parts = idles_simple idles_wrapped

lemma idles_bind:
  assumes "idles m" "\<And>a. idles (f a)"
  shows "idles (bind m f)"
  unfolding idles_def
proof (intro allI impI)
  fix s assume s: "idle s"
  obtain r s1 where m: "m s = (r, s1)" by fastforce
  then have "idle s1" using assms(1) s by (metis idles_def snd_conv)
  then show "idle (snd (bind m f s))" using assms(2) m by (cases r) (auto simp: bind_def idles_def)
qed

lemma dispatchOne_idles:
  assumes "dp_repo d = postgres W"
  shows "idles (dispatchOne W d e)"
  using assms
  by (auto simp: dispatchOne_def armedOccurrence_def deliver_event_def mark_sent_def pg_GetSchedule_def one_row_def
      pg_GetOccurrenceBySequence_def queryOneOccurrence_def queryOccurrences_def pg_ListScheduleItems_def
      pg_MarkNotificationSent_def pg_MarkNotificationFailed_def checkAffected_def
      split: sum.splits prod.splits option.splits list.splits intro!: idles_parts idles_bind)

lemma dispatch_page_idles:
  assumes "dp_repo d = postgres W"
  shows "idles (dispatch_page W d es acc)"
proof (induction es arbitrary: acc)
  case (Cons e es)
  then show ?case by (cases acc) (auto split: sum.splits intro!: idles_parts idles_bind dispatchOne_idles assms)
qed (auto intro!: idles_parts)


text \<open>Nothing of the wanted types that was outstanding at an instant still is.\<close>

definition drained :: "int \<Rightarrow> db \<Rightarrow> bool" where
  "drained t d = (\<forall>e \<in> set (db_events d). \<not> claimable notifiableEventTypes visibilityTimeout t d e)"

lemma attempted_not_claimable: "attempted t d (er_id e) \<Longrightarrow> \<not> claimable types visibilityTimeout t d e"
  by (auto simp: claimable_row attempted_def visibilityTimeout_def split: option.splits)

lemma short_page_drains:
  assumes claim: "q_claim notifiableEventTypes visibilityTimeout limit now d = Inr (es, d1)" and short: "length es < limit"
    and t: "t \<le> now" and marks: "marks_only (n_schedule_event_id ` set es) d1 d'"
  shows "drained t d'"
  unfolding drained_def
proof
  let ?c = "claimed_by notifiableEventTypes visibilityTimeout limit now d"
  fix e assume "e \<in> set (db_events d')"
  then have ev: "e \<in> set (db_events d)" using claim marks by (simp add: q_claim_split marks_only_def)
  have ids: "n_schedule_event_id ` set es = er_id ` set ?c" using claim by (force simp: q_claim_split scanNotifiable_def)
  have all: "set ?c = {e \<in> set (db_events d). claimable notifiableEventTypes visibilityTimeout now d e}"
    by (rule claimed_by_all) (use claim short in \<open>simp add: q_claim_split\<close>)
  show "\<not> claimable notifiableEventTypes visibilityTimeout t d' e"
  proof (cases "er_id e \<in> er_id ` set ?c")
    case True
    then have "attempted now d' (er_id e)"
      using claimed_attempted(1) [OF claim] marks_only_attempted [OF marks] ids by simp
    then have "attempted t d' (er_id e)" using t by (auto simp: attempted_def)
    then show ?thesis by (rule attempted_not_claimable)
  next
    case False
    then have row: "outbox_row (er_id e) (db_notifications d') = outbox_row (er_id e) (db_notifications d)"
      using marks claimed_attempted(2) [OF claim] ids by (simp add: marks_only_def)
    have "\<not> claimable notifiableEventTypes visibilityTimeout now d e" using False ev all by blast
    then show ?thesis using t by (auto simp: claimable_row row split: option.splits)
  qed
qed

lemma claim_length: "q_claim types timeout limit now d = Inr (es, d') \<Longrightarrow> length es \<le> limit"
  by (simp add: q_claim_split claimed_by_def)

lemma notify_loop_drains:
  assumes "alone W" "dp_repo d = postgres W" and clock: "\<And>k. t \<le> w_dbnow W k \<and> w_dbnow W k \<le> t + visibilityTimeout"
  shows "st_tx s = None \<Longrightarrow> distinct (map er_id (db_events (st_db s))) \<Longrightarrow>
    card (waiting notifiableEventTypes t (st_db s)) < pages * batchSize \<Longrightarrow>
    \<exists>acc' s'. notify_loop pages W d acc s = (Inr (Some acc'), s')
      \<and> ((\<forall>k. \<not> w_fault W k) \<and> \<not> st_aborted s \<longrightarrow> drained t (st_db s'))"
proof (induction pages arbitrary: acc s)
  case (Suc pages)
  obtain res errs where acc: "acc = (res, errs)" by fastforce
  obtain r s1 where claim: "pg_ClaimNotifiableEvents W notifiableEventTypes visibilityTimeout batchSize s = (r, s1)" by fastforce
  note effect = claim_alone [OF assms(1) Suc.prems(1) claim]
  show ?case
  proof (cases r)
    case (Inl e)
    then show ?thesis using claim effect by (auto simp: acc assms(2) bind_def attempt_def wrapping_def ret_def)
  next
    case (Inr es)
    let ?now = "w_dbnow W (st_ticks s)"
    have q: "q_claim notifiableEventTypes visibilityTimeout batchSize ?now (st_db s) = Inr (es, st_db s1)" and tx: "st_tx s1 = None"
      using effect Inr by simp_all
    obtain acc1 s2 where page: "dispatch_page W d es (res\<lparr>nt_Claimed := nt_Claimed res + int (length es)\<rparr>, errs) s1 = (Inr acc1, s2)"
      using dispatch_page_delivers by blast
    have marks: "marks_only (n_schedule_event_id ` set es) (st_db s1) (st_db s2)"
      by (rule page_marks_only [OF assms(1,2) page])
    have loop: "notify_loop (Suc pages) W d acc s
        = (if length es < batchSize then (Inr (Some acc1), s2) else notify_loop pages W d acc1 s2)"
      using claim Inr page by (simp add: acc assms(2) bind_def attempt_def wrapping_def ret_def)
    show ?thesis
    proof (cases "length es < batchSize")
      case True
      then show ?thesis using loop short_page_drains [OF q True _ marks] clock by simp
    next
      case False
      then have full: "length es = batchSize" using claim_length [OF q] by simp
      have "card (waiting notifiableEventTypes t (st_db s1)) + batchSize \<le> card (waiting notifiableEventTypes t (st_db s))"
        using claim_shrinks_waiting [OF Suc.prems(2) q] clock full by simp
      then have less: "card (waiting notifiableEventTypes t (st_db s2)) < pages * batchSize"
        using Suc.prems(3) marks_only_waiting [OF marks] by simp
      have ev: "distinct (map er_id (db_events (st_db s2)))"
        using marks q Suc.prems(2) by (simp add: marks_only_def q_claim_split)
      have tx2: "st_tx s2 = None"
        using topD [OF dispatch_page_top [OF assms(2)] tx page] by simp
      have ok: "\<not> st_aborted s2" if "\<not> st_aborted s"
      proof -
        have "idles (pg_ClaimNotifiableEvents W notifiableEventTypes visibilityTimeout batchSize)"
          by (simp add: pg_ClaimNotifiableEvents_def idles_parts)
        then have "idle s1" using that Suc.prems(1) claim by (metis idle_def idles_def snd_conv)
        then have "idle s2" using dispatch_page_idles [OF assms(2)] page by (metis idles_def snd_conv)
        then show ?thesis by (simp add: idle_def)
      qed
      from Suc.IH [OF tx2 ev less, of acc1] show ?thesis using loop False ok by auto
    qed
  qed
qed simp


lemma distinct_event_ids: "db_wf d \<Longrightarrow> distinct (map er_id (db_events d))"
  by (simp add: db_wf_def strict_sorted_iff)

lemma waiting_card: "card (waiting types t d) \<le> length (filter (\<lambda>e. er_event_type e \<in> set types) (db_events d))"
proof -
  have "waiting types t d \<subseteq> set (filter (\<lambda>e. er_event_type e \<in> set types) (db_events d))"
    by (auto simp: waiting_def)
  then have "card (waiting types t d) \<le> card (set (filter (\<lambda>e. er_event_type e \<in> set types) (db_events d)))"
    by (rule card_mono [OF finite_set])
  then show ?thesis using card_length order_trans by blast
qed


text \<open>A quarter of an hour in the example: every statement reads the same clock.\<close>

definition still_world :: world where
  "still_world = demo_world\<lparr>w_dbnow := (\<lambda>k. 1000)\<rparr>"

definition demo_dispatcher :: dispatcher where
  "demo_dispatcher = \<lparr>dp_repo = postgres still_world, dp_supportContact = ''help@shop.example''\<rparr>"

lemma still_alone: "alone still_world"
  by (simp add: alone_def still_world_def demo_world_def)


section \<open>Claims exclude each other\<close>

text \<open>What can happen to the outbox from an instant on: claims of any dispatcher, marks of any event,
  and statements that do not touch it.\<close>

inductive outbox_later :: "int \<Rightarrow> db \<Rightarrow> db \<Rightarrow> bool" for t :: int where
  later_refl: "outbox_later t d d"
| later_claim: "outbox_later t d1 d2 \<Longrightarrow> t \<le> now \<Longrightarrow> q_claim types timeout limit now d2 = Inr (es, d3) \<Longrightarrow> outbox_later t d1 d3"
| later_sent: "outbox_later t d1 d2 \<Longrightarrow> q_mark_sent k sent_at now d2 = Inr (n, d3) \<Longrightarrow> outbox_later t d1 d3"
| later_failed: "outbox_later t d1 d2 \<Longrightarrow> q_mark_failed k msg cap now d2 = Inr (n, d3) \<Longrightarrow> outbox_later t d1 d3"
| later_other: "outbox_later t d1 d2 \<Longrightarrow> db_notifications d3 = db_notifications d2 \<Longrightarrow> outbox_later t d1 d3"

lemma marks_keep_attempted:
  "q_mark_sent k sent_at now d = Inr (n, d') \<Longrightarrow> attempted t d' i = attempted t d i"
  "q_mark_failed k msg cap now d = Inr (n, d') \<Longrightarrow> attempted t d' i = attempted t d i"
  using marks_only_attempted [of UNIV d d'] marks.on_sent [of k UNIV] marks.on_failed [of k UNIV] by blast+

lemma later_attempted:
  assumes "outbox_later t d d'" "attempted t d i"
  shows "attempted t d' i"
  using assms
proof induction
  case (later_claim d1 d2 now types timeout limit es d3)
  then show ?case using claim_keeps_attempted by blast
next
  case (later_sent d1 d2 k sent_at now n d3)
  then show ?case by (simp add: marks_keep_attempted(1))
next
  case (later_failed d1 d2 k msg cap now n d3)
  then show ?case by (simp add: marks_keep_attempted(2))
qed (simp_all add: attempted_def)



text \<open>In the example the first page takes all four events, and a page five minutes later none.\<close>

lemma demo_claims:
  "\<exists>es d1 es2 d3. q_claim notifiableEventTypes visibilityTimeout 200 1000 demo_db = Inr (es, d1) \<and> length es = 4
     \<and> q_claim notifiableEventTypes visibilityTimeout 200 1300 d1 = Inr (es2, d3)"
proof -
  have "length (claimed_by notifiableEventTypes visibilityTimeout 200 1000 demo_db) = 4"
    by code_simp
  then show ?thesis by (auto simp: q_claim_split)
qed


end
