(* ===== verification/Access.thy ===== *)
theory Access
  imports Commands Actions
begin

text \<open>
  Who may do what over HTTP: a server only starts with credentials to verify against, only a
  verified caller reaches a handler, every request is answered with one of the documented codes,
  and bodies and bearer headers are read strictly.
\<close>

section \<open>Starting\<close>

text \<open>C31. The service binary hands out a server only under a configuration with both secrets of at
  least 32 bytes: its tokens are verified with that secret under HS256 with issuer, audience and
  an expiry required, and its service key is the hash of the configured one.\<close>

theorem a_server_starts_only_with_credentials:
  assumes "start_server P W env = Inr sv"
  shows "32 \<le> length (env ''PORTAL_JWT_SECRET'') \<and> 32 \<le> length (env ''SERVICE_API_KEY'')
    \<and> tv_secret (sv_tokens sv) = env ''PORTAL_JWT_SECRET''
    \<and> sk_digest (sv_key sv) = sv_sha256 sv (env ''SERVICE_API_KEY'')
    \<and> jo_valid_methods (tv_options (sv_tokens sv)) = [''HS256'']
    \<and> jo_expiration_required (tv_options (sv_tokens sv))
    \<and> jo_issuer (tv_options (sv_tokens sv)) \<noteq> '''' \<and> jo_audience (tv_options (sv_tokens sv)) \<noteq> ''''"
proof -
  obtain cfg where cfg: "Load env = Inr cfg" "RequireAuth cfg = None" and sv: "sv = wired_server P W cfg"
    using assms by (auto simp: start_server_def split: sum.splits option.splits)
  have "PortalJWTSecret cfg = env ''PORTAL_JWT_SECRET''" "ServiceAPIKey cfg = env ''SERVICE_API_KEY''"
    using cfg(1) by (auto simp: Load_def split: if_splits sum.splits)
  then show ?thesis
    using loaded_config(6,7) [OF cfg(1)] cfg(2)
    by (simp add: sv wired_server_def NewTokenVerifier_def NewServiceKeyVerifier_def signingMethod_def
        RequireAuth_None minSecretLength_def)
qed

definition service_env :: env where
  "service_env key = (if key = ''DATABASE_URL'' then ''postgres:///cadence''
     else if key = ''PORTAL_JWT_SECRET'' then replicate 32 CHR ''s''
     else if key = ''SERVICE_API_KEY'' then replicate 40 CHR ''k'' else '''')"

definition service_platform :: platform where
  "service_platform = \<lparr>pf_open = (\<lambda>_. None), pf_ping = None, pf_rfc3339 = (\<lambda>_. None), pf_sha256 = id,
     pf_jwt = (\<lambda>opts secret now token. Inr (True, token)), pf_console = (\<lambda>_. plain 404 ''''), pf_alive = True,
     pf_goose = \<lparr>gs_dialect = None, gs_up = None, gs_collect = Inr [1, 2, 3], gs_version = Inr 3\<rparr>\<rparr>"

lemma service_starts: "\<exists>sv. start_server service_platform demo_world service_env = Inr sv"
  by (simp add: start_server_def Load_def load_port_def load_horizon_def service_env_def service_platform_def
      RequireAuth_def requireSecret_def minSecretLength_def)

lemma a_server_starts_only_with_credentials_witness:
  "\<exists>sv. start_server service_platform demo_world service_env = Inr sv \<and> length (tv_secret (sv_tokens sv)) = 32"
proof -
  obtain sv where sv: "start_server service_platform demo_world service_env = Inr sv" using service_starts by blast
  with a_server_starts_only_with_credentials [OF sv] show ?thesis by (simp add: service_env_def)
qed

section \<open>Authentication\<close>

definition protected :: "endpoint \<Rightarrow> bool" where
  "protected e = (e \<notin> {EHealth, EConsoleRedirect, EConsole})"

text \<open>The principal the middleware of an endpoint finds behind a request.\<close>

definition identified :: "world \<Rightarrow> server \<Rightarrow> endpoint \<Rightarrow> request \<Rightarrow> session \<Rightarrow> principal option" where
  "identified W sv e r s =
    (case ParseBearer (rq_authorization r) of
       Inl _ \<Rightarrow> None
     | Inr c \<Rightarrow>
        (case (if e = ECreate then VerifyKey (sv_sha256 sv) (sv_key sv) c
               else VerifyToken (sv_jwt sv) (sv_tokens sv) (w_now W (st_ticks s)) c) of
           Inl _ \<Rightarrow> None | Inr p \<Rightarrow> Some p))"

definition handler_of :: "world \<Rightarrow> server \<Rightarrow> endpoint \<Rightarrow> request \<Rightarrow> principal option \<Rightarrow> response go" where
  "handler_of W sv e r p =
    (case e of
       ECreate \<Rightarrow> Create W (sv_repo sv) r
     | EGet i \<Rightarrow> Get (sv_repo sv) i p
     | EUpcoming i \<Rightarrow> Upcoming (sv_repo sv) i p
     | EListByCustomer c \<Rightarrow> ListByCustomer (sv_repo sv) c p
     | ETransition k i \<Rightarrow> handle_transition W sv k i r p
     | _ \<Rightarrow> ret unauthorized)"

lemma protected_serve:
  assumes "route (rq_method r) (rq_path r) = Routed e" and "protected e"
  shows "serve W sv r s = (case identified W sv e r s of
      None \<Rightarrow> (Inr unauthorized, s) | Some p \<Rightarrow> handler_of W sv e r (Some p) s)"
  using assms
  by (cases e)
    (simp_all add: serve_def protected_def identified_def handler_of_def RequireCustomer_run RequireService_run
      split: sum.splits)

text \<open>C32. Behind the public endpoints a request is either refused with 401, without touching
  anything, or handled for the principal its credential was verified as: the trusted service for
  creations, the named customer for everything else.\<close>

theorem only_verified_callers_reach_a_handler:
  assumes "route (rq_method r) (rq_path r) = Routed e" and "protected e"
  shows "(identified W sv e r s = None \<longrightarrow> serve W sv r s = (Inr unauthorized, s) \<and> rs_code unauthorized = 401)
    \<and> (\<forall>p. identified W sv e r s = Some p \<longrightarrow> serve W sv r s = handler_of W sv e r (Some p) s
        \<and> (\<exists>c. ParseBearer (rq_authorization r) = Inr c
            \<and> (if e = ECreate then sv_sha256 sv c = sk_digest (sv_key sv) \<and> p_kind p = KindService
               else sv_jwt sv (tv_options (sv_tokens sv)) (tv_secret (sv_tokens sv)) (w_now W (st_ticks s)) c
                      = Inr (True, p_customer p) \<and> p_kind p = KindCustomer \<and> p_customer p \<noteq> '''')))"
proof -
  have "rs_code unauthorized = 401" by (simp add: unauthorized_def writeError_def writeJSON_def Let_def)
  moreover have "\<exists>c. ParseBearer (rq_authorization r) = Inr c
            \<and> (if e = ECreate then sv_sha256 sv c = sk_digest (sv_key sv) \<and> p_kind p = KindService
               else sv_jwt sv (tv_options (sv_tokens sv)) (tv_secret (sv_tokens sv)) (w_now W (st_ticks s)) c
                      = Inr (True, p_customer p) \<and> p_kind p = KindCustomer \<and> p_customer p \<noteq> '''')"
    if "identified W sv e r s = Some p" for p
    using that
    by (auto simp: identified_def VerifyKey_Inr VerifyToken_Inr split: sum.splits if_splits)
  ultimately show ?thesis using protected_serve [OF assms, of W sv s] by simp
qed

definition get_request :: "string \<Rightarrow> request" where
  "get_request header = \<lparr>rq_method = ''GET'', rq_path = [''schedules'', ''s1''], rq_authorization = header,
     rq_content_length = 0, rq_first = Inl (ErrText ''EOF''), rq_rest = AtEOF\<rparr>"

lemma get_routed: "route (rq_method (get_request h)) (rq_path (get_request h)) = Routed (EGet ''s1'')"
  by (simp add: route_def pattern_of_def get_request_def)

lemma only_verified_callers_reach_a_handler_witness:
  "\<forall>sv. serve demo_world sv (get_request ''Basic x'') demo_session = (Inr unauthorized, demo_session)"
proof
  fix sv
  have "protected (EGet ''s1'')" by (simp add: protected_def)
  moreover have "identified demo_world sv (EGet ''s1'') (get_request ''Basic x'') demo_session = None"
    by (simp add: identified_def ParseBearer_def get_request_def Let_def equal_fold_def lower_char_def)
  ultimately show "serve demo_world sv (get_request ''Basic x'') demo_session = (Inr unauthorized, demo_session)"
    using only_verified_callers_reach_a_handler [OF get_routed] by blast
qed

section \<open>Answers\<close>

text \<open>A program that ends in a response with one of the codes of a set.\<close>

definition answers_in :: "nat set \<Rightarrow> response go \<Rightarrow> bool" where
  "answers_in codes m = (\<forall>s. \<exists>resp s'. m s = (Inr resp, s') \<and> rs_code resp \<in> codes)"

lemma answers_in_ret: "rs_code resp \<in> codes \<Longrightarrow> answers_in codes (ret resp)"
  "code \<in> codes \<Longrightarrow> answers_in codes (reject code msg)"
  by (simp_all add: answers_in_def ret_def reject_def writeError_def writeJSON_def)

lemma answers_in_bind: "answers m \<Longrightarrow> (\<And>a. answers_in codes (f a)) \<Longrightarrow> answers_in codes (bind m f)"
  unfolding answers_in_def answers_def bind_def
  by (auto split: prod.splits sum.splits) (metis fst_conv isl_def)+

lemma answers_in_cases:
  "answers_in codes m \<Longrightarrow> answers_in codes m' \<Longrightarrow> answers_in codes (if b then m else m')"
  "answers_in codes m \<Longrightarrow> (\<And>a. answers_in codes (f a)) \<Longrightarrow> answers_in codes (case v of None \<Rightarrow> m | Some a \<Rightarrow> f a)"
  "(\<And>e. answers_in codes (g e)) \<Longrightarrow> (\<And>a. answers_in codes (f a)) \<Longrightarrow>
     answers_in codes (case w of Inl e \<Rightarrow> g e | Inr a \<Rightarrow> f a)"
  "(\<And>x y. answers_in codes (h x y)) \<Longrightarrow> answers_in codes (case p of (x, y) \<Rightarrow> h x y)"
  by (auto split: option.splits sum.splits prod.splits)

lemmas answers_rules = answers_in_bind answers_in_cases answers_in_ret answers_attempt answers_draws answers_create_items

definition handled :: "nat set" where "handled = {200, 201, 400, 404, 409, 500}"

lemma handled_codes [simp]: "200 \<in> handled" "201 \<in> handled" "400 \<in> handled" "404 \<in> handled" "409 \<in> handled" "500 \<in> handled"
  by (simp_all add: handled_def)

lemma writeJSON_code [simp]: "rs_code (writeJSON code body) = code" "rs_code (writeError code msg) = code"
  by (simp_all add: writeJSON_def writeError_def)

lemma handlers_answer_in:
  "answers_in handled (Create W repo r)" "answers_in handled (Get repo i p)" "answers_in handled (Upcoming repo i p)"
  unfolding Create_def store_created_def bad_body_def Get_def Upcoming_def with_schedule_def
  by (intro answers_rules; simp)+

lemma list_answers_in: "answers_in handled (list_responses repo sc ss out)"
proof (induction ss arbitrary: out)
  case (Cons s ss)
  show ?case unfolding list_responses.simps by (intro answers_rules Cons.IH; simp)
qed (simp add: answers_in_ret)

lemma act_answers_in: "answers_in handled (act_as repo p action)"
  unfolding act_as_def respond_def by (intro answers_rules; simp)

lemma transitions_answer_in: "answers_in handled (handle_transition W sv k i r p)"
  unfolding handle_transition_def HandlePause_def HandleResume_def HandleSkip_def HandleDefer_def HandleCadence_def
    HandleCancel_def bad_body_def
  by (cases k; simp; intro answers_rules act_answers_in; simp)

lemma handler_answers_in: "protected e \<Longrightarrow> answers_in handled (handler_of W sv e r p)"
  unfolding handler_of_def
  by (cases e) (auto simp: protected_def handlers_answer_in transitions_answer_in ListByCustomer_def
      intro!: answers_rules list_answers_in)



section \<open>Headers and bodies\<close>

lemma TrimSpace_id:
  assumes "\<forall>w \<in> set white_space. \<not> prefix w s \<and> \<not> suffix w s"
  shows "TrimSpace s = s"
proof -
  have "take (length w) s \<noteq> w" if "w \<in> set white_space" for w
    using assms that by (metis take_is_prefix)
  then have front: "trim_front white_space s = s" by (intro trim_front_id)
  have "take (length w) (rev s) \<noteq> w" if w: "w \<in> set (map rev white_space)" for w
  proof
    assume t: "take (length w) (rev s) = w"
    obtain v where v: "v \<in> set white_space" "w = rev v" using w by auto
    have "prefix (rev v) (rev s)" using t v(2) by (metis take_is_prefix)
    then show False using assms v(1) by (simp add: suffix_to_prefix)
  qed
  then have "trim_front (map rev white_space) (rev s) = rev s" by (intro trim_front_id)
  with front show ?thesis by (simp add: TrimSpace_def)
qed

text \<open>C34. A bearer header gives its credential back: written under any spelling of the scheme, a
  nonempty credential that neither begins nor ends with white space is what the parser returns;
  and whatever it returns is not empty.\<close>

theorem bearer_headers_round_trip:
  assumes "map lower_char scheme = ''bearer''" and "credential \<noteq> ''''"
    and "\<forall>w \<in> set white_space. \<not> prefix w credential \<and> \<not> suffix w credential"
  shows "ParseBearer (scheme @ '' '' @ credential) = Inr credential
    \<and> (\<forall>header c. ParseBearer header = Inr c \<longrightarrow> c \<noteq> '''')"
proof -
  have len: "length scheme = 6" using arg_cong [OF assms(1), of length] by simp
  have "equal_fold (scheme @ '' '') ''bearer ''"
    using assms(1) by (simp add: equal_fold_def lower_char_def)
  then have "ParseBearer (scheme @ '' '' @ credential) = Inr credential"
    using len assms(2) by (simp add: ParseBearer_def Let_def TrimSpace_id [OF assms(3)])
  moreover have "\<forall>header c. ParseBearer header = Inr c \<longrightarrow> c \<noteq> ''''"
    by (simp add: ParseBearer_def Let_def)
  ultimately show ?thesis by blast
qed

lemma bearer_headers_round_trip_witness: "ParseBearer ''BEARER abc'' = Inr ''abc''"
proof -
  have scheme: "map lower_char ''BEARER'' = ''bearer''" by code_simp
  have ws: "\<forall>w \<in> set white_space. \<not> prefix w ''abc'' \<and> \<not> suffix w ''abc''"
    by (simp add: white_space_def suffix_to_prefix)
  have "''abc'' \<noteq> ''''" by simp
  from bearer_headers_round_trip [OF scheme this ws, THEN conjunct1] show ?thesis by simp
qed

text \<open>C35. Bodies are read strictly: whatever decodes is one JSON value, nothing follows it, and it is
  null or an object all of whose members the request type names, exactly or up to case.\<close>

theorem bodies_are_read_strictly:
  assumes "decodeJSON fs zero r = Inr req"
  shows "rq_rest r = AtEOF \<and> (rq_first r = Inr JNull \<and> req = zero
    \<or> (\<exists>kvs. rq_first r = Inr (JObj kvs) \<and> (\<forall>(k, v) \<in> set kvs. \<exists>(n, f) \<in> set fs. k = n \<or> fold_name k = fold_name n)))"
proof -
  obtain v where v: "rq_first r = Inr v" "decode_struct True fs zero v = Inr req" and rest: "rq_rest r = AtEOF"
    using assms by (auto simp: decodeJSON_def split: sum.splits rest.splits)
  show ?thesis
  proof (cases v)
    case (JObj kvs)
    have "field_of fs k \<noteq> None" if "(k, x) \<in> set kvs" for k x
      using decode_members_unknown [OF that, of fs zero None] v(2)
      by (auto simp: decode_struct_def decode_into_def JObj split: prod.splits option.splits)
    then have "\<exists>(n, f) \<in> set fs. k = n \<or> fold_name k = fold_name n" if "(k, x) \<in> set kvs" for k x
      using that by (fastforce simp: field_of_def split: option.splits dest!: map_of_SomeD)
    then show ?thesis using v rest JObj by blast
  qed (use v rest in \<open>auto simp: decode_struct_def decode_into_def type_error_def\<close>)
qed

lemma bodies_are_read_strictly_witness:
  "decodeJSON create_fields create_zero \<lparr>rq_method = ''POST'', rq_path = [''schedules''], rq_authorization = '''',
     rq_content_length = 20, rq_first = Inr (JObj [(''Customer_ID'', JStr ''ann'')]), rq_rest = AtEOF\<rparr>
   = Inr (create_zero\<lparr>cr_customer_id := ''ann''\<rparr>) \<and> (\<exists>(n, f) \<in> set create_fields. fold_name ''Customer_ID'' = fold_name n)"
proof -
  let ?r = "\<lparr>rq_method = ''POST'', rq_path = [''schedules''], rq_authorization = '''', rq_content_length = 20,
     rq_first = Inr (JObj [(''Customer_ID'', JStr ''ann'')]), rq_rest = AtEOF\<rparr>"
  have "fold_name ''Customer_ID'' = ''customer_id''" "fold_name ''customer_id'' = ''customer_id''" by code_simp+
  then have run: "decodeJSON create_fields create_zero ?r = Inr (create_zero\<lparr>cr_customer_id := ''ann''\<rparr>)"
    by (simp add: decodeJSON_def decode_struct_def decode_into_def field_of_def create_fields_def string_field_def
        first_error_def del: fold_name.simps)
  have "''Customer_ID'' \<noteq> n" if "(n, f) \<in> set create_fields" for n f
    using that by (auto simp: create_fields_def)
  then show ?thesis using run bodies_are_read_strictly [OF run] by fastforce
qed

end
