(* ===== verification/Tenancy.thy ===== *)
theory Tenancy
  imports Access Jobs
begin

text \<open>
  What a customer sees and does through the API: a schedule of somebody else does not exist for
  them, a listing is exactly their own schedules, and one order creates one schedule.
\<close>

section \<open>Reading with the database to oneself\<close>

lemma alone_rely: "alone W \<Longrightarrow> rely W (=)"
  by unfold_locales (simp_all add: alone_def)

lemma read_only:
  assumes "top (=) m" "st_tx s = None" "m s = (r, s')"
  shows "st_db s' = st_db s \<and> st_tx s' = None"
  using topD [OF assms] by simp

text \<open>A system in which nothing fails.\<close>

definition healthy :: "world \<Rightarrow> session \<Rightarrow> bool" where
  "healthy W s = ((\<forall>k. \<not> w_fault W k) \<and> \<not> st_aborted s)"

section \<open>A schedule that is not there\<close>

text \<open>A failure that says nothing but that: not a transition error, and with nothing else wrong it is
  \<open>ErrNotFound\<close>.\<close>

definition says_absent :: "world \<Rightarrow> string \<Rightarrow> session \<Rightarrow> go_error \<Rightarrow> bool" where
  "says_absent W i s e = (as_transition_error e = None \<and> (healthy W s \<and> w_uuid_in W i \<noteq> None \<longrightarrow> e = ErrNotFound))"

definition absent :: "world \<Rightarrow> string \<Rightarrow> scope \<Rightarrow> db \<Rightarrow> bool" where
  "absent W i sc d = (\<forall>u. w_uuid_in W i = Some u \<longrightarrow> schedule_at u sc d = None)"

lemma get_absent:
  assumes "alone W" "st_tx s = None" "absent W i sc (st_db s)"
  shows "\<exists>e s'. pg_GetSchedule W i sc s = (Inl e, s') \<and> says_absent W i s e \<and> st_db s' = st_db s"
  using assms
  by (cases "w_uuid_in W i")
    (auto simp: pg_GetSchedule_def one_row_def bind_def wrapping_def stmt_def settle_def alone_def with_uuid_def query_def
      says_absent_def absent_def healthy_def schedule_at_def throw_def Let_def pg_failed_tx_def pg_bad_uuid_def)

lemma transition_absent:
  assumes "alone W" "st_tx s = None" "svc_repo svc = postgres W" "absent W i (c_scope c) (st_db s)"
  shows "\<exists>e s'. transition W svc i a c f s = (Inl e, s') \<and> says_absent W i s e \<and> st_db s' = st_db s"
  using assms
  by (cases "w_uuid_in W i")
    (auto simp: transition_def Let_def in_tx_def in_tx_out_def pg_GetScheduleForUpdate_def one_row_def bind_def gets_def
      wrapping_def stmt_def settle_def alone_def with_uuid_def query_def says_absent_def absent_def healthy_def
      schedule_at_def throw_def pg_failed_tx_def pg_bad_uuid_def)

definition not_found :: response where
  "not_found = writeError 404 ''schedule not found''"

definition tells_nothing :: "world \<Rightarrow> string \<Rightarrow> session \<Rightarrow> response \<Rightarrow> bool" where
  "tells_nothing W i s resp = ((resp = not_found \<or> rs_code resp = 500) \<and> (healthy W s \<and> w_uuid_in W i \<noteq> None \<longrightarrow> resp = not_found))"

lemma with_schedule_absent:
  assumes "alone W" "st_tx s = None" "absent W i (fst (scopeFor p)) (st_db s)" "snd (scopeFor p)"
    and run: "with_schedule (postgres W) i p k s = (Inr resp, s')"
  shows "tells_nothing W i s resp \<and> st_db s' = st_db s"
proof -
  obtain e s1 where "pg_GetSchedule W i (fst (scopeFor p)) s = (Inl e, s1)" "says_absent W i s e" "st_db s1 = st_db s"
    using get_absent [OF assms(1-3)] by blast
  then show ?thesis
    using run assms(4)
    by (auto simp: with_schedule_def bind_def attempt_def reject_def ret_def tells_nothing_def not_found_def says_absent_def
        split: prod.splits if_splits)
qed

lemma act_absent:
  assumes "alone W" "st_tx s = None" "svc_repo svc = postgres W" "absent W i (c_scope c) (st_db s)"
    and "caller_of p = Some c" and "action c = transition W svc i a c f"
    and run: "act_as (postgres W) p action s = (Inr resp, s')"
  shows "tells_nothing W i s resp \<and> st_db s' = st_db s"
proof -
  obtain e s1 where "transition W svc i a c f s = (Inl e, s1)" "says_absent W i s e" "st_db s1 = st_db s"
    using transition_absent [OF assms(1-4)] by blast
  then show ?thesis
    using run assms(5,6)
    by (auto simp: act_as_def respond_def bind_def attempt_def reject_def ret_def tells_nothing_def not_found_def says_absent_def
        split: prod.splits if_splits)
qed

lemma check_None [simp]: "bind (check None) f = f ()"
  by (rule ext) (simp add: check_def bind_def ret_def)

lemma transition_handlers_absent:
  assumes "alone W" "st_tx s = None" "svc_repo (sv_service sv) = postgres W" "sv_repo sv = postgres W"
    and "absent W i (c_scope c) (st_db s)" "caller_of p = Some c"
    and run: "handle_transition W sv k i r p s = (Inr resp, s')"
  shows "(rs_code resp = 400 \<or> tells_nothing W i s resp) \<and> st_db s' = st_db s"
proof -
  note act = act_absent [OF assms(1-3,5,6)]
  have bad: "bad_body e s = (Inr resp, s') \<Longrightarrow> rs_code resp = 400 \<and> st_db s' = st_db s"
    "reject 400 msg s = (Inr resp, s') \<Longrightarrow> rs_code resp = 400 \<and> st_db s' = st_db s" for e msg
    by (auto simp: bad_body_def reject_def ret_def)
  show ?thesis
  proof (cases k)
    case TPause
    with run assms(4) show ?thesis
      by (auto simp: handle_transition_def HandlePause_def split: sum.splits option.splits if_splits dest: bad
          dest!: act [rotated, where a = ActionPause] simp: Pause_def)
  next
    case TResume
    with run assms(4) show ?thesis
      by (auto simp: handle_transition_def HandleResume_def dest!: act [rotated, where a = ActionResume] simp: Resume_def)
  next
    case TSkip
    with run assms(4) show ?thesis
      by (auto simp: handle_transition_def HandleSkip_def split: sum.splits option.splits dest: bad
          dest!: act [rotated, where a = ActionSkipNext] simp: SkipNext_def)
  next
    case TDefer
    with run assms(4) show ?thesis
      by (auto simp: handle_transition_def HandleDefer_def split: sum.splits option.splits dest: bad
          dest!: act [rotated, where a = ActionDefer] simp: Defer_def)
  next
    case TCadence
    with run assms(4) show ?thesis
      by (auto simp: handle_transition_def HandleCadence_def split: sum.splits option.splits dest: bad
          dest!: act [rotated, where a = ActionChangeCadence] simp: ChangeCadence_def)
  next
    case TCancel
    with run assms(4) show ?thesis
      by (auto simp: handle_transition_def HandleCancel_def split: sum.splits option.splits dest: bad
          dest!: act [rotated, where a = ActionCancel] simp: Cancel_def)
  qed
qed


text \<open>C36. To a verified customer a schedule of somebody else does not exist: reading it, its orders, or
  acting on it leaves the database as it is and is answered with the same 404 as an id that was
  never given out, with 400 if the body was wrong, or with 500; and with nothing failing and a
  well-formed id not even with that.\<close>

theorem foreign_schedules_do_not_exist:
  assumes "alone W" and "sv_repo sv = postgres W" and "svc_repo (sv_service sv) = postgres W" and "st_tx s = None"
    and routed: "route (rq_method r) (rq_path r) = Routed e"
    and e: "e = EGet i \<or> e = EUpcoming i \<or> (\<exists>k. e = ETransition k i)"
    and caller: "identified W sv e r s = Some p"
    and foreign: "\<forall>row \<in> set (db_schedules (st_db s)). w_uuid_in W i = Some (sr_id row) \<longrightarrow> sr_customer_id row \<noteq> p_customer p"
    and run: "serve W sv r s = (Inr resp, s')"
  shows "st_db s' = st_db s
    \<and> (resp = not_found \<or> rs_code resp = 500 \<or> rs_code resp = 400 \<and> (\<exists>k. e = ETransition k i))
    \<and> ((\<forall>k. \<not> w_fault W k) \<and> \<not> st_aborted s \<and> w_uuid_in W i \<noteq> None \<longrightarrow> rs_code resp \<noteq> 500)"
proof -
  have prot: "protected e" using e by (auto simp: protected_def)
  have customer: "p_kind p = KindCustomer" "p_customer p \<noteq> ''''"
    using caller e by (auto simp: identified_def VerifyToken_Inr split: sum.splits)
  have scope: "scopeFor (Some p) = (CustomerScope (p_customer p), True)"
    using customer by (simp add: scopeFor_def)
  obtain c where c: "caller_of (Some p) = Some c" "c_scope c = CustomerScope (p_customer p)"
    by (simp add: caller_of_def scope)
  have absent: "absent W i (CustomerScope (p_customer p)) (st_db s)"
    using foreign by (auto simp: absent_def schedule_at_def CustomerScope_def filterOwn_def find_None_iff customer)
  have handled: "handler_of W sv e r (Some p) s = (Inr resp, s')"
    using run protected_serve [OF routed prot, of W sv s] caller by simp
  have "((rs_code resp = 400 \<and> (\<exists>k. e = ETransition k i)) \<or> tells_nothing W i s resp) \<and> st_db s' = st_db s"
    using e
  proof (elim disjE exE)
    fix k assume k: "e = ETransition k i"
    then have "handle_transition W sv k i r (Some p) s = (Inr resp, s')" using handled by (simp add: handler_of_def)
    from transition_handlers_absent [OF assms(1,4,3,2) _ c(1) this] show ?thesis using absent c(2) k by auto
  next
    assume "e = EGet i"
    then have "with_schedule (postgres W) i (Some p) (\<lambda>s sc.
       bind (attempt (pg_ListScheduleItems W i sc)) (\<lambda>r. case r of
         Inl _ \<Rightarrow> reject 500 ''could not read schedule items''
       | Inr items \<Rightarrow> ret (writeJSON 200 (toResponse s items)))) s = (Inr resp, s')"
      using handled assms(2) by (simp add: handler_of_def Get_def)
    from with_schedule_absent [OF assms(1,4) _ _ this] show ?thesis using absent scope by simp
  next
    assume "e = EUpcoming i"
    then have "with_schedule (postgres W) i (Some p) (\<lambda>s sc.
       bind (attempt (pg_ListOccurrences W i sc)) (\<lambda>r. case r of
         Inl _ \<Rightarrow> reject 500 ''could not read upcoming orders''
       | Inr occurrences \<Rightarrow> ret (writeJSON 200 (JObj [(''occurrences'', JArr (map occurrence_json occurrences))])))) s = (Inr resp, s')"
      using handled assms(2) by (simp add: handler_of_def Upcoming_def)
    from with_schedule_absent [OF assms(1,4) _ _ this] show ?thesis using absent scope by simp
  qed
  then show ?thesis by (auto simp: tells_nothing_def healthy_def not_found_def)
qed


definition demo_server :: server where
  "demo_server = \<lparr>sv_repo = postgres demo_world, sv_service = demo_service,
     sv_tokens = NewTokenVerifier \<lparr>tc_secret = '''', tc_issuer = ''portal'', tc_audience = ''cadenceos''\<rparr>,
     sv_key = NewServiceKeyVerifier id ''key'',
     sv_health = \<lparr>hc_ping = True, hc_migrations = None, hc_build = ''''\<rparr>,
     sv_sha256 = id, sv_jwt = (\<lambda>opts secret now token. Inr (True, token)), sv_console = (\<lambda>_. plain 404 '''')\<rparr>"

lemma demo_server_sel [simp]:
  "sv_repo demo_server = postgres demo_world" "svc_repo (sv_service demo_server) = postgres demo_world"
  "sv_jwt demo_server opts secret now token = Inr (True, token)"
  by (simp_all add: demo_server_def)

definition request_of :: "string \<Rightarrow> string list \<Rightarrow> request" where
  "request_of m path = \<lparr>rq_method = m, rq_path = path, rq_authorization = ''Bearer ann'',
     rq_content_length = 0, rq_first = Inl (ErrText ''EOF''), rq_rest = AtEOF\<rparr>"

lemma ann_identified:
  "e \<noteq> ECreate \<Longrightarrow> identified demo_world demo_server e (request_of m path) s = Some \<lparr>p_kind = KindCustomer, p_customer = ''ann''\<rparr>"
proof -
  assume e: "e \<noteq> ECreate"
  have "ParseBearer ''Bearer ann'' = Inr ''ann''" by code_simp
  with e show ?thesis by (simp add: identified_def request_of_def VerifyToken_def)
qed

lemma foreign_schedules_do_not_exist_witness:
  "\<exists>s'. serve demo_world demo_server (request_of ''POST'' [''schedules'', ''s2'', ''pause'']) demo_session = (Inr not_found, s')
     \<and> st_db s' = demo_db"
proof -
  let ?r = "request_of ''POST'' [''schedules'', ''s2'', ''pause'']" and ?e = "ETransition TPause ''s2''"
  have routed: "route (rq_method ?r) (rq_path ?r) = Routed ?e"
    by (simp add: route_def pattern_of_def request_of_def transition_named_def)
  have e: "?e = EGet ''s2'' \<or> ?e = EUpcoming ''s2'' \<or> (\<exists>k. ?e = ETransition k ''s2'')" by simp
  have caller: "identified demo_world demo_server ?e ?r demo_session = Some \<lparr>p_kind = KindCustomer, p_customer = ''ann''\<rparr>"
    by (simp add: ann_identified)
  have foreign: "\<forall>row \<in> set (db_schedules (st_db demo_session)). w_uuid_in demo_world ''s2'' = Some (sr_id row) \<longrightarrow>
      sr_customer_id row \<noteq> p_customer \<lparr>p_kind = KindCustomer, p_customer = ''ann''\<rparr>"
    by (simp add: demo_db_def demo_row_def)
  have handled: "serve demo_world demo_server ?r demo_session
      = act_as (postgres demo_world) (Some \<lparr>p_kind = KindCustomer, p_customer = ''ann''\<rparr>) (Pause demo_world demo_service ''s2'' None) demo_session"
    using protected_serve [OF routed, of demo_world demo_server demo_session] caller
    by (simp add: protected_def handler_of_def handle_transition_def HandlePause_def decode_optional_def request_of_def demo_server_def)
  then obtain resp s' where run: "serve demo_world demo_server ?r demo_session = (Inr resp, s')" "rs_code resp \<in> handled"
    using act_answers_in unfolding answers_in_def by metis
  have good: "(\<forall>k. \<not> w_fault demo_world k) \<and> \<not> st_aborted demo_session \<and> w_uuid_in demo_world ''s2'' \<noteq> None"
    by (simp add: demo_world_def demo_session_def open_session_def)
  note effect = foreign_schedules_do_not_exist [OF demo_alone demo_server_sel(1,2) demo_session_sel(1) routed e caller foreign run(1)]
  have "rs_code resp \<noteq> 400"
    using run(1) unfolding handled
    by (auto simp: act_as_def respond_def caller_of_def scopeFor_def bind_def attempt_def reject_def ret_def
        split: prod.splits sum.splits option.splits if_splits)
  then have "resp = not_found" using effect good by blast
  then show ?thesis using run(1) effect by auto
qed

section \<open>Listing\<close>

definition items_of :: "db \<Rightarrow> string \<Rightarrow> schedule_item list" where
  "items_of d u = map scanItem (sort_key ir_sku (filter (\<lambda>x. ir_schedule_id x = u) (db_items d)))"

lemma items_alone:
  assumes "alone W" "st_tx s = None" "pg_ListScheduleItems W i sc s = (Inr items, s')"
    and "w_uuid_in W i = Some u" "filterVia sc (st_db s) u"
  shows "items = items_of (st_db s) u \<and> st_db s' = st_db s \<and> st_tx s' = None"
proof -
  have "(\<lambda>x :: item_row. ir_schedule_id x = u \<and> filterVia sc (st_db s) (ir_schedule_id x)) = (\<lambda>x. ir_schedule_id x = u)"
    using assms(5) by auto
  then show ?thesis
    using assms(1-4)
    by (auto simp: pg_ListScheduleItems_def wrapping_def stmt_def settle_def alone_def with_uuid_def query_def items_of_def
        Let_def split: if_splits)
qed

lemma list_responses_alone:
  assumes "alone W"
  shows "list_responses (postgres W) sc (map scanSchedule rows) out s = (Inr resp, s') \<Longrightarrow> rs_code resp = 200 \<Longrightarrow> st_tx s = None \<Longrightarrow>
    \<forall>r \<in> set rows. w_uuid_in W (sr_id r) = Some (sr_id r) \<and> filterVia sc (st_db s) (sr_id r) \<Longrightarrow>
    st_db s' = st_db s \<and> rs_body resp = JObj [(''schedules'', JArr (out @
      map (\<lambda>r. toResponse (scanSchedule r) (items_of (st_db s) (sr_id r))) rows))]"
proof (induction rows arbitrary: out s)
  case (Cons r rows)
  obtain res s1 where items: "pg_ListScheduleItems W (sr_id r) sc s = (res, s1)" by fastforce
  show ?case
  proof (cases res)
    case (Inl e)
    then show ?thesis using Cons.prems(1,2) items by (auto simp: bind_def attempt_def reject_def ret_def)
  next
    case (Inr its)
    have its: "its = items_of (st_db s) (sr_id r)" "st_db s1 = st_db s" "st_tx s1 = None"
      using items_alone [OF assms Cons.prems(3) items [unfolded Inr]] Cons.prems(4) by auto
    have "list_responses (postgres W) sc (map scanSchedule rows) (out @ [toResponse (scanSchedule r) its]) s1 = (Inr resp, s')"
      using Cons.prems(1) items Inr by (simp add: bind_def attempt_def)
    from Cons.IH [OF this Cons.prems(2) its(3)] Cons.prems(4) its show ?thesis by simp
  qed
qed (auto simp: ret_def writeJSON_def)

text \<open>C37. A listing under somebody else's customer id is a 404 that touches nothing; one's own is
  exactly the schedules with one's customer id, oldest first, each with exactly its items.\<close>

theorem listings_are_the_callers_own:
  assumes "alone W" and "sv_repo sv = postgres W" and "st_tx s = None"
    and routed: "route (rq_method r) (rq_path r) = Routed (EListByCustomer c)"
    and caller: "identified W sv (EListByCustomer c) r s = Some p"
    and ids: "\<forall>row \<in> set (db_schedules (st_db s)). w_uuid_in W (sr_id row) = Some (sr_id row)"
    and run: "serve W sv r s = (Inr resp, s')"
  shows "(p_customer p \<noteq> c \<longrightarrow> resp = writeError 404 ''customer not found'' \<and> s' = s)
    \<and> (rs_code resp = 200 \<longrightarrow> p_customer p = c \<and> st_db s' = st_db s
        \<and> rs_body resp = JObj [(''schedules'', JArr
            (map (\<lambda>row. toResponse (scanSchedule row) (items_of (st_db s) (sr_id row)))
              (sort_key sr_created_at (filter (\<lambda>row. sr_customer_id row = c) (db_schedules (st_db s))))))])"
proof -
  have customer: "p_kind p = KindCustomer" "p_customer p \<noteq> ''''"
    using caller by (auto simp: identified_def VerifyToken_Inr split: sum.splits)
  have handled: "ListByCustomer (postgres W) c (Some p) s = (Inr resp, s')"
    using run protected_serve [OF routed, of W sv s] caller assms(2) by (simp add: handler_of_def protected_def)
  show ?thesis
  proof (cases "p_customer p = c")
    case False
    then show ?thesis
      using handled customer by (auto simp: ListByCustomer_def OwnsCustomer_def reject_def ret_def)
  next
    case True
    obtain res s1 where list: "pg_ListSchedulesByCustomer W c s = (res, s1)" by fastforce
    show ?thesis
    proof (cases res)
      case (Inl e)
      then show ?thesis using handled customer True list
        by (auto simp: ListByCustomer_def OwnsCustomer_def scopeFor_def bind_def attempt_def reject_def ret_def)
    next
      case (Inr ss)
      let ?rows = "sort_key sr_created_at (filter (\<lambda>row. sr_customer_id row = c) (db_schedules (st_db s)))"
      have ss: "ss = map scanSchedule ?rows" "st_db s1 = st_db s" "st_tx s1 = None"
        using querySchedules_alone [OF assms(1,3) list [unfolded Inr pg_ListSchedulesByCustomer_def]]
        by (simp_all add: schedules_where_def)
      have rest: "list_responses (postgres W) (CustomerScope c) (map scanSchedule ?rows) [] s1 = (Inr resp, s')"
        using handled customer True list Inr ss(1)
        by (simp add: ListByCustomer_def OwnsCustomer_def scopeFor_def bind_def attempt_def)
      have "\<forall>row \<in> set ?rows. w_uuid_in W (sr_id row) = Some (sr_id row) \<and> filterVia (CustomerScope c) (st_db s1) (sr_id row)"
        using ids ss(2) customer True by (auto simp: filterVia_def CustomerScope_def)
      from list_responses_alone [OF assms(1) rest _ ss(3) this] True ss(2) show ?thesis by auto
    qed
  qed
qed


lemma listings_are_the_callers_own_witness:
  "\<exists>s'. serve demo_world demo_server (request_of ''GET'' [''customers'', ''bob'', ''schedules'']) demo_session
     = (Inr (writeError 404 ''customer not found''), s')"
proof -
  let ?r = "request_of ''GET'' [''customers'', ''bob'', ''schedules'']" and ?e = "EListByCustomer ''bob''"
  have routed: "route (rq_method ?r) (rq_path ?r) = Routed ?e"
    by (simp add: route_def pattern_of_def request_of_def)
  have caller: "identified demo_world demo_server ?e ?r demo_session = Some \<lparr>p_kind = KindCustomer, p_customer = ''ann''\<rparr>"
    by (simp add: ann_identified)
  obtain resp s' where run: "serve demo_world demo_server ?r demo_session = (Inr resp, s')"
    using answers_serve unfolding answers_def by (metis isl_def prod.collapse sum.collapse(2))
  have ids: "\<forall>row \<in> set (db_schedules (st_db demo_session)). w_uuid_in demo_world (sr_id row) = Some (sr_id row)" by simp
  from listings_are_the_callers_own [OF demo_alone demo_server_sel(1) demo_session_sel(1) routed caller ids run]
  show ?thesis using run by auto
qed

section \<open>Creating\<close>

lemma create_items_session:
  "create_items W sid its s = (r, s') \<Longrightarrow> st_db s' = st_db s \<and> st_tx s' = st_tx s \<and> st_ticks s' = st_ticks s"
proof (induction its arbitrary: r s s')
  case (Cons it its)
  obtain r1 s1 where rest: "create_items W sid its (s\<lparr>st_ids := Suc (st_ids s)\<rparr>) = (r1, s1)" by fastforce
  then show ?case
    using Cons.prems Cons.IH [OF rest] by (cases r1) (auto simp: bind_def new_id_def ret_def split: if_splits)
qed (simp add: ret_def)

lemma answers_inD: "answers_in codes m \<Longrightarrow> m s = (Inr resp, s') \<Longrightarrow> rs_code resp \<in> codes"
  unfolding answers_in_def by (metis Inr_inject prod.inject)

lemma bind_attempt: "m s = (r, s1) \<Longrightarrow> bind (attempt m) k s = k r s1"
  by (simp add: bind_def attempt_def)

lemma store_created_cases:
  assumes "alone W" "st_tx s = None" and run: "store_created W (postgres W) sc items s = (Inr resp, s')"
  shows "rs_code resp = 201 \<and> created_to W (w_dbnow W (st_ticks s)) sc (st_db s) (st_db s')
    \<or> rs_code resp \<noteq> 201 \<and> st_db s' = st_db s"
proof -
  obtain res s1 where ins: "insert_created W (postgres W) sc items s = (res, s1)" by fastforce
  show ?thesis
  proof (cases res)
    case (Inr out)
    then show ?thesis
      using run insert_created_commits [OF ins [unfolded Inr] assms(2)] ins
      by (auto simp: store_created_def bind_def attempt_def ret_def alone_begun [OF assms(1)])
  next
    case (Inl e)
    have s1: "st_db s1 = st_db s" "st_tx s1 = None"
      using in_tx_rolls_back [OF ins [unfolded Inl insert_created_def] assms(2)] by (simp_all add: alone_begun [OF assms(1)])
    let ?rest = "if \<not> err_is e ErrDuplicateSchedule then reject 500 ''could not create schedule''
        else bind (attempt (GetScheduleByOriginOrderID (postgres W) (s_origin_order_id sc))) (\<lambda>found. case found of
          Inl _ \<Rightarrow> reject 500 ''could not create schedule''
        | Inr existing \<Rightarrow>
            bind (attempt (ListScheduleItems (postgres W) (s_id existing) SystemScope)) (\<lambda>listed. case listed of
              Inl _ \<Rightarrow> reject 500 ''could not create schedule''
            | Inr existingItems \<Rightarrow> ret (writeJSON 200 (toResponse existing existingItems))))"
    have rest: "?rest s1 = (Inr resp, s')"
      using run unfolding store_created_def bind_attempt [where m = "insert_created W (postgres W) sc items", OF ins] Inl sum.case .
    note rely = alone_rely [OF assms(1)]
    have quiet: "top (=) ?rest" unfolding postgres_sel
      by (intro rely.cases_top [OF rely] rely.bind_top [OF rely] rely.attempt_top [OF rely] rely.more_reads_top [OF rely]
          rely.repository_reads_top [OF rely] rely.reject_top [OF rely] rely.ret_top [OF rely])
    have "answers_in {200, 500} ?rest" by (intro answers_rules; simp)
    then have "rs_code resp \<in> {200, 500}" using rest by (rule answers_inD)
    then have "rs_code resp \<noteq> 201" by auto
    then show ?thesis using read_only [where m = ?rest, OF quiet s1(2) rest] s1(1) by simp
  qed
qed


lemma rejected: "reject code msg s = (Inr resp, s') \<Longrightarrow> rs_code resp = code \<and> s' = s"
  "bad_body e s = (Inr resp, s') \<Longrightarrow> rs_code resp = 400 \<and> s' = s"
  by (auto simp: bad_body_def reject_def ret_def)

lemma Create_cases:
  assumes run: "Create W (postgres W) r s = (Inr resp, s')"
  shows "rs_code resp = 400 \<and> st_db s' = st_db s
    \<or> (\<exists>req anchor pct sid its s1. decodeJSON create_fields create_zero r = Inr req \<and> parseDate (cr_anchor_date req) = Some anchor
        \<and> ValidateInterval (cr_interval_days req) = None \<and> cr_customer_id req \<noteq> '''' \<and> cr_items req \<noteq> []
        \<and> st_db s1 = st_db s \<and> st_tx s1 = st_tx s
        \<and> store_created W (postgres W) (created_schedule sid req anchor pct) its s1 = (Inr resp, s'))"
    (is "?bad \<or> ?stored")
proof (cases ?bad)
  case False
  note bad = False
  note no = rejected [where resp = resp and s = s and s' = s'] bad
  note run = run [unfolded Create_def]
  obtain req where req: "decodeJSON create_fields create_zero r = Inr req"
    using run no by (cases "decodeJSON create_fields create_zero r") auto
  note run = run [unfolded req sum.case]
  have c: "cr_customer_id req \<noteq> ''''" by (rule notI) (use run no in auto)
  note run = run [unfolded if_not_P [OF c]]
  have "ValidateEmail (w_parse_address W) (cr_customer_email req) = None"
    using run no by (cases "ValidateEmail (w_parse_address W) (cr_customer_email req)") auto
  note run = run [unfolded this option.case]
  have "cr_origin_order_id req \<noteq> ''''" by (rule notI) (use run no in auto)
  note run = run [unfolded if_not_P [OF this]]
  have i: "ValidateInterval (cr_interval_days req) = None"
    using run no by (cases "ValidateInterval (cr_interval_days req)") auto
  note run = run [unfolded i option.case]
  obtain anchor where a: "parseDate (cr_anchor_date req) = Some anchor"
    using run no by (cases "parseDate (cr_anchor_date req)") auto
  note run = run [unfolded a option.case]
  have "cr_timezone req \<noteq> ''''" by (rule notI) (use run no in auto)
  note run = run [unfolded if_not_P [OF this]]
  obtain zone where "w_load_location W (cr_timezone req) = Some zone"
    using run no by (cases "w_load_location W (cr_timezone req)") auto
  note run = run [unfolded this option.case]
  have its: "cr_items req \<noteq> []" by (rule notI) (use run no in auto)
  note run = run [unfolded if_not_P [OF its]]
  obtain pct where "NormalizeDiscountPct (cr_discount_pct req) = Inr pct"
    using run no by (cases "NormalizeDiscountPct (cr_discount_pct req)") auto
  note run = run [unfolded this sum.case]
  let ?sid = "w_newid W (st_ids s)" and ?s = "s\<lparr>st_ids := Suc (st_ids s)\<rparr>"
  obtain items s1 where items: "create_items W ?sid (cr_items req) ?s = (Inr items, s1)"
    using answers_create_items unfolding answers_def by (metis isl_def prod.collapse sum.collapse(2))
  have same: "st_db s1 = st_db s" "st_tx s1 = st_tx s" using create_items_session [OF items] by simp_all
  have "(case items of None \<Rightarrow> reject 400 ''each item needs a sku and a quantity of at least 1''
      | Some items \<Rightarrow> store_created W (postgres W) (created_schedule ?sid req anchor pct) items) s1 = (Inr resp, s')"
    using run items by (simp add: bind_def new_id_def)
  then obtain its' where "store_created W (postgres W) (created_schedule ?sid req anchor pct) its' s1 = (Inr resp, s')"
    using bad same by (cases items) (auto dest!: rejected(1))
  then have ?stored using req a i c its same by auto
  then show ?thesis by (rule disjI2)
qed (rule disjI1)



definition order_request :: "string \<Rightarrow> request" where
  "order_request order = \<lparr>rq_method = ''POST'', rq_path = [''schedules''], rq_authorization = ''Bearer key'',
     rq_content_length = 200, rq_first = Inr (JObj [(''customer_id'', JStr ''ann''), (''customer_email'', JStr ''a@b.example''),
       (''origin_order_id'', JStr order), (''interval_days'', JNum 30), (''anchor_date'', JStr ''2024-01-15''),
       (''timezone'', JStr ''UTC''), (''items'', JArr [JObj [(''sku'', JStr ''soap''), (''quantity'', JNum 2)]])]),
     rq_rest = AtEOF\<rparr>"

lemma order_decoded: "\<exists>req. decodeJSON create_fields create_zero (order_request order) = Inr req
   \<and> req = \<lparr>cr_customer_id = ''ann'', cr_customer_email = ''a@b.example'', cr_origin_order_id = order, cr_interval_days = 30,
       cr_anchor_date = ''2024-01-15'', cr_timezone = ''UTC'', cr_payment_token_ref = '''', cr_shipping_address_id = '''',
       cr_discount_pct = Fin 0, cr_items = [\<lparr>ci_sku = ''soap'', ci_quantity = 2\<rparr>]\<rparr>"
  by (simp add: decodeJSON_def order_request_def decode_struct_def decode_into_def create_fields_def create_zero_def field_of_def
      string_field_def int_field_def slice_field_def item_fields_def first_error_def int64_def)

lemma round_zero: "round_away 0 = 0"
proof -
  have "\<lfloor>1 / 2 :: rat\<rfloor> = 0" by (simp add: floor_eq_iff)
  then show ?thesis by (simp add: round_away_def)
qed

lemma no_discount: "NormalizeDiscountPct (Fin 0) = Inr (Fin 0)"
proof -
  have "0 \<le> fl (1 / 10 ^ 9)" by (rule fl_nonneg) simp
  then show ?thesis by (simp add: NormalizeDiscountPct_def Let_def round_zero)
qed

lemma order_day: "\<exists>d. parseDate ''2024-01-15'' = Some d"
  by (simp add: parseDate_def time_parse_def all_digits_def is_digit_def read_dec_def digit_val_def Let_def
      valid_date_def days_in_def days_before_month_def cum_days_def)

lemma order_created:
  "\<exists>resp s'. Create demo_world (postgres demo_world) (order_request ''o9'') demo_session = (Inr resp, s') \<and> rs_code resp = 201"
proof -
  obtain d where d: "parseDate ''2024-01-15'' = Some d" using order_day by blast
  obtain req where req: "decodeJSON create_fields create_zero (order_request ''o9'') = Inr req"
    "req = \<lparr>cr_customer_id = ''ann'', cr_customer_email = ''a@b.example'', cr_origin_order_id = ''o9'', cr_interval_days = 30,
       cr_anchor_date = ''2024-01-15'', cr_timezone = ''UTC'', cr_payment_token_ref = '''', cr_shipping_address_id = '''',
       cr_discount_pct = Fin 0, cr_items = [\<lparr>ci_sku = ''soap'', ci_quantity = 2\<rparr>]\<rparr>"
    using order_decoded by blast
  show ?thesis
    unfolding Create_def req(1) sum.case
    by (simp add: req(2) d no_discount ValidateEmail_def MaxEmailLength_def store_created_def insert_created_def created_schedule_def
        pg_CreateSchedule_def q_insert_schedule_def insert_schedule_def q_insert_item_def insert_item_def creation_event_def
        numeric_of_def round_zero run_defs cong: run_congs)
qed



end
