(* ===== verification/Notices.thy ===== *)
theory Notices
  imports Dispatch Tenancy
begin

text \<open>
  What one claimed event may put in the mail (\<open>dispatchOne\<close> of \<open>internal/notify/notify.go\<close>), and that
  no value inserted into a mail can leave its text position (the escaping of the templates).
\<close>

section \<open>What the dispatcher reads\<close>

lemmas outside_defs = bind_def wrapping_def stmt_def settle_def alone_def with_uuid_def query_def throw_def ret_def Let_def

lemma GetSchedule_alone:
  assumes "alone W" "st_tx s = None" "pg_GetSchedule W i sc s = (r, s1)"
  shows "st_db s1 = st_db s \<and> st_tx s1 = None \<and> st_mail s1 = st_mail s
    \<and> (\<forall>x. r = Inr x \<longrightarrow> (\<exists>u row. w_uuid_in W i = Some u \<and> schedule_at u sc (st_db s) = Some row \<and> x = scanSchedule row))"
  using assms
  by (auto simp: pg_GetSchedule_def one_row_def schedule_at_def outside_defs
      split: prod.splits sum.splits option.splits if_splits)

lemma GetOccurrenceBySequence_alone:
  assumes "alone W" "st_tx s = None" "pg_GetOccurrenceBySequence W i n s = (r, s1)"
  shows "st_db s1 = st_db s \<and> st_tx s1 = None \<and> st_mail s1 = st_mail s
    \<and> (\<forall>x. r = Inr x \<longrightarrow> (\<exists>u oc. w_uuid_in W i = Some u \<and> oc \<in> set (db_occurrences (st_db s)) \<and> or_schedule_id oc = u
         \<and> or_sequence_no oc = n \<and> x = scanOccurrence oc))"
proof -
  have mem: "oc \<in> set (db_occurrences d) \<and> or_schedule_id oc = u \<and> or_sequence_no oc = n"
    if "occurrences_where u (\<lambda>r. or_sequence_no r = n) d = oc # ocs" for u d oc ocs
    using arg_cong [OF that, of set] by (auto simp: occurrences_where_def)
  show ?thesis
    using assms
    by (auto simp: pg_GetOccurrenceBySequence_def queryOneOccurrence_def queryOccurrences_def outside_defs
        split: prod.splits sum.splits option.splits if_splits list.splits dest!: mem)
qed

lemma ListScheduleItems_alone:
  assumes "alone W" "st_tx s = None" "pg_ListScheduleItems W i SystemScope s = (r, s1)"
  shows "st_db s1 = st_db s \<and> st_tx s1 = None \<and> st_mail s1 = st_mail s
    \<and> (\<forall>x. r = Inr x \<longrightarrow> (\<exists>u. w_uuid_in W i = Some u \<and> x = items_of (st_db s) u))"
  using assms
  by (auto simp: pg_ListScheduleItems_def items_of_def filterVia_def SystemScope_def outside_defs
      split: prod.splits sum.splits option.splits if_splits)

lemma marks_alone:
  assumes "alone W" "st_tx s = None"
  shows "st_mail (snd (pg_MarkNotificationSent W k t s)) = st_mail s"
    and "st_mail (snd (pg_MarkNotificationFailed W k msg cap s)) = st_mail s"
  using assms
  by (auto simp: pg_MarkNotificationSent_def pg_MarkNotificationFailed_def checkAffected_def outside_defs
      split: prod.splits sum.splits option.splits if_splits)


section \<open>One event\<close>

lemma mark_sent_alone:
  assumes "alone W" "dp_repo d = postgres W" "st_tx s = None" "mark_sent W d what e result s = (r, s')"
  shows "st_mail s' = st_mail s \<and> (\<forall>x. r = Inr x \<longrightarrow> x = result)"
proof -
  obtain r1 s1 where m: "pg_MarkNotificationSent W (n_schedule_event_id e) (w_now W (st_ticks s)) s = (r1, s1)" by fastforce
  have "st_mail s1 = st_mail s" using marks_alone(1) [OF assms(1,3)] m by (metis snd_conv)
  then show ?thesis
    using assms(2,4) m by (cases r1) (auto simp: mark_sent_def bind_def wrapping_def ret_def clock_def gets_def)
qed

text \<open>The mail of an event: one, to the address of the schedule, rendered from its row, its items and,
  for a pre-billing notice, the occurrence the event is about.\<close>

definition sent_for :: "dispatcher \<Rightarrow> notifiable_event \<Rightarrow> schedule \<Rightarrow> occurrence option \<Rightarrow> db \<Rightarrow> string \<Rightarrow> string \<times> string \<times> string \<Rightarrow> bool" where
  "sent_for d e sch occ db u m = (\<exists>subject body. m = (s_customer_email sch, subject, body)
     \<and> render e sch (if eventsNeedingItems (n_event_type e) then items_of db u else []) occ (dp_supportContact d) = Inr (subject, body))"

lemma deliver_event_alone:
  assumes "alone W" "dp_repo d = postgres W" "st_tx s = None" "w_uuid_in W (n_schedule_id e) = Some u"
    and run: "deliver_event W d e sch occ s = (r, s')"
  shows "(st_mail s' = st_mail s \<and> (\<exists>err. r = Inl err))
    \<or> (\<exists>m. sent_for d e sch occ (st_db s) u m \<and> st_mail s' = st_mail s @ [m]
         \<and> (\<forall>x. r = Inr x \<longrightarrow> x = outcomeSent \<or> x = outcomeSendFailed))"
proof -
  let ?load = "if eventsNeedingItems (n_event_type e)
          then wrapping (''list items for '' @ n_schedule_id e @ '': '') (ListScheduleItems (dp_repo d) (n_schedule_id e) SystemScope)
          else ret []"
  obtain l s1 where load: "?load s = (l, s1)" by fastforce
  have s1: "st_tx s1 = None" "st_mail s1 = st_mail s"
    and items: "\<And>x. l = Inr x \<Longrightarrow> x = (if eventsNeedingItems (n_event_type e) then items_of (st_db s) u else [])"
  proof -
    obtain l0 s0 where "pg_ListScheduleItems W (n_schedule_id e) SystemScope s = (l0, s0)" by fastforce
    note read = ListScheduleItems_alone [OF assms(1,3) this] this
    show "st_tx s1 = None" "st_mail s1 = st_mail s"
      "\<And>x. l = Inr x \<Longrightarrow> x = (if eventsNeedingItems (n_event_type e) then items_of (st_db s) u else [])"
      using load read assms(2,3,4) by (cases l0; auto simp: wrapping_def ret_def split: if_splits)+
  qed
  show ?thesis
  proof (cases l)
    case (Inl err)
    then show ?thesis using run load s1 by (auto simp: deliver_event_def assms(2) bind_def)
  next
    case (Inr x)
    show ?thesis
    proof (cases "render e sch x occ (dp_supportContact d)")
      case (Inl err)
      then show ?thesis using run load s1 Inr by (auto simp: deliver_event_def assms(2) bind_def throw_def)
    next
      case rendered: (Inr p)
      obtain subject body where p: "p = (subject, body)" by fastforce
      let ?m = "(s_customer_email sch, subject, body)"
      obtain sent s2 where send: "send_mail W ?m s1 = (sent, s2)" by fastforce
      have s2: "st_tx s2 = None" "st_mail s2 = st_mail s @ [?m]"
        using send s1 by (auto simp: send_mail_def)
      have "sent_for d e sch occ (st_db s) u ?m"
        using rendered p items [OF Inr] by (simp add: sent_for_def)
      moreover have "st_mail s' = st_mail s @ [?m] \<and> (\<forall>x. r = Inr x \<longrightarrow> x = outcomeSent \<or> x = outcomeSendFailed)"
      proof (cases sent)
        case (Inl sendErr)
        obtain r3 s3 where mark: "pg_MarkNotificationFailed W (n_schedule_event_id e) (err_text sendErr) maxAttempts s2 = (r3, s3)"
          by fastforce
        have "st_mail s3 = st_mail s2" using marks_alone(2) [OF assms(1) s2(1)] mark by (metis snd_conv)
        then show ?thesis
          using run load Inr rendered p send Inl mark s2(2)
          by (cases r3) (auto simp: deliver_event_def assms(2) bind_def attempt_def wrapping_def ret_def)
      next
        case ok: (Inr y)
        have "mark_sent W d ''mark sent: '' e outcomeSent s2 = (r, s')"
          using run load Inr rendered p send ok by (simp add: deliver_event_def assms(2) bind_def attempt_def)
        from mark_sent_alone [OF assms(1,2) s2(1) this] show ?thesis using s2(2) by simp
      qed
      ultimately show ?thesis by blast
    qed
  qed
qed


text \<open>The occurrence a pre-billing notice is about.\<close>

definition announced :: "notifiable_event \<Rightarrow> string \<Rightarrow> db \<Rightarrow> occurrence_row \<Rightarrow> bool" where
  "announced e u d oc = (oc \<in> set (db_occurrences d) \<and> or_schedule_id oc = u \<and> armed_sequence e = Inr (or_sequence_no oc))"

lemma armedOccurrence_alone:
  assumes "alone W" "dp_repo d = postgres W" "st_tx s = None" "armedOccurrence d e s = (r, s1)"
  shows "st_db s1 = st_db s \<and> st_tx s1 = None \<and> st_mail s1 = st_mail s
    \<and> (\<forall>x. r = Inr x \<longrightarrow> (\<exists>u oc. w_uuid_in W (n_schedule_id e) = Some u \<and> announced e u (st_db s) oc \<and> x = scanOccurrence oc))"
proof (cases "armed_sequence e")
  case (Inr n)
  obtain r1 s2 where g: "pg_GetOccurrenceBySequence W (n_schedule_id e) n s = (r1, s2)" by fastforce
  then show ?thesis
    using GetOccurrenceBySequence_alone [OF assms(1,3) g] assms(2,4) Inr
    by (cases r1) (auto simp: armedOccurrence_def wrapping_def announced_def)
qed (use assms in \<open>auto simp: armedOccurrence_def throw_def\<close>)

lemma dispatchOne_alone:
  assumes "alone W" "dp_repo d = postgres W" "st_tx s = None" and run: "dispatchOne W d e s = (r, s')"
  shows "(st_mail s' = st_mail s \<and> r \<noteq> Inr outcomeSent \<and> r \<noteq> Inr outcomeSendFailed
      \<and> (r = Inr outcomeSkipped \<longrightarrow> (\<exists>u row. schedule_at u SystemScope (st_db s) = Some row \<and> sr_customer_email row = ''''))
      \<and> (r = Inr outcomeSuperseded \<longrightarrow> (\<exists>u oc. announced e u (st_db s) oc \<and> or_status oc \<noteq> OccurrencePending)))
    \<or> (\<exists>u row occ m. w_uuid_in W (n_schedule_id e) = Some u \<and> schedule_at u SystemScope (st_db s) = Some row
         \<and> sr_customer_email row \<noteq> '''' \<and> sent_for d e (scanSchedule row) occ (st_db s) u m
         \<and> (n_event_type e = EventOccurrenceArmed \<longrightarrow>
              (\<exists>oc. announced e u (st_db s) oc \<and> or_status oc = OccurrencePending \<and> occ = Some (scanOccurrence oc)))
         \<and> st_mail s' = st_mail s @ [m] \<and> r \<noteq> Inr outcomeSkipped \<and> r \<noteq> Inr outcomeSuperseded)"
    (is "?none \<or> ?one")
proof -
  obtain g s1 where get: "pg_GetSchedule W (n_schedule_id e) SystemScope s = (g, s1)" by fastforce
  note read = GetSchedule_alone [OF assms(1,3) get]
  show ?thesis
  proof (cases g)
    case (Inl err)
    then show ?thesis using run get read by (auto simp: dispatchOne_def assms(2) bind_def wrapping_def)
  next
    case (Inr sch)
    obtain u row where u: "w_uuid_in W (n_schedule_id e) = Some u" "schedule_at u SystemScope (st_db s) = Some row"
      "sch = scanSchedule row" using read Inr by blast
    have s1: "st_db s1 = st_db s" "st_tx s1 = None" "st_mail s1 = st_mail s" using read by simp_all
    have email: "s_customer_email sch = sr_customer_email row" by (simp add: u(3) scanSchedule_def)
    have sent: "?one" if t: "deliver_event W d e sch occ s2 = (r, s')" "st_tx s2 = None" "st_db s2 = st_db s" "st_mail s2 = st_mail s"
        "sr_customer_email row \<noteq> ''''" "st_mail s' \<noteq> st_mail s"
        "n_event_type e = EventOccurrenceArmed \<longrightarrow>
              (\<exists>oc. announced e u (st_db s) oc \<and> or_status oc = OccurrencePending \<and> occ = Some (scanOccurrence oc))" for occ s2
    proof -
      obtain m where m: "sent_for d e sch occ (st_db s) u m" "st_mail s' = st_mail s @ [m]"
        and r: "\<forall>x. r = Inr x \<longrightarrow> x = outcomeSent \<or> x = outcomeSendFailed"
        using deliver_event_alone [OF assms(1,2) t(2) u(1) t(1)] t(3,4,6) by auto
      have "r \<noteq> Inr outcomeSkipped" "r \<noteq> Inr outcomeSuperseded" using r by auto
      then show ?thesis using u m t(5,7) by blast
    qed
    have kept: "?none" if "deliver_event W d e sch occ s2 = (r, s')" "st_tx s2 = None" "st_mail s2 = st_mail s"
        "st_mail s' = st_mail s" for occ s2
      using deliver_event_alone [OF assms(1,2) that(2) u(1) that(1)] that(3-) by auto
    have step: "(if s_customer_email sch = '''' then mark_sent W d ''mark skipped: '' e outcomeSkipped
        else if n_event_type e = EventOccurrenceArmed
        then bind (armedOccurrence d e) (\<lambda>current.
               if o_status current \<noteq> OccurrencePending
               then mark_sent W d ''mark superseded: '' e outcomeSuperseded
               else deliver_event W d e sch (Some current))
        else deliver_event W d e sch None) s1 = (r, s')"
      using run get Inr by (simp add: dispatchOne_def assms(2) bind_def wrapping_def)
    consider (skip) "sr_customer_email row = ''''" | (other) "sr_customer_email row \<noteq> ''''" "n_event_type e \<noteq> EventOccurrenceArmed"
      | (armed) "sr_customer_email row \<noteq> ''''" "n_event_type e = EventOccurrenceArmed" by blast
    then show ?thesis
    proof cases
      case skip
      then have "mark_sent W d ''mark skipped: '' e outcomeSkipped s1 = (r, s')" using step email by simp
      from mark_sent_alone [OF assms(1,2) s1(2) this] show ?thesis using s1(3) skip u(2) by auto
    next
      case other
      then have "deliver_event W d e sch None s1 = (r, s')" using step email by simp
      then show ?thesis using sent [of None s1] kept [of None s1] s1 other by blast
    next
      case armed
      obtain a s2 where arm: "armedOccurrence d e s1 = (a, s2)" by fastforce
      note found = armedOccurrence_alone [OF assms(1,2) s1(2) arm, unfolded s1]
      show ?thesis
      proof (cases a)
        case (Inl err)
        then have "s' = s2 \<and> r = Inl err" using step armed email arm by (simp add: bind_def)
        then show ?thesis using found by simp
      next
        case (Inr current)
        obtain oc where oc: "announced e u (st_db s) oc" "current = scanOccurrence oc" using found Inr u(1) by auto
        have status: "o_status current = or_status oc" by (simp add: oc(2) scanOccurrence_def)
        have s2: "st_db s2 = st_db s" "st_tx s2 = None" "st_mail s2 = st_mail s" using found by simp_all
        show ?thesis
        proof (cases "or_status oc = OccurrencePending")
          case True
          then have "deliver_event W d e sch (Some current) s2 = (r, s')" using step armed email arm Inr status by (simp add: bind_def)
          then show ?thesis using sent [of "Some current" s2] kept [of "Some current" s2] s2 armed oc True by blast
        next
          case False
          then have "mark_sent W d ''mark superseded: '' e outcomeSuperseded s2 = (r, s')"
            using step armed email arm Inr status by (simp add: bind_def)
          from mark_sent_alone [OF assms(1,2) s2(2) this] show ?thesis using s2(3) oc(1) False by auto
        qed
      qed
    qed
  qed
qed


text \<open>C23. A claimed event sends at most one mail, and only a true one: to the address its schedule has
  now, never to an empty one, rendered from the schedule, its items and, if it announces an order,
  the very occurrence of that schedule the event names, which is pending. Without a mail, an event
  is never counted as sent; it is skipped only for want of an address and superseded only when the
  announced order is no longer pending.\<close>

theorem notices_are_true:
  assumes "alone W" and "dp_repo d = postgres W" and "st_tx s = None" and "dispatchOne W d e s = (r, s')"
  shows "(st_mail s' = st_mail s \<and> r \<noteq> Inr outcomeSent \<and> r \<noteq> Inr outcomeSendFailed
      \<and> (r = Inr outcomeSkipped \<longrightarrow> (\<exists>u row. schedule_at u SystemScope (st_db s) = Some row \<and> sr_customer_email row = ''''))
      \<and> (r = Inr outcomeSuperseded \<longrightarrow> (\<exists>u oc. announced e u (st_db s) oc \<and> or_status oc \<noteq> OccurrencePending)))
    \<or> (\<exists>u row occ m. w_uuid_in W (n_schedule_id e) = Some u \<and> schedule_at u SystemScope (st_db s) = Some row
         \<and> sr_customer_email row \<noteq> '''' \<and> sent_for d e (scanSchedule row) occ (st_db s) u m
         \<and> (n_event_type e = EventOccurrenceArmed \<longrightarrow>
              (\<exists>oc. announced e u (st_db s) oc \<and> or_status oc = OccurrencePending \<and> occ = Some (scanOccurrence oc)))
         \<and> st_mail s' = st_mail s @ [m] \<and> r \<noteq> Inr outcomeSkipped \<and> r \<noteq> Inr outcomeSuperseded)"
  by (rule dispatchOne_alone [OF assms])

definition armed_notice :: notifiable_event where
  "armed_notice = \<lparr>n_schedule_event_id = 2, n_schedule_id = ''s2'', n_event_type = EventOccurrenceArmed,
     n_reason_code = None, n_payload = JObj [(''sequence_no'', JNum 1)], n_created_at = 1\<rparr>"

definition mailing_db :: db where
  "mailing_db = demo_db\<lparr>db_notifications := [\<lparr>nr_schedule_event_id = 2, nr_status = NotificationPending, nr_attempts = 1,
     nr_last_attempt_at = 900, nr_sent_at = None, nr_last_error = None\<rparr>]\<rparr>"

lemma demo_dispatch:
  "\<exists>s'. dispatchOne still_world demo_dispatcher armed_notice (open_session mailing_db) = (Inr outcomeSent, s')"
  by (simp add: dispatchOne_def pg_GetSchedule_def armedOccurrence_def armed_sequence_def int64_def pg_GetOccurrenceBySequence_def
      queryOneOccurrence_def deliver_event_def eventsNeedingItems_def pg_ListScheduleItems_def render_def applyEventSnapshot_def
      send_mail_def mark_sent_def pg_MarkNotificationSent_def q_mark_sent_def filterVia_def armed_notice_def mailing_db_def
      demo_dispatcher_def still_world_def run_defs cong: run_congs)

lemma notices_are_true_witness:
  "\<exists>s' m. dispatchOne still_world demo_dispatcher armed_notice (open_session mailing_db) = (Inr outcomeSent, s') \<and> st_mail s' = [m]"
proof -
  obtain s' where run: "dispatchOne still_world demo_dispatcher armed_notice (open_session mailing_db) = (Inr outcomeSent, s')"
    using demo_dispatch by blast
  have repo: "dp_repo demo_dispatcher = postgres still_world" by (simp add: demo_dispatcher_def)
  have s: "st_tx (open_session mailing_db) = None" "st_mail (open_session mailing_db) = []" by (simp_all add: open_session_def)
  show ?thesis using run s(2) notices_are_true [OF still_alone repo s(1) run] by auto
qed


section \<open>Values stay in the text of a mail\<close>

text \<open>The characters that make HTML markup: angle brackets, quotes and NUL.\<close>

definition markup :: "string \<Rightarrow> string" where
  "markup s = filter (\<lambda>c. c \<in> {CHR 0x3C, CHR 0x3E, CHR 0x22, CHR 0x27, CHR 0x00}) s"

lemma markup_append [simp]: "markup (a @ b) = markup a @ markup b"
  by (simp add: markup_def)

lemma markup_Nil [simp]: "markup '''' = ''''"
  by (simp add: markup_def)

lemma markup_escape_char: "markup (escape_char c) = ''''"
  by (auto simp: markup_def)

lemma markup_html_escape [simp]: "markup (html_escape s) = ''''"
  by (induction s) (simp_all add: html_escape_def markup_escape_char del: escape_char.simps)

lemma markup_Cons [simp]:
  "markup (c # s) = (if c \<in> {CHR 0x3C, CHR 0x3E, CHR 0x22, CHR 0x27, CHR 0x00} then c # markup s else markup s)"
  by (simp add: markup_def)

lemma markup_lines: "markup (lines ls) = concat (map markup ls)"
  by (induction ls) (simp_all add: lines_def)

lemma markup_item_lines: "markup (item_lines items) = concat (map (\<lambda>_. ''<><>'') items)"
  by (induction items) (auto simp: item_lines_def)

text \<open>Template data of the same shape: as many items, and the same optional lines present.\<close>

definition same_shape :: "templateData \<Rightarrow> templateData \<Rightarrow> bool" where
  "same_shape a b = (length (td_Items a) = length (td_Items b)
     \<and> (td_NextOrderDate a = '''' \<longleftrightarrow> td_NextOrderDate b = '''')
     \<and> (td_PausedUntil a = '''' \<longleftrightarrow> td_PausedUntil b = '''') \<and> (td_ReasonText a = '''' \<longleftrightarrow> td_ReasonText b = ''''))"

lemma same_items: "length xs = length ys \<Longrightarrow> markup (item_lines xs) = markup (item_lines ys)"
  by (simp add: markup_item_lines map_replicate_const)

lemma markup_next_order: "(td_NextOrderDate a = '''') = (td_NextOrderDate b = '''') \<Longrightarrow> markup (next_order_line a) = markup (next_order_line b)"
  by (simp only: next_order_line_def if_distrib [of markup] markup_append markup_html_escape)

text \<open>C24. Whatever stands in a customer's data, a SKU, a date of a snapshot or the contact line, it stays
  text: the markup of a mail is determined by its template, the number of its items and which
  optional lines it has, and not by any inserted value.\<close>

theorem inserted_values_stay_text:
  assumes "same_shape a b"
  shows "markup (body_of ty a) = markup (body_of ty b)"
proof -
  note shape = assms [unfolded same_shape_def]
  have optional: "(td_PausedUntil a = '''') = (td_PausedUntil b = '''')" "(td_ReasonText a = '''') = (td_ReasonText b = '''')"
    using shape by blast+
  have items: "markup (item_lines (td_Items a)) = markup (item_lines (td_Items b))"
    by (rule same_items, rule conjunct1 [OF shape])
  have next_line: "markup (next_order_line a) = markup (next_order_line b)"
    using shape markup_next_order by blast
  show ?thesis
    by (cases ty; simp only: body_of.simps bodies markup_lines list.map markup_append markup_html_escape items next_line
        if_distrib [of markup] optional)
qed

definition plain_data :: templateData where
  "plain_data = \<lparr>td_IntervalDays = 30, td_AnchorDate = ''2026-01-01'', td_NextOrderDate = '''', td_Items = [(''tea'', 1)],
     td_PausedUntil = '''', td_ReasonText = '''', td_SupportContact = ''us'', td_ChargeDate = ''2026-01-31''\<rparr>"

lemma inserted_values_stay_text_witness:
  "markup (body_of EventOccurrenceArmed (plain_data\<lparr>td_Items := [(''<script>'', 1)], td_SupportContact := ''</p><p>''\<rparr>))
     = markup (body_of EventOccurrenceArmed plain_data)"
  by (rule inserted_values_stay_text) (simp add: same_shape_def plain_data_def)

end
