(* ===== verification/PortalDev.thy ===== *)
theory PortalDev
  imports Tenancy
begin

text \<open>
  \<open>cmd/portaldev\<close>, the development stand-in for the WordPress plugin: what it insists on before it
  starts, which requests it forwards with a minted customer token, and the page it serves. Parsing
  addresses and URLs, signing tokens, the reverse proxy's transport and the static files are
  parameters.
\<close>

record dev_platform =
  pd_split_host_port :: "string \<Rightarrow> go_error + string"
  pd_loopback :: "string \<Rightarrow> bool option"
  pd_parse_url :: "string \<Rightarrow> go_error option"

definition tokenTTL :: int where "tokenTTL = 3600"

section \<open>Starting\<close>

text \<open>\<open>pd_loopback\<close> is None for a host that is not an IP address.\<close>

definition requireLoopback :: "dev_platform \<Rightarrow> string \<Rightarrow> go_error option" where
  "requireLoopback P addr =
    (case pd_split_host_port P addr of
       Inl e \<Rightarrow> Some (Wrapped ''parse -addr: '' e '''')
     | Inr host \<Rightarrow>
        if host = ''localhost'' then None
        else if pd_loopback P host \<noteq> Some True
        then Some (ErrText (''-addr '' @ quoted addr
               @ '' is not a loopback address; portaldev mints credentials and must not be reachable off-host''))
        else None)"

record minter =
  mt_secret :: string
  mt_customer :: string
  mt_issuer :: string
  mt_audience :: string

record dev_flags =
  df_addr :: string
  df_upstream :: string
  df_customer :: string
  df_schedule :: string

text \<open>\<open>main\<close> up to the listener: an error, or the minter of the server that starts.\<close>

definition dev_start :: "dev_platform \<Rightarrow> env \<Rightarrow> dev_flags \<Rightarrow> go_error + minter" where
  "dev_start P env flags =
    (if df_customer flags = '''' \<or> df_schedule flags = ''''
     then Inl (ErrText ''portaldev: -customer and -schedule are both required'')
     else if length (env ''PORTAL_JWT_SECRET'') < minSecretLength
     then Inl (ErrText (''portaldev: PORTAL_JWT_SECRET must be at least '' @ dec minSecretLength @ '' characters''))
     else (case requireLoopback P (df_addr flags) of
         Some e \<Rightarrow> Inl (Wrapped ''portaldev: '' e '''')
       | None \<Rightarrow>
          (case pd_parse_url P (df_upstream flags) of
             Some e \<Rightarrow> Inl (Wrapped ''portaldev: parse upstream: '' e '''')
           | None \<Rightarrow> Inr \<lparr>mt_secret = env ''PORTAL_JWT_SECRET'', mt_customer = df_customer flags,
               mt_issuer = envOr env ''PORTAL_JWT_ISSUER'' ''cadenceos-portal'',
               mt_audience = envOr env ''PORTAL_JWT_AUDIENCE'' ''cadenceos''\<rparr>)))"

section \<open>Minting and forwarding\<close>

record registered_claims =
  rc_subject :: string
  rc_issuer :: string
  rc_audience :: "string list"
  rc_expires_at :: int

type_synonym jwt_signer = "string \<Rightarrow> registered_claims \<Rightarrow> go_error + string"

definition claims_of :: "minter \<Rightarrow> int \<Rightarrow> registered_claims" where
  "claims_of m now = \<lparr>rc_subject = mt_customer m, rc_issuer = mt_issuer m, rc_audience = [mt_audience m],
     rc_expires_at = now + tokenTTL\<rparr>"

definition mint :: "jwt_signer \<Rightarrow> minter \<Rightarrow> int \<Rightarrow> go_error + string" where
  "mint sign m now = sign (mt_secret m) (claims_of m now)"

definition allowed :: "string \<Rightarrow> string \<Rightarrow> string \<Rightarrow> go_error option" where
  "allowed http_method origin_header origin =
    (if http_method = ''GET'' \<or> http_method = ''HEAD'' then None
     else if origin_header = origin then None
     else if origin_header = '''' then Some (ErrText ''portaldev requires an Origin header on writes'')
     else Some (ErrText ''portaldev rejects cross-origin writes''))"

definition http_Error :: "string \<Rightarrow> nat \<Rightarrow> response" where
  "http_Error body code = plain code body"

text \<open>The request the upstream gets, and what becomes of its answer.\<close>

definition with_token :: "request \<Rightarrow> string \<Rightarrow> request" where
  "with_token r token = r\<lparr>rq_authorization := ''Bearer '' @ token\<rparr>"

definition proxy ::
    "world \<Rightarrow> jwt_signer \<Rightarrow> minter \<Rightarrow> string \<Rightarrow> (request \<Rightarrow> response go) \<Rightarrow> string \<Rightarrow> request \<Rightarrow> response go" where
  "proxy W sign m origin upstream origin_header r =
    (case allowed (rq_method r) origin_header origin of
       Some e \<Rightarrow> ret (http_Error (''{'' @ [CHR 0x22] @ ''error'' @ [CHR 0x22] @ '':'' @ quoted (err_text e) @ ''}'') 403)
     | None \<Rightarrow>
        bind (clock W) (\<lambda>now. case mint sign m now of
          Inl _ \<Rightarrow> ret (http_Error (''{'' @ quoted ''error'' @ '':'' @ quoted ''could not mint a portal token'' @ ''}'') 500)
        | Inr token \<Rightarrow>
            bind (attempt (upstream (with_token r token))) (\<lambda>answer. case answer of
              Inl _ \<Rightarrow> ret (http_Error (''{'' @ quoted ''error'' @ '':'' @ quoted ''upstream unreachable'' @ ''}'') 502)
            | Inr resp \<Rightarrow> ret resp)))"

section \<open>The page\<close>

fun replace_first :: "string \<Rightarrow> string \<Rightarrow> string \<Rightarrow> string" where
  "replace_first old new [] = (if old = [] then new else [])"
| "replace_first old new (c # s) = (if take (length old) (c # s) = old then new @ drop (length old) (c # s) else c # replace_first old new s)"

definition widget :: "(request \<Rightarrow> response) \<Rightarrow> go_error + string \<Rightarrow> string \<Rightarrow> request \<Rightarrow> response" where
  "widget files shell scheduleID r =
    (if rq_path r \<noteq> [''''] \<and> rq_path r \<noteq> [''index.html''] then files r
     else (case shell of
         Inl _ \<Rightarrow> http_Error ''portal shell not found'' 500
       | Inr page \<Rightarrow> \<lparr>rs_code = 200, rs_headers = [(''Content-Type'', ''text/html; charset=utf-8''), (''Cache-Control'', ''no-store'')],
           rs_body = JStr (replace_first (''data-schedule-id='' @ quoted '''') (''data-schedule-id='' @ quoted scheduleID) page)\<rparr>))"

text \<open>The mux, for every path but \<open>/api\<close> itself: \<open>/api/\<close> is stripped and proxied, the rest is the
  widget.\<close>

definition dev_serve ::
    "world \<Rightarrow> jwt_signer \<Rightarrow> minter \<Rightarrow> dev_flags \<Rightarrow> (request \<Rightarrow> response go) \<Rightarrow> (request \<Rightarrow> response) \<Rightarrow> go_error + string
      \<Rightarrow> string \<Rightarrow> request \<Rightarrow> response go" where
  "dev_serve W sign m flags upstream files shell origin_header r =
    (case rq_path r of
       a # b # rest \<Rightarrow>
         if a = ''api'' then proxy W sign m (''http://'' @ df_addr flags) upstream origin_header (r\<lparr>rq_path := b # rest\<rparr>)
         else ret (widget files shell (df_schedule flags) r)
     | _ \<Rightarrow> ret (widget files shell (df_schedule flags) r))"

section \<open>A minted token is its customer's\<close>

text \<open>What signing and parsing have to do with each other: a token signed with a secret is accepted
  under that secret by options that allow HS256 and name its issuer and audience, until it expires;
  and as base64 segments it neither begins nor ends with white space.\<close>

definition signs_for :: "jwt_signer \<Rightarrow> jwt_parser \<Rightarrow> bool" where
  "signs_for sign parse = (\<forall>secret c token. sign secret c = Inr token \<longrightarrow> token \<noteq> '''' \<and> TrimSpace token = token
     \<and> (\<forall>opts now. signingMethod \<in> set (jo_valid_methods opts) \<longrightarrow> rc_issuer c = jo_issuer opts \<longrightarrow>
          jo_audience opts \<in> set (rc_audience c) \<longrightarrow> now < rc_expires_at c \<longrightarrow> parse opts secret now token = Inr (True, rc_subject c)))"

text \<open>A server configured with the same secret, issuer and audience.\<close>

definition same_portal :: "minter \<Rightarrow> server \<Rightarrow> bool" where
  "same_portal m sv = (sv_tokens sv = NewTokenVerifier \<lparr>tc_secret = mt_secret m, tc_issuer = mt_issuer m, tc_audience = mt_audience m\<rparr>)"

lemma bearer_of_token:
  assumes "token \<noteq> ''''" "TrimSpace token = token"
  shows "ParseBearer (''Bearer '' @ token) = Inr token"
proof -
  have "equal_fold ''Bearer '' ''bearer ''" by code_simp
  then show ?thesis using assms by (simp add: ParseBearer_def Let_def)
qed

lemma minted_identifies:
  assumes "signs_for sign (sv_jwt sv)" "same_portal m sv" "mint sign m (w_now W (st_ticks s)) = Inr token"
    and "mt_customer m \<noteq> ''''" "e \<noteq> ECreate"
  shows "identified W sv e (with_token r token) s = Some \<lparr>p_kind = KindCustomer, p_customer = mt_customer m\<rparr>"
proof -
  let ?now = "w_now W (st_ticks s)" and ?c = "claims_of m (w_now W (st_ticks s))"
  have t: "token \<noteq> ''''" "TrimSpace token = token"
    and parse: "sv_jwt sv (tv_options (sv_tokens sv)) (mt_secret m) ?now token = Inr (True, mt_customer m)"
    using assms(1-3) unfolding signs_for_def mint_def same_portal_def
    by (auto simp: NewTokenVerifier_def claims_of_def tokenTTL_def)
  have "tv_secret (sv_tokens sv) = mt_secret m"
    using assms(2) by (simp add: same_portal_def NewTokenVerifier_def)
  then show ?thesis
    using parse assms(4,5) bearer_of_token [OF t] by (simp add: identified_def with_token_def VerifyToken_def)
qed


text \<open>C39. The stand-in hands its credential to nobody else. A write whose Origin is not its own address
  is refused without reaching the upstream or touching anything. Every request it forwards to a
  service that shares its secret, issuer and audience is handled there for exactly the customer it
  was started for, on any endpoint for customers; and it only starts on a loopback address, with a
  secret of at least 32 bytes.\<close>

theorem the_stand_in_speaks_for_one_customer:
  assumes "dev_start P env flags = Inr m"
    and "signs_for sign (sv_jwt sv)" and "same_portal m sv"
    and "mint sign m (w_now W (st_ticks s)) = Inr token"
    and "rq_path r = ''api'' # b # rest" and "route (rq_method r) (b # rest) = Routed e" and "protected e" and "e \<noteq> ECreate"
  shows "(\<exists>host. pd_split_host_port P (df_addr flags) = Inr host \<and> (host = ''localhost'' \<or> pd_loopback P host = Some True))
    \<and> 32 \<le> length (mt_secret m) \<and> mt_customer m = df_customer flags
    \<and> (rq_method r \<notin> {''GET'', ''HEAD''} \<and> origin_header \<noteq> ''http://'' @ df_addr flags \<longrightarrow>
         (\<exists>resp. rs_code resp = 403 \<and> dev_serve W sign m flags (serve W sv) files shell origin_header r s = (Inr resp, s)))
    \<and> (rq_method r \<in> {''GET'', ''HEAD''} \<or> origin_header = ''http://'' @ df_addr flags \<longrightarrow>
         (\<forall>resp s'. handler_of W sv e (with_token (r\<lparr>rq_path := b # rest\<rparr>) token)
              (Some \<lparr>p_kind = KindCustomer, p_customer = df_customer flags\<rparr>) s = (Inr resp, s') \<longrightarrow>
            dev_serve W sign m flags (serve W sv) files shell origin_header r s = (Inr resp, s')))"
proof -
  have start: "df_customer flags \<noteq> ''''" "minSecretLength \<le> length (mt_secret m)" "requireLoopback P (df_addr flags) = None"
      "mt_customer m = df_customer flags"
    using assms(1) by (auto simp: dev_start_def split: if_splits option.splits)
  have loop: "\<exists>host. pd_split_host_port P (df_addr flags) = Inr host \<and> (host = ''localhost'' \<or> pd_loopback P host = Some True)"
    using start(3) by (auto simp: requireLoopback_def split: sum.splits if_splits)
  let ?r = "with_token (r\<lparr>rq_path := b # rest\<rparr>) token"
  have who: "identified W sv e ?r s = Some \<lparr>p_kind = KindCustomer, p_customer = df_customer flags\<rparr>"
    using minted_identifies [OF assms(2-4) _ assms(8)] start(1,4) by simp
  have routed: "route (rq_method ?r) (rq_path ?r) = Routed e" using assms(6) by (simp add: with_token_def)
  have upstream: "serve W sv ?r s = handler_of W sv e ?r (Some \<lparr>p_kind = KindCustomer, p_customer = df_customer flags\<rparr>) s"
    using protected_serve [OF routed assms(7), of W sv s] who by simp
  have refused: "\<exists>resp. rs_code resp = 403 \<and> dev_serve W sign m flags (serve W sv) files shell origin_header r s = (Inr resp, s)"
    if "rq_method r \<notin> {''GET'', ''HEAD''}" "origin_header \<noteq> ''http://'' @ df_addr flags"
    using that by (auto simp: dev_serve_def assms(5) proxy_def allowed_def ret_def http_Error_def plain_def)
  have forwarded: "dev_serve W sign m flags (serve W sv) files shell origin_header r s = (Inr resp, s')"
    if "rq_method r \<in> {''GET'', ''HEAD''} \<or> origin_header = ''http://'' @ df_addr flags"
      "handler_of W sv e ?r (Some \<lparr>p_kind = KindCustomer, p_customer = df_customer flags\<rparr>) s = (Inr resp, s')" for resp s'
  proof -
    have "allowed (rq_method r) origin_header (''http://'' @ df_addr flags) = None"
      using that(1) by (auto simp: allowed_def)
    then show ?thesis
      using that(2) upstream assms(4)
      by (simp add: dev_serve_def assms(5) proxy_def bind_def clock_def gets_def attempt_def ret_def)
  qed
  show ?thesis using loop start(2,4) refused forwarded by (simp add: minSecretLength_def)
qed


text \<open>An example: tokens that are their subject.\<close>

definition plain_signer :: jwt_signer where
  "plain_signer secret c = (if rc_subject c \<noteq> '''' \<and> TrimSpace (rc_subject c) = rc_subject c then Inr (rc_subject c)
     else Inl (ErrText ''unsupported subject''))"

definition dev_platform :: dev_platform where
  "dev_platform = \<lparr>pd_split_host_port = (\<lambda>a. Inr ''localhost''), pd_loopback = (\<lambda>_. None), pd_parse_url = (\<lambda>_. None)\<rparr>"

definition dev_env :: env where
  "dev_env = (\<lambda>k. if k = ''PORTAL_JWT_SECRET'' then replicate 32 (CHR ''x'') else '''')"

definition demo_flags :: dev_flags where
  "demo_flags = \<lparr>df_addr = ''localhost:8081'', df_upstream = ''http://127.0.0.1:8080'', df_customer = ''ann'', df_schedule = ''s1''\<rparr>"

definition demo_minter :: minter where
  "demo_minter = \<lparr>mt_secret = replicate 32 (CHR ''x''), mt_customer = ''ann'', mt_issuer = ''cadenceos-portal'',
     mt_audience = ''cadenceos''\<rparr>"

definition portal_server :: server where
  "portal_server = demo_server\<lparr>sv_tokens := NewTokenVerifier \<lparr>tc_secret = replicate 32 (CHR ''x''),
     tc_issuer = ''cadenceos-portal'', tc_audience = ''cadenceos''\<rparr>\<rparr>"

definition cancel_request :: request where
  "cancel_request = \<lparr>rq_method = ''POST'', rq_path = [''api'', ''schedules'', ''s1'', ''cancel''], rq_authorization = '''',
     rq_content_length = 0, rq_first = Inl (ErrText ''EOF''), rq_rest = AtEOF\<rparr>"

lemma plain_tokens: "signs_for plain_signer (sv_jwt portal_server)"
  by (auto simp: signs_for_def plain_signer_def portal_server_def demo_server_def split: if_splits)

lemma the_stand_in_speaks_for_one_customer_witness:
  "\<exists>resp. rs_code resp = 403 \<and> dev_serve demo_world plain_signer demo_minter demo_flags (serve demo_world portal_server)
     (\<lambda>_. plain 404 '''') (Inr '''') ''https://evil.example'' cancel_request demo_session = (Inr resp, demo_session)"
proof -
  have start: "dev_start dev_platform dev_env demo_flags = Inr demo_minter"
    by (simp add: dev_start_def dev_platform_def dev_env_def demo_flags_def demo_minter_def requireLoopback_def envOr_def minSecretLength_def)
  have portal: "same_portal demo_minter portal_server"
    by (simp add: same_portal_def demo_minter_def portal_server_def)
  have trim: "TrimSpace ''ann'' = ''ann''" by code_simp
  have token: "mint plain_signer demo_minter (w_now demo_world (st_ticks demo_session)) = Inr ''ann''"
    by (simp add: mint_def plain_signer_def claims_of_def demo_minter_def trim)
  have path: "rq_path cancel_request = ''api'' # ''schedules'' # [''s1'', ''cancel'']" by (simp add: cancel_request_def)
  have routed: "route (rq_method cancel_request) (''schedules'' # [''s1'', ''cancel'']) = Routed (ETransition TCancel ''s1'')"
    by (simp add: route_def pattern_of_def transition_named_def cancel_request_def)
  have cross: "rq_method cancel_request \<notin> {''GET'', ''HEAD''} \<and> ''https://evil.example'' \<noteq> ''http://'' @ df_addr demo_flags"
    by (simp add: cancel_request_def demo_flags_def)
  show ?thesis
    by (rule mp [OF conjunct1 [OF conjunct2 [OF conjunct2 [OF conjunct2 [OF the_stand_in_speaks_for_one_customer
            [OF start plain_tokens portal token path routed]]]]] cross]) (simp_all add: protected_def)
qed

end
