(* ===== verification/Compliance.thy ===== *)
theory Compliance
  imports Config "HOL-Library.Sublist"
begin

text \<open>
  \<open>internal/compliance/forbidden.go\<close>: the build-time guard against identifiers that imply consumption.
  Runes are characters up to U+00FF, where the tables of \<open>unicode\<close> are written out; the regular
  expressions of the file have no repetition, so a pattern is the finite list of phrases it stands
  for. Parsing Go source is the business of \<open>go/parser\<close>: a Go file is the list of identifiers and
  struct tags \<open>ast.Inspect\<close> visits, or None when it does not parse.
\<close>

section \<open>Patterns\<close>

datatype rx = Lit string | Alt "rx list" | Seq "rx list"

fun phrases :: "rx \<Rightarrow> string list" where
  "phrases (Lit s) = [s]"
| "phrases (Alt rs) = concat (map phrases rs)"
| "phrases (Seq rs) = foldr (\<lambda>ps qs. concat (map (\<lambda>p. map (\<lambda>q. p @ q) qs) ps)) (map phrases rs) [[]]"

definition any_of :: "string list \<Rightarrow> rx" where
  "any_of ws = Alt (map Lit ws)"

record forbidden_pattern =
  fp_Name :: string
  fp_Reason :: string
  fp_re :: rx

text \<open>\<open>word(expr)\<close>: the expression between the ends of the identifier or underscores.\<close>

definition match_word :: "string \<Rightarrow> string \<Rightarrow> bool" where
  "match_word w s = list_ex (\<lambda>n. (n = 0 \<or> s ! (n - 1) = CHR ''_'') \<and> take (length w) (drop n s) = w
     \<and> (case drop (n + length w) s of [] \<Rightarrow> True | c # _ \<Rightarrow> c = CHR ''_'')) [0..<Suc (length s)]"

definition match_pattern :: "rx \<Rightarrow> string \<Rightarrow> bool" where
  "match_pattern re s = list_ex (\<lambda>w. match_word w s) (phrases re)"

definition spec2_forbids :: string where
  "spec2_forbids = ''spec '' @ [CHR 0xC2, CHR 0xA7] @ ''2 forbids ''"

definition usage_rate :: forbidden_pattern where
  "usage_rate = \<lparr>fp_Name = ''usage rate'',
     fp_Reason = spec2_forbids @ ''units-per-day, servings-per-day, or any usage rate'',
     fp_re = Alt [Seq [any_of [''dose'', ''doses'', ''serving'', ''servings'', ''unit'', ''units'', ''pill'', ''pills'',
         ''capsule'', ''capsules'', ''tablet'', ''tablets'', ''injection'', ''injections''], Lit ''_per_'',
         any_of [''day'', ''week'', ''month'']],
       any_of [''usage_rate'', ''consumption_rate''], Seq [Lit ''daily_'', any_of [''dose'', ''doses'', ''amount'', ''intake'']]]\<rparr>"

definition supply_depletion :: forbidden_pattern where
  "supply_depletion = \<lparr>fp_Name = ''supply depletion'',
     fp_Reason = spec2_forbids @ ''doses remaining, days-left, or supply-depletion projections'',
     fp_re = Alt [Seq [any_of [''dose'', ''doses'', ''supply'', ''serving'', ''servings''], Lit ''_'', any_of [''remaining'', ''left'']],
       Seq [any_of [''day'', ''days'', ''week'', ''weeks''], Lit ''_'', any_of [''remaining'', ''left'']],
       any_of [''depletion'', ''reorder_point'', ''running_out'', ''runs_out'', ''will_run_out'']]\<rparr>"

definition adherence_tracking :: forbidden_pattern where
  "adherence_tracking = \<lparr>fp_Name = ''adherence tracking'',
     fp_Reason = spec2_forbids @ ''adherence streaks, missed-dose reminders, and intake logging'',
     fp_re = Alt [any_of [''adherence'', ''adherence_streak''], Seq [Lit ''compliance_'', any_of [''streak'', ''rate'', ''score'']],
       any_of [''missed_dose'', ''missed_doses'', ''intake'', ''intake_log''],
       Seq [Lit ''dose_'', any_of [''log'', ''taken'', ''time'', ''times'', ''reminder'', ''schedule'']],
       any_of [''taken_at'', ''last_taken'']]\<rparr>"

definition outcome_tracking :: forbidden_pattern where
  "outcome_tracking = \<lparr>fp_Name = ''outcome tracking'',
     fp_Reason = spec2_forbids @ ''outcome tracking, symptom logs, and goal progress'',
     fp_re = Alt [any_of [''symptom'', ''symptoms''], Seq [Lit ''outcome_'', any_of [''track'', ''tracking'', ''log'', ''record'']],
       Seq [Lit ''goal_'', any_of [''progress'', ''tracking'']], any_of [''side_effect'', ''side_effects'']]\<rparr>"

definition cadence_recommendation :: forbidden_pattern where
  "cadence_recommendation = \<lparr>fp_Name = ''cadence recommendation'',
     fp_Reason = spec2_forbids @ ''any per-compound cadence recommendation, authored or model-generated. ''
       @ ''A documented per-SKU default is a merchandising decision and is fine; a recommendation is not'',
     fp_re = Alt [Seq [any_of [''recommended'', ''suggested'', ''optimal'', ''ideal'', ''advised''], Lit ''_'',
         any_of [''cadence'', ''interval'', ''dose'', ''dosage'', ''frequency'', ''schedule'', ''days'']],
       any_of [''dosage'', ''dosing''], Seq [Lit ''protocol_'', any_of [''interval'', ''cadence'']]]\<rparr>"

definition forbidden :: "forbidden_pattern list" where
  "forbidden = [usage_rate, supply_depletion, adherence_tracking, outcome_tracking, cadence_recommendation]"

section \<open>Identifiers\<close>

definition between :: "char \<Rightarrow> nat \<Rightarrow> nat \<Rightarrow> bool" where
  "between c lo hi = (lo \<le> of_char c \<and> of_char c \<le> hi)"

definition IsUpper :: "char \<Rightarrow> bool" where
  "IsUpper c = (between c 0x41 0x5A \<or> (between c 0xC0 0xDE \<and> c \<noteq> CHR 0xD7))"

definition IsLower :: "char \<Rightarrow> bool" where
  "IsLower c = (between c 0x61 0x7A \<or> c = CHR 0xB5 \<or> (between c 0xDF 0xFF \<and> c \<noteq> CHR 0xF7))"

definition IsDigit :: "char \<Rightarrow> bool" where
  "IsDigit c = between c 0x30 0x39"

definition ToLower :: "char \<Rightarrow> char" where
  "ToLower c = (if IsUpper c then char_of ((of_char c :: nat) + 32) else c)"

text \<open>The loop of \<open>normalize\<close>, with the rune before the current one.\<close>

fun separated :: "char option \<Rightarrow> string \<Rightarrow> string" where
  "separated prev [] = []"
| "separated prev (r # rest) =
    (if r = CHR ''-'' \<or> r = CHR '' '' \<or> r = CHR ''.'' then CHR ''_'' # separated (Some r) rest
     else if IsUpper r then
       (if (case prev of None \<Rightarrow> False
            | Some p \<Rightarrow> IsLower p \<or> IsDigit p \<or> ((case rest of [] \<Rightarrow> False | q # _ \<Rightarrow> IsLower q) \<and> IsUpper p))
        then [CHR ''_''] else []) @ ToLower r # separated (Some r) rest
     else r # separated (Some r) rest)"

fun collapse :: "string \<Rightarrow> string" where
  "collapse (a # b # s) = (if a = CHR ''_'' \<and> b = CHR ''_'' then collapse (b # s) else a # collapse (b # s))"
| "collapse s = s"

definition normalize_ident :: "string \<Rightarrow> string" where
  "normalize_ident ident = collapse (separated None ident)"

record violation =
  v_Path :: string
  v_Line :: int
  v_Identifier :: string
  v_Pattern :: string
  v_Reason :: string

definition Violation_String :: "violation \<Rightarrow> string" where
  "Violation_String v = v_Path v @ '':'' @ dec_int (v_Line v) @ '': identifier '' @ quoted (v_Identifier v) @ '' is a ''
     @ v_Pattern v @ '' violation'' @ [CHR 0x0A] @ ''    '' @ v_Reason v"

definition check_ident :: "violation list \<Rightarrow> string \<Rightarrow> int \<Rightarrow> string \<Rightarrow> violation list" where
  "check_ident found path line ident =
    (let n = normalize_ident ident in
     found @ map (\<lambda>p. \<lparr>v_Path = path, v_Line = line, v_Identifier = ident, v_Pattern = fp_Name p, v_Reason = fp_Reason p\<rparr>)
       (filter (\<lambda>p. match_pattern (fp_re p) n) forbidden))"

section \<open>SQL files\<close>

fun after_close :: "string \<Rightarrow> string option" where
  "after_close (c # d # s) = (if c = CHR ''*'' \<and> d = CHR ''/'' then Some s else after_close (d # s))"
| "after_close s = None"

lemma after_close_shorter: "after_close s = Some t \<Longrightarrow> length t < length s"
  by (induction s rule: after_close.induct) (auto split: if_splits)

text \<open>The two comment expressions, replaced in a line.\<close>

function strip_blocks :: "string \<Rightarrow> string" where
  "strip_blocks (c # d # s) =
    (case (if c = CHR ''/'' \<and> d = CHR ''*'' then after_close s else None) of
       Some rest \<Rightarrow> CHR '' '' # strip_blocks rest
     | None \<Rightarrow> c # strip_blocks (d # s))"
| "strip_blocks [] = []"
| "strip_blocks [c] = [c]"
  by pat_completeness auto
termination
  by (relation "measure length") (auto split: if_splits dest: after_close_shorter)

function strip_line :: "string \<Rightarrow> string" where
  "strip_line (c # d # s) =
    (if c = CHR ''-'' \<and> d = CHR ''-'' then strip_line (dropWhile (\<lambda>x. x \<noteq> CHR 0x0A) s) else c # strip_line (d # s))"
| "strip_line [] = []"
| "strip_line [c] = [c]"
  by pat_completeness auto
termination
  by (relation "measure length") (auto simp: length_dropWhile_le le_imp_less_Suc le_SucI)

definition ident_start :: "char \<Rightarrow> bool" where
  "ident_start c = (between c 0x41 0x5A \<or> between c 0x61 0x7A \<or> c = CHR ''_'')"

definition ident_part :: "char \<Rightarrow> bool" where
  "ident_part c = (ident_start c \<or> between c 0x30 0x39)"

function sql_idents :: "string \<Rightarrow> string list" where
  "sql_idents [] = []"
| "sql_idents (c # s) = (if ident_start c then (c # takeWhile ident_part s) # sql_idents (dropWhile ident_part s) else sql_idents s)"
  by pat_completeness auto
termination
  by (relation "measure length") (auto simp: length_dropWhile_le le_imp_less_Suc)

text \<open>\<open>strings.Split(src, sep)\<close> for a separator of one character.\<close>

fun split_at :: "char \<Rightarrow> string \<Rightarrow> string list" where
  "split_at sep [] = [[]]"
| "split_at sep (c # s) = (if c = sep then [] # split_at sep s else (case split_at sep s of
     w # ws \<Rightarrow> (c # w) # ws | [] \<Rightarrow> [[c]]))"

definition scan_lines :: "string \<Rightarrow> violation list \<Rightarrow> (int \<times> string) list \<Rightarrow> violation list" where
  "scan_lines path found ls =
    fold (\<lambda>(i, line) found. fold (\<lambda>tok found. check_ident found path i tok) (sql_idents (strip_line (strip_blocks line))) found) ls found"

definition scanSQL :: "string \<Rightarrow> string \<Rightarrow> violation list" where
  "scanSQL path src = (let ls = split_at (CHR 0x0A) src in scan_lines path [] (zip (map int [1..<Suc (length ls)]) ls))"


section \<open>Go files\<close>

text \<open>What \<open>ast.Inspect\<close> visits: an identifier, a field with or without a tag.\<close>

datatype go_node = GoIdent string int | GoField "(string \<times> int) option"

definition tag_key_prefixes :: "string list" where
  "tag_key_prefixes = [''json:'', ''db:'', ''sqlc:'']"

definition key_at :: "string \<Rightarrow> (string \<times> string) option" where
  "key_at s = (case find (\<lambda>p. prefix (p @ [CHR 0x22]) s) tag_key_prefixes of
     None \<Rightarrow> None
   | Some p \<Rightarrow>
      (let r = drop (length p + 1) s in
       case dropWhile (\<lambda>c. c \<noteq> CHR 0x22) r of [] \<Rightarrow> None | _ # rest \<Rightarrow> Some (takeWhile (\<lambda>c. c \<noteq> CHR 0x22) r, rest)))"

lemma key_at_shorter:
  assumes "key_at s = Some (v, rest)"
  shows "length rest < length s"
proof (cases "find (\<lambda>p. prefix (p @ [CHR 0x22]) s) tag_key_prefixes")
  case None
  then show ?thesis using assms by (simp add: key_at_def)
next
  case (Some p)
  let ?r = "drop (length p + 1) s"
  obtain c where "dropWhile (\<lambda>c. c \<noteq> CHR 0x22) ?r = c # rest"
    using assms Some by (auto simp: key_at_def Let_def split: list.splits)
  then have "Suc (length rest) \<le> length ?r"
    using length_dropWhile_le [of "\<lambda>c. c \<noteq> CHR 0x22" ?r] by simp
  then show ?thesis by simp
qed

function tag_keys :: "string \<Rightarrow> string list" where
  "tag_keys [] = []"
| "tag_keys (c # s) = (case key_at (c # s) of Some (v, rest) \<Rightarrow> v # tag_keys rest | None \<Rightarrow> tag_keys s)"
  by pat_completeness auto
termination
  by (relation "measure length") (auto dest: key_at_shorter)

fun inspect :: "string \<Rightarrow> go_node \<Rightarrow> violation list \<Rightarrow> violation list" where
  "inspect path (GoIdent name line) found = check_ident found path line name"
| "inspect path (GoField None) found = found"
| "inspect path (GoField (Some (tag, line))) found =
    fold (\<lambda>m found. let name = takeWhile (\<lambda>c. c \<noteq> CHR '','') m in
        if name \<noteq> '''' \<and> name \<noteq> ''-'' then check_ident found path line name else found) (tag_keys tag) found"

definition scanGo :: "string \<Rightarrow> go_node list option \<Rightarrow> violation list" where
  "scanGo path file = (case file of None \<Rightarrow> [] | Some nodes \<Rightarrow> fold (inspect path) nodes [])"

section \<open>The tree\<close>

text \<open>A directory lists its entries in lexical order, as \<open>fs.ReadDir\<close> does.\<close>

datatype fs_tree = FFile string | FDir string "fs_tree list"

definition skipped_dirs :: "string list" where
  "skipped_dirs = [''.git'', ''vendor'', ''node_modules'', ''.postgres-data'']"

definition Ext :: "string \<Rightarrow> string" where
  "Ext path = (let base = rev (takeWhile (\<lambda>c. c \<noteq> CHR ''/'') (rev path)) in
     if CHR ''.'' \<in> set base then CHR ''.'' # rev (takeWhile (\<lambda>c. c \<noteq> CHR ''.'') (rev base)) else '''')"

definition join_path :: "string \<Rightarrow> string \<Rightarrow> string" where
  "join_path dir name = (if dir = ''.'' then name else dir @ ''/'' @ name)"

definition scan_file ::
    "(string \<Rightarrow> go_error + string) \<Rightarrow> (string \<Rightarrow> go_node list option) \<Rightarrow> string \<Rightarrow> violation list \<Rightarrow> go_error + violation list" where
  "scan_file read parse path found =
    (let ext = map ToLower (Ext path) in
     if ext = ''.go'' \<or> ext = ''.sql''
     then (case read path of
         Inl e \<Rightarrow> Inl (Wrapped (''read '' @ path @ '': '') e '''')
       | Inr src \<Rightarrow> Inr (found @ (if ext = ''.go'' then scanGo path (parse src) else scanSQL path src)))
     else Inr found)"

fun scan_tree ::
    "(string \<Rightarrow> go_error + string) \<Rightarrow> (string \<Rightarrow> go_node list option) \<Rightarrow> string \<Rightarrow> fs_tree \<Rightarrow> violation list
      \<Rightarrow> go_error + violation list"
and scan_trees ::
    "(string \<Rightarrow> go_error + string) \<Rightarrow> (string \<Rightarrow> go_node list option) \<Rightarrow> string \<Rightarrow> fs_tree list \<Rightarrow> violation list
      \<Rightarrow> go_error + violation list" where
  "scan_tree read parse path (FFile name) found = scan_file read parse path found"
| "scan_tree read parse path (FDir name entries) found =
    (if name \<in> set skipped_dirs then Inr found else scan_trees read parse path entries found)"
| "scan_trees read parse dir [] found = Inr found"
| "scan_trees read parse dir (t # ts) found =
    (case scan_tree read parse (join_path dir (case t of FFile n \<Rightarrow> n | FDir n _ \<Rightarrow> n)) t found of
       Inl e \<Rightarrow> Inl e
     | Inr found \<Rightarrow> scan_trees read parse dir ts found)"

definition Scan ::
    "(string \<Rightarrow> go_error + string) \<Rightarrow> (string \<Rightarrow> go_node list option) \<Rightarrow> string \<Rightarrow> fs_tree \<Rightarrow> go_error + violation list" where
  "Scan read parse base tree = scan_tree read parse base tree []"

section \<open>Words of an identifier\<close>

fun join_with :: "char \<Rightarrow> string list \<Rightarrow> string" where
  "join_with sep [] = ''''"
| "join_with sep [w] = w"
| "join_with sep (w # v # ws) = w @ sep # join_with sep (v # ws)"

lemma split_at_nonempty [simp]: "split_at sep s \<noteq> []"
  by (cases s) (auto split: list.splits)

lemma split_at_append: "split_at sep (a @ sep # b) = split_at sep a @ split_at sep b"
  by (induction a) (auto split: list.splits)

lemma split_at_word: "sep \<notin> set w \<Longrightarrow> split_at sep w = [w]"
  by (induction w) auto

lemma join_with_Cons: "ws \<noteq> [] \<Longrightarrow> join_with sep (w # ws) = w @ sep # join_with sep ws"
  by (cases ws) auto

lemma join_with_append: "as \<noteq> [] \<Longrightarrow> bs \<noteq> [] \<Longrightarrow> join_with sep (as @ bs) = join_with sep as @ sep # join_with sep bs"
  by (induction as rule: list_nonempty_induct) (simp_all add: join_with_Cons)

lemma join_split: "join_with sep (split_at sep s) = s"
proof (induction s)
  case (Cons c s)
  obtain w ws where s: "split_at sep s = w # ws" by (cases "split_at sep s") auto
  then show ?case using Cons by (cases ws) auto
qed simp

lemma split_join: "ws \<noteq> [] \<Longrightarrow> \<forall>w \<in> set ws. sep \<notin> set w \<Longrightarrow> split_at sep (join_with sep ws) = ws"
proof (induction ws rule: list_nonempty_induct)
  case (cons w ws)
  then show ?case by (simp add: join_with_Cons split_at_append split_at_word)
qed (simp add: split_at_word)

lemma match_word_iff:
  "match_word w s \<longleftrightarrow> (\<exists>a b. s = a @ w @ b \<and> (a = [] \<or> last a = CHR ''_'') \<and> (b = [] \<or> hd b = CHR ''_''))"
proof
  assume "match_word w s"
  then obtain n where n: "n \<le> length s" "n = 0 \<or> s ! (n - 1) = CHR ''_''" "take (length w) (drop n s) = w"
    "case drop (n + length w) s of [] \<Rightarrow> True | c # _ \<Rightarrow> c = CHR ''_''"
    unfolding match_word_def list_ex_iff set_upt by (metis atLeastLessThan_iff less_Suc_eq_le)
  let ?a = "take n s" and ?b = "drop (n + length w) s"
  have "s = ?a @ w @ ?b" using n(3) by (metis append_take_drop_id drop_drop add.commute)
  moreover have "?a = [] \<or> last ?a = CHR ''_''" using n(1,2) by (cases n) (auto simp: take_Suc_conv_app_nth)
  moreover have "?b = [] \<or> hd ?b = CHR ''_''" using n(4) by (auto split: list.splits)
  ultimately show "\<exists>a b. s = a @ w @ b \<and> (a = [] \<or> last a = CHR ''_'') \<and> (b = [] \<or> hd b = CHR ''_'')" by blast
next
  assume "\<exists>a b. s = a @ w @ b \<and> (a = [] \<or> last a = CHR ''_'') \<and> (b = [] \<or> hd b = CHR ''_'')"
  then obtain a b where s: "s = a @ w @ b" "a = [] \<or> last a = CHR ''_''" "b = [] \<or> hd b = CHR ''_''" by blast
  have "length a = 0 \<or> s ! (length a - 1) = CHR ''_''"
    using s(2) unfolding s(1) by (cases a rule: rev_cases) (auto simp: nth_append)
  moreover have "case drop (length a + length w) s of [] \<Rightarrow> True | c # _ \<Rightarrow> c = CHR ''_''"
    using s(3) unfolding s(1) by (cases b) auto
  ultimately show "match_word w s"
    unfolding match_word_def list_ex_iff using s(1) by (intro bexI [of _ "length a"]) simp_all
qed

lemma match_word_words: "match_word w s \<longleftrightarrow> sublist (split_at (CHR ''_'') w) (split_at (CHR ''_'') s)"
proof
  assume "match_word w s"
  then obtain a b where s: "s = a @ w @ b" and a: "a = [] \<or> last a = CHR ''_''" and b: "b = [] \<or> hd b = CHR ''_''"
    by (auto simp: match_word_iff)
  have right: "\<exists>bs. split_at (CHR ''_'') (w @ b) = split_at (CHR ''_'') w @ bs"
    using b by (cases b) (auto simp: split_at_append)
  show "sublist (split_at (CHR ''_'') w) (split_at (CHR ''_'') s)"
  proof (cases a rule: rev_cases)
    case Nil
    then show ?thesis using right s unfolding sublist_def by (metis append_Nil)
  next
    case (snoc a' c)
    then have "s = a' @ CHR ''_'' # (w @ b)" using s a by simp
    then have "split_at (CHR ''_'') s = split_at (CHR ''_'') a' @ split_at (CHR ''_'') (w @ b)" by (simp only: split_at_append)
    then show ?thesis using right unfolding sublist_def by metis
  qed
next
  assume "sublist (split_at (CHR ''_'') w) (split_at (CHR ''_'') s)"
  then obtain as bs where parts: "split_at (CHR ''_'') s = as @ split_at (CHR ''_'') w @ bs" by (auto simp: sublist_def)
  let ?j = "join_with (CHR ''_'')"
  have wb: "?j (split_at (CHR ''_'') w @ bs) = w @ (if bs = [] then [] else CHR ''_'' # ?j bs)"
    by (simp add: join_with_append join_split)
  have "s = ?j (as @ split_at (CHR ''_'') w @ bs)" using join_split [of "CHR ''_''" s] parts by simp
  also have "\<dots> = (if as = [] then [] else ?j as @ [CHR ''_'']) @ w @ (if bs = [] then [] else CHR ''_'' # ?j bs)"
    using wb by (simp add: join_with_append)
  finally show "match_word w s"
    unfolding match_word_iff by (intro exI conjI) (assumption, auto)
qed


section \<open>Spellings\<close>

definition letters :: string where
  "letters = ''abcdefghijklmnopqrstuvwxyz''"

definition upper :: "char \<Rightarrow> char" where
  "upper c = char_of ((of_char c :: nat) - 32)"

definition capital :: "string \<Rightarrow> string" where
  "capital w = (case w of [] \<Rightarrow> [] | c # v \<Rightarrow> upper c # v)"

text \<open>The spellings of a list of words: \<open>dose_count\<close>, \<open>dose-count\<close>, \<open>doseCount\<close>, \<open>DoseCount\<close>.\<close>

definition spellings :: "string list \<Rightarrow> string list" where
  "spellings ws = [join_with (CHR ''_'') ws, join_with (CHR ''-'') ws,
     (case ws of [] \<Rightarrow> [] | w # vs \<Rightarrow> w @ concat (map capital vs)), concat (map capital ws)]"

definition plain_word :: "string \<Rightarrow> bool" where
  "plain_word w = (2 \<le> length w \<and> set w \<subseteq> set letters)"

lemma letter_cases: "\<forall>c \<in> set letters. IsLower c \<and> \<not> IsUpper c \<and> IsUpper (upper c) \<and> ToLower (upper c) = c \<and> c \<noteq> CHR ''_''
    \<and> c \<noteq> CHR ''-'' \<and> c \<noteq> CHR '' '' \<and> c \<noteq> CHR ''.'' \<and> upper c \<noteq> CHR ''-'' \<and> upper c \<noteq> CHR '' '' \<and> upper c \<noteq> CHR ''.''"
  by code_simp

lemma separated_letters:
  "set w \<subseteq> set letters \<Longrightarrow> w \<noteq> [] \<Longrightarrow> separated p (w @ s) = w @ separated (Some (last w)) s"
proof (induction w arbitrary: p)
  case (Cons c w)
  then show ?case using letter_cases by (cases w) auto
qed simp

lemma separated_capital:
  assumes "plain_word w"
  shows "separated p (capital w @ s) = (case p of None \<Rightarrow> [] | Some q \<Rightarrow> if IsLower q \<or> IsDigit q \<or> IsUpper q then [CHR ''_''] else [])
    @ w @ separated (Some (last w)) s"
proof -
  obtain c d v where w: "w = c # d # v" "c \<in> set letters" "d \<in> set letters" "set (d # v) \<subseteq> set letters"
    using assms by (cases w rule: remdups_adj.cases) (auto simp: plain_word_def)
  have "separated (Some (upper c)) (d # v @ s) = d # v @ separated (Some (last w)) s" for s
    using separated_letters [of "d # v" "Some (upper c)" s] w by simp
  then show ?thesis
    using letter_cases w by (auto simp: capital_def split: option.splits)
qed

lemma last_letter: "plain_word w \<Longrightarrow> last w \<in> set letters"
  by (cases w rule: rev_cases) (auto simp: plain_word_def)

lemma separated_capitals:
  assumes "\<forall>w \<in> set ws. plain_word w" "IsLower q"
  shows "separated (Some q) (concat (map capital ws)) = concat (map (\<lambda>w. CHR ''_'' # w) ws)"
  using assms
proof (induction ws arbitrary: q)
  case (Cons w ws)
  have "IsLower (last w)" using last_letter Cons.prems(1) letter_cases by simp
  then show ?case using Cons separated_capital [of w "Some q"] by simp
qed simp

lemma join_with_concat: "join_with sep (w # ws) = w @ concat (map (\<lambda>v. sep # v) ws)"
  by (induction ws arbitrary: w) auto

lemma separated_joined:
  assumes "\<forall>w \<in> set ws. plain_word w" "sep = CHR ''_'' \<or> sep = CHR ''-''"
  shows "separated (Some q) (concat (map (\<lambda>v. sep # v) ws)) = concat (map (\<lambda>w. CHR ''_'' # w) ws)"
  using assms(1)
proof (induction ws arbitrary: q)
  case (Cons w ws)
  have "separated (Some sep) (w @ concat (map (\<lambda>v. sep # v) ws)) = w @ separated (Some (last w)) (concat (map (\<lambda>v. sep # v) ws))"
    using Cons.prems by (intro separated_letters) (auto simp: plain_word_def)
  moreover have "\<not> IsUpper (CHR ''_'')" by code_simp
  ultimately show ?case using assms(2) Cons by auto
qed simp

lemma separated_spelling:
  assumes "\<forall>w \<in> set (v # vs). plain_word w" "ident \<in> set (spellings (v # vs))"
  shows "separated None ident = join_with (CHR ''_'') (v # vs)"
proof -
  have v: "set v \<subseteq> set letters" "v \<noteq> []" "IsLower (last v)"
  proof -
    have p: "plain_word v" using assms(1) by simp
    then show "set v \<subseteq> set letters" "v \<noteq> []" by (auto simp: plain_word_def)
    show "IsLower (last v)" using letter_cases last_letter [OF p] by blast
  qed
  have vs: "\<forall>w \<in> set vs. plain_word w" using assms(1) by simp
  consider (join) sep where "sep = CHR ''_'' \<or> sep = CHR ''-''" "ident = join_with sep (v # vs)"
    | (camel) "ident = v @ concat (map capital vs)" | (pascal) "ident = capital v @ concat (map capital vs)"
    using assms(2) by (auto simp: spellings_def)
  then show ?thesis
  proof cases
    case join
    then show ?thesis
      using separated_letters [OF v(1,2)] separated_joined [OF vs join(1)] by (simp only: join_with_concat)
  next
    case camel
    then show ?thesis using separated_letters [OF v(1,2)] separated_capitals [OF vs v(3)] by (simp only: join_with_concat)
  next
    case pascal
    then show ?thesis
      using separated_capital [of v None] separated_capitals [OF vs v(3)] assms(1) by (simp add: join_with_concat)
  qed
qed


lemma collapse_word: "CHR ''_'' \<notin> set w \<Longrightarrow> collapse (w @ s) = w @ collapse s"
proof (induction w)
  case (Cons a w)
  then show ?case by (cases "w @ s") auto
qed simp

lemma collapse_joined:
  assumes "\<forall>w \<in> set ws. w \<noteq> [] \<and> CHR ''_'' \<notin> set w"
  shows "collapse (concat (map (\<lambda>w. CHR ''_'' # w) ws)) = concat (map (\<lambda>w. CHR ''_'' # w) ws)"
  using assms
proof (induction ws)
  case (Cons w ws)
  let ?rest = "concat (map (\<lambda>w. CHR ''_'' # w) ws)"
  have "collapse (CHR ''_'' # w @ ?rest) = CHR ''_'' # collapse (w @ ?rest)" using Cons.prems by (cases w) auto
  moreover have "collapse (w @ ?rest) = w @ collapse ?rest" using Cons.prems by (intro collapse_word) simp
  ultimately show ?case using Cons by simp
qed simp

lemma plain_no_underscore: "plain_word w \<Longrightarrow> w \<noteq> [] \<and> CHR ''_'' \<notin> set w"
proof -
  assume "plain_word w"
  then have "2 \<le> length w" "set w \<subseteq> set letters" by (simp_all add: plain_word_def)
  moreover have "CHR ''_'' \<notin> set letters" using letter_cases by blast
  ultimately show "w \<noteq> [] \<and> CHR ''_'' \<notin> set w" by auto
qed

lemma normalize_spelling:
  assumes "ws \<noteq> []" "\<forall>w \<in> set ws. plain_word w" "ident \<in> set (spellings ws)"
  shows "normalize_ident ident = join_with (CHR ''_'') ws"
proof -
  obtain v vs where ws: "ws = v # vs" using assms(1) by (cases ws) auto
  have "\<forall>w \<in> set (v # vs). w \<noteq> [] \<and> CHR ''_'' \<notin> set w"
    using assms(2) plain_no_underscore unfolding ws by blast
  then have v: "CHR ''_'' \<notin> set v" and vs: "\<forall>w \<in> set vs. w \<noteq> [] \<and> CHR ''_'' \<notin> set w"
    by simp_all
  have "normalize_ident ident = collapse (v @ concat (map (\<lambda>w. CHR ''_'' # w) vs))"
    unfolding normalize_ident_def separated_spelling [OF assms(2,3) [unfolded ws]] join_with_concat ..
  also have "\<dots> = v @ concat (map (\<lambda>w. CHR ''_'' # w) vs)"
    unfolding collapse_word [OF v] collapse_joined [OF vs] ..
  finally show ?thesis unfolding ws join_with_concat .
qed

text \<open>C40. No spelling slips through the guard and none is flagged by accident: for an identifier built
  of lower-case words, in snake case, kebab case, camel case or Pascal case alike, the guard reports
  exactly the patterns one of whose phrases occurs in the identifier as consecutive whole words, in
  the order of the list, under the identifier as it was written.\<close>

theorem forbidden_phrases_are_found_in_any_spelling:
  assumes "ws \<noteq> []" and "\<forall>w \<in> set ws. plain_word w" and "ident \<in> set (spellings ws)"
  shows "check_ident [] path line ident = map (\<lambda>p. \<lparr>v_Path = path, v_Line = line, v_Identifier = ident,
      v_Pattern = fp_Name p, v_Reason = fp_Reason p\<rparr>)
    (filter (\<lambda>p. \<exists>phrase \<in> set (phrases (fp_re p)). sublist (split_at (CHR ''_'') phrase) ws) forbidden)"
proof -
  have "\<forall>w \<in> set ws. CHR ''_'' \<notin> set w" using assms(2) plain_no_underscore by blast
  then have words: "split_at (CHR ''_'') (normalize_ident ident) = ws"
    unfolding normalize_spelling [OF assms] using split_join [OF assms(1)] by blast
  have "filter (\<lambda>p. match_pattern (fp_re p) (normalize_ident ident)) forbidden
      = filter (\<lambda>p. \<exists>phrase \<in> set (phrases (fp_re p)). sublist (split_at (CHR ''_'') phrase) ws) forbidden"
    by (rule filter_cong [OF refl]) (simp only: match_pattern_def list_ex_iff match_word_words words)
  then show ?thesis unfolding check_ident_def Let_def append_Nil by (rule arg_cong)
qed

lemma doses_per_day: "''doses_per_day'' \<in> set (phrases (fp_re usage_rate))"
  by code_simp

lemma forbidden_phrases_are_found_in_any_spelling_witness:
  "''usage rate'' \<in> set (map v_Pattern (check_ident [] ''a.go'' 3 ''MaxDosesPerDay''))"
proof -
  let ?ws = "[''max'', ''doses'', ''per'', ''day'']"
  have found: "check_ident [] ''a.go'' 3 ''MaxDosesPerDay'' = map (\<lambda>p. \<lparr>v_Path = ''a.go'', v_Line = 3, v_Identifier = ''MaxDosesPerDay'',
      v_Pattern = fp_Name p, v_Reason = fp_Reason p\<rparr>)
    (filter (\<lambda>p. \<exists>phrase \<in> set (phrases (fp_re p)). sublist (split_at (CHR ''_'') phrase) ?ws) forbidden)"
    by (rule forbidden_phrases_are_found_in_any_spelling) code_simp+
  have "sublist (split_at (CHR ''_'') ''doses_per_day'') ?ws"
    unfolding sublist_def by (rule exI [of _ "[''max'']"], rule exI [of _ "[]"]) simp
  then have "\<exists>phrase \<in> set (phrases (fp_re usage_rate)). sublist (split_at (CHR ''_'') phrase) ?ws"
    using doses_per_day by (rule bexI)
  moreover have "usage_rate \<in> set forbidden" by (simp add: forbidden_def)
  ultimately have "usage_rate \<in> set (filter (\<lambda>p. \<exists>phrase \<in> set (phrases (fp_re p)). sublist (split_at (CHR ''_'') phrase) ?ws) forbidden)"
    unfolding set_filter by blast
  moreover have "''usage rate'' = fp_Name usage_rate" by (simp add: usage_rate_def)
  ultimately show ?thesis
    unfolding found set_map image_image violation.select_convs by (rule rev_image_eqI)
qed

section \<open>Comments\<close>

text \<open>The comments of a line are stripped, but each line on its own: the body of a block comment that
  spans lines is scanned like code.\<close>

definition sql_tokens :: "string \<Rightarrow> string list" where
  "sql_tokens src = concat (map (\<lambda>line. sql_idents (strip_line (strip_blocks line))) (split_at (CHR 0x0A) src))"

lemma comments_on_one_line_are_not_scanned:
  "sql_tokens ''id uuid /* no adherence */ -- nor dose_log'' = [''id'', ''uuid'']"
  by code_simp

lemma block_comments_across_lines_are_scanned:
  "sql_tokens (''/* there is'' @ [CHR 0x0A] @ ''no adherence'' @ [CHR 0x0A] @ ''*/'') = [''there'', ''is'', ''no'', ''adherence'']"
  by code_simp

end
