(* ===== verification/Spec2Isabelle.thy ===== *)
theory Spec2Isabelle
  imports Dates Arrays Retries Notices PortalDev Compliance
begin

text \<open>
  CadenceOS, a scheduler of recurring orders in Go. A schedule repeats every \<open>interval_days\<close> days
  from an anchor date; customers pause, resume, skip, defer, re-time and cancel it over HTTP; jobs
  plan its occurrences ahead, end its pauses, arm the next order before it is charged and mail
  notices about it. This library models the service, its jobs and its tools as executable
  functions over an explicit database and states what makes them correct.

  \<^bold>\<open>How the parts interact.\<close> A request passes \<open>serve\<close> (router and middleware) to a handler; the
  transition handlers call one action of the service; an action runs in one transaction: it locks
  the schedule, checks the transition table, updates rows, logs an event and lets the materializer
  refill the horizon. The nightly job runs the same materializer over the active schedules, the
  sweep calls the same service, and the dispatcher claims the events they logged and mails them.
  All of them reach the database through one record of operations, \<open>repository\<close>, implemented by
  \<open>postgres\<close>.

  \<^bold>\<open>The model of a running program\<close> (\<open>Session\<close>). A program of type \<open>'a go\<close> takes a \<open>session\<close> (the
  database, the open transaction and its \<open>now()\<close>, whether it is aborted, counters, the mail sent)
  to an error or a value and a session. Everything outside the program is the record \<open>world\<close>: which
  statements fail, the clocks, the identifiers drawn, the answers of the mail service, and what other
  sessions have committed before a statement outside a transaction. A transaction that fails, is
  aborted or cannot commit gives the database back as it began on it; a commit the driver reports
  as failed counts as rolled back. Inside a transaction nothing the code reads moves, which the lock on
  the schedule row justifies. Properties quantify over the world, so they hold for every failure
  and every interleaving at statement boundaries it admits; \<open>alone\<close> restricts it to no other
  sessions, \<open>lawful\<close> to other sessions that are sequences of steps of this same system.

  \<^bold>\<open>Theories and code.\<close>
  \<^item> \<open>Prelude\<close>, \<open>Calendar\<close>, \<open>Float64\<close>, \<open>Decode\<close>: Go's decimal rendering, the proleptic Gregorian
    calendar of \<open>time\<close>, binary64 rounding, \<open>encoding/json\<close> into a struct.
  \<^item> \<open>Types\<close>, \<open>Cadence\<close>, \<open>Transitions\<close>: \<open>internal/domain\<close> (entities and errors, dates and occurrence
    arithmetic, transition table and validators).
  \<^item> \<open>Schema\<close>, \<open>Store\<close>, \<open>Arrays\<close>: \<open>internal/store\<close>, the tables with their constraints, the scopes and the
    methods of \<open>PostgresRepository\<close>, the array literals of its queries.
  \<^item> \<open>Materialize\<close>, \<open>Service\<close>, \<open>Sweep\<close>: \<open>internal/materialize\<close>, \<open>internal/schedule\<close>, \<open>internal/sweep\<close>.
  \<^item> \<open>Mail\<close>, \<open>Notify\<close>: \<open>internal/notify\<close> (templates and rendering, the Postmark request, the dispatcher).
  \<^item> \<open>Auth\<close>, \<open>HttpApi\<close>, \<open>Router\<close>, \<open>Hosting\<close>: \<open>internal/auth\<close>, \<open>internal/httpapi\<close>, the console pages and
    \<open>internal/store/migrate.go\<close>.
  \<^item> \<open>Config\<close>, \<open>Commands\<close>, \<open>PortalDev\<close>, \<open>Compliance\<close>: \<open>internal/config\<close>, the binaries under \<open>cmd/\<close>, the
    development portal, and the vocabulary check of \<open>internal/compliance\<close>.

  \<^bold>\<open>Interfaces.\<close> The locale \<open>rely\<close> (\<open>Session\<close>) is a reflexive and transitive relation on databases
  that other sessions keep; \<open>repository_rely\<close> adds that every operation of a repository keeps it, and
  the clients (materializer, service, sweeps, dispatcher, handlers) are proved inside it. \<open>write_laws\<close>
  asks only about the kinds of statements and yields the rest by \<open>sublocale\<close>; it is interpreted for
  the constraints, the growing event log, the identities of rows and the orders. \<open>serving\<close>
  interprets \<open>rely\<close> on the runs of the whole system; \<open>outbox_rely\<close> and \<open>outbox_laws\<close> (\<open>Dispatch\<close>) are
  the outbox the dispatcher relies on, interpreted as \<open>marks\<close>.

  \<^bold>\<open>What the lemmas show.\<close>
  \<^item> \<open>Transaction\<close> and \<open>Methods\<close> give the rules of a weakest-precondition calculus for one
    transaction; with them \<open>Planning\<close>, \<open>Effects\<close> and \<open>Horizon\<close> reduce each action to a function on the
    database, and \<open>Rows\<close>, \<open>Actions\<close> and \<open>Retries\<close> read off what the customer sees (C7 to C16).
  \<^item> \<open>Lifecycle\<close> is the abstract specification: a step relation, one step per committed action, with
    the invariants it keeps. \<open>System\<close> and \<open>Creation\<close> show that the programs refine it whatever fails,
    and this theory and \<open>History\<close> conclude for any sequence of jobs and requests (C1 to C3).
  \<^item> \<open>Jobs\<close>, \<open>Passes\<close> and \<open>Arming\<close> treat the periodic passes: full horizons, idempotence, no pause ended
    and no order armed early, and none of either forgotten (C4 to C6, C17 to C20).
  \<^item> \<open>Dispatch\<close> and \<open>Notices\<close> treat the outbox: termination, draining, exclusion, and what a mail may
    say (C21 to C24).
  \<^item> \<open>Dates\<close> states the laws of the date arithmetic, the bound above which it fails and the table
    (C25 to C29); \<open>Config\<close>, \<open>Access\<close> and \<open>Tenancy\<close> the boundary to the outside (C30 to C38); \<open>PortalDev\<close>
    and \<open>Compliance\<close> the two tools (C39, C40). \<open>Demo\<close> is the concrete system of the witnesses.

  \<^bold>\<open>Bounds.\<close> The dispatcher's loop may claim for ever, so \<open>notify_RunAll\<close> has a number of pages and
  answers None when it runs out; C21 shows how many are enough. \<open>time.Duration\<close> saturates at
  106751 days: the hypothesis \<open>near\<close> keeps the horizon of a schedule within that span of its anchor,
  C26 shows that it is needed. Go's \<open>int\<close> is unbounded here except where the code meets a bound: the
  \<open>integer\<close> columns, \<open>strconv.Atoi\<close>, the saturation. Strings are byte lists; the runes of the
  vocabulary check go up to U+00FF.

  \<^bold>\<open>Parameters.\<close> Documented behaviour of code that is not in the repository enters as an argument:
  SHA-256, the JWT parser and signer, \<open>net/mail.ParseAddress\<close>, time zones, PostgreSQL's \<open>uuid\<close> input
  (\<open>canonical\<close>: its output reads back as itself), goose, the HTTP client of the mail
  service, the URL and address parsing and the transport of the portal, the embedded files. The
  JSON tokenizer delivers the first value of a body and what follows it.

  \<^bold>\<open>Not modelled.\<close> \<open>internal/testsupport\<close> (fixtures of a live database), logging, signals beyond how the
  service ends, time limits and the connection pool, the text of a float in an error, the cleaning
  of paths by \<open>ServeMux\<close>, the redirect of the bare \<open>/api\<close> path of the portal, indexes without effect on results, the
  web front ends and the build files.
\<close>

section \<open>The running system\<close>


definition demo_platform :: platform where
  "demo_platform = \<lparr>pf_open = (\<lambda>_. None), pf_ping = None, pf_rfc3339 = (\<lambda>_. None), pf_sha256 = id,
     pf_jwt = (\<lambda>o' secret now token. Inr (True, token)), pf_console = (\<lambda>_. plain 404 ''''), pf_alive = True,
     pf_goose = \<lparr>gs_dialect = None, gs_up = None, gs_collect = Inr [1, 2, 3], gs_version = Inr 3\<rparr>\<rparr>"


text \<open>C2. Every run refines the step relation of the lifecycle: what it did to the database is some
  number of committed steps, its own and those of other sessions, each accepted by the schema.\<close>

theorem every_run_is_a_sequence_of_steps:
  assumes "lawful W (horizon_of env)" and "canonical W" and "st_tx s = None" and "invariant W (st_db s)"
  shows "served W (horizon_of env) (st_db s) (st_db (run_jobs P W env js s))"
  using run_jobs_served [OF assms(1,2,4,3)] .

lemma every_run_is_a_sequence_of_steps_witness:
  "served demo_world (horizon_of sample_env) demo_db
     (st_db (run_jobs demo_platform demo_world sample_env [Sweep, Nightly ''''] demo_session))"
  using every_run_is_a_sequence_of_steps
    [OF demo_lawful demo_world_canonical demo_session_sel(1), unfolded demo_session_sel, OF demo_invariant] by blast

text \<open>C3. No run takes anything back: the event log only grows, no schedule, item or occurrence is
  deleted or changes its identity, a settled occurrence keeps its row, and so does a canceled
  schedule.\<close>

theorem no_run_takes_anything_back:
  assumes "lawful W (horizon_of env)" and "canonical W" and "st_tx s = None" and "invariant W (st_db s)"
  shows "extends (st_db s) (st_db (run_jobs P W env js s))
    \<and> (\<forall>oc \<in> set (db_occurrences (st_db s)). \<not> unexecuted oc \<longrightarrow> oc \<in> set (db_occurrences (st_db (run_jobs P W env js s))))
    \<and> (\<forall>r \<in> set (db_schedules (st_db s)). sr_status r = ScheduleCanceled \<longrightarrow>
         r \<in> set (db_schedules (st_db (run_jobs P W env js s))))"
proof -
  have wf: "db_wf (st_db s)" using assms(4) by (simp add: invariant_def)
  note run = run_jobs_served [OF assms(1,2,4,3), of P js]
  show ?thesis
    using served_extends [OF run] served_settled [OF run wf] served_canceled [OF run wf]
    by (simp add: keeps_settled_def keeps_canceled_def)
qed

lemma no_run_takes_anything_back_witness:
  "extends demo_db (st_db (run_jobs demo_platform demo_world sample_env [Nightly '''', Sweep] demo_session))"
  using no_run_takes_anything_back
    [OF demo_lawful demo_world_canonical demo_session_sel(1), unfolded demo_session_sel, OF demo_invariant] by blast

end
